theory Spec2Isabelle
  imports Main "HOL-Library.Sublist" "HOL-Library.AList"
begin

section \<open>JavaScript values\<close>

text \<open>
  The values the init command handles at run time: what \<^verbatim>\<open>TOML.parse\<close> and
  \<^verbatim>\<open>readJSON\<close> return, and what a task's operation resolves to. Objects are
  association lists in insertion order. Numbers are restricted to the integers, plus
  \<open>NaN\<close>, the one other number that is falsy.
\<close>

datatype jsval =
    Undefined
  | Null
  | Bool bool
  | Num int
  | NaN
  | Str string
  | Arr "jsval list" "(string \<times> jsval) list"
  | Date string "(string \<times> jsval) list"
  | Obj "(string \<times> jsval) list"

text \<open>
  An array or a date is an object too: next to its elements (its time value) it
  carries the own properties assigned to it, the second argument.
\<close>

text \<open>JavaScript's ToBoolean, as \<^verbatim>\<open>if (x)\<close>, \<^verbatim>\<open>!x\<close> and \<^verbatim>\<open>x && y\<close> apply it.\<close>

fun truthy :: "jsval \<Rightarrow> bool" where
  "truthy Undefined = False"
| "truthy Null = False"
| "truthy (Bool b) = b"
| "truthy (Num n) = (n \<noteq> 0)"
| "truthy NaN = False"
| "truthy (Str s) = (s \<noteq> [])"
| "truthy (Arr xs ps) = True"
| "truthy (Date d ps) = True"
| "truthy (Obj ps) = True"

datatype error =
    InputError string "error option"
  | UnknownError string "error option"
  | SystemError string
  | TypeError string
  | ParseError string
  | TaskError string

text \<open>\<^verbatim>\<open>error.message\<close>.\<close>

fun message :: "error \<Rightarrow> string" where
  "message (InputError m c) = m"
| "message (UnknownError m c) = m"
| "message (SystemError m) = m"
| "message (TypeError m) = m"
| "message (ParseError m) = m"
| "message (TaskError m) = m"

text \<open>
  Reading \<^verbatim>\<open>o.k\<close> for a key \<open>k\<close> that is no built-in property (the code reads
  \<^verbatim>\<open>workspace\<close>, \<^verbatim>\<open>members\<close>, \<^verbatim>\<open>package\<close> and \<^verbatim>\<open>name\<close> only): a TypeError
  on \<^verbatim>\<open>undefined\<close> and \<^verbatim>\<open>null\<close>, the own property of an object, \<^verbatim>\<open>undefined\<close>
  where there is none and on every other primitive.
\<close>

fun own_props :: "jsval \<Rightarrow> (string \<times> jsval) list option" where
  "own_props (Arr xs ps) = Some ps"
| "own_props (Date d ps) = Some ps"
| "own_props (Obj ps) = Some ps"
| "own_props v = None"

definition lookup_prop :: "(string \<times> jsval) list \<Rightarrow> string \<Rightarrow> jsval" where
  "lookup_prop ps k = (case map_of ps k of None \<Rightarrow> Undefined | Some v \<Rightarrow> v)"

definition get_prop :: "jsval \<Rightarrow> string \<Rightarrow> error + jsval" where
  "get_prop v k =
     (if v = Undefined \<or> v = Null then Inl (TypeError ''Cannot read properties of undefined or null'')
      else case own_props v of
             None \<Rightarrow> Inr Undefined
           | Some ps \<Rightarrow> Inr (lookup_prop ps k))"

text \<open>
  Assigning \<^verbatim>\<open>o.k = x\<close> in strict mode (the file is an ES module): a TypeError
  on \<^verbatim>\<open>undefined\<close>, \<^verbatim>\<open>null\<close> and every primitive; on an object the property is
  replaced in place, or added after the others.
\<close>

fun set_prop :: "jsval \<Rightarrow> string \<Rightarrow> jsval \<Rightarrow> error + jsval" where
  "set_prop (Arr xs ps) k x = Inr (Arr xs (AList.update k x ps))"
| "set_prop (Date d ps) k x = Inr (Date d (AList.update k x ps))"
| "set_prop (Obj ps) k x = Inr (Obj (AList.update k x ps))"
| "set_prop v k x = Inl (TypeError ''Cannot set properties of a primitive'')"

text \<open>Sequencing of steps that may throw: the first error ends the computation.\<close>

definition and_then :: "error + 'a \<Rightarrow> ('a \<Rightarrow> error + 'b) \<Rightarrow> error + 'b" where
  "and_then m f = (case m of Inl e \<Rightarrow> Inl e | Inr x \<Rightarrow> f x)"

section \<open>The file system and paths\<close>

text \<open>
  A file system is what the operating system answers for a path as the process hands
  it over: nothing, a regular file with its text, or a directory with the names
  \<^verbatim>\<open>readdir\<close> lists.
\<close>

datatype node = File string | Dir "string list"

type_synonym filesystem = "string \<Rightarrow> node option"

text \<open>
  The functions of \<^verbatim>\<open>node:path\<close> on POSIX paths. A path is cut at its separators
  into segments; \<^verbatim>\<open>normalizeString\<close> drops the empty segments and the dots, and lets
  a double dot take back the segment before it (the segments kept so far are held last
  first). \<^verbatim>\<open>path.resolve\<close> goes through its arguments from the right until it has an
  absolute path, which is the same as starting from the working directory and letting
  every absolute argument start afresh; an empty argument is skipped; the result is
  absolute, normalized, and has no trailing separator. \<^verbatim>\<open>path.join\<close> joins the
  arguments that are not empty and normalizes. \<^verbatim>\<open>path.basename\<close> drops trailing
  separators and keeps what follows the last separator left.
\<close>

fun splitPath :: "string \<Rightarrow> string list" where
  "splitPath [] = [[]]"
| "splitPath (c # cs) =
     (if c = CHR ''/'' then [] # splitPath cs
      else (case splitPath cs of
              [] \<Rightarrow> [[c]]
            | segment # segments \<Rightarrow> (c # segment) # segments))"

fun joinPath :: "string list \<Rightarrow> string" where
  "joinPath [] = []"
| "joinPath [segment] = segment"
| "joinPath (segment # segments) = segment @ ''/'' @ joinPath segments"

fun normalizeString :: "bool \<Rightarrow> string list \<Rightarrow> string list \<Rightarrow> string list" where
  "normalizeString allowAboveRoot res [] = rev res"
| "normalizeString allowAboveRoot res (segment # rest) =
     (if segment = [] \<or> segment = ''.'' then normalizeString allowAboveRoot res rest
      else if segment = ''..''
      then (if res \<noteq> [] \<and> hd res \<noteq> ''..'' then normalizeString allowAboveRoot (tl res) rest
            else if allowAboveRoot then normalizeString allowAboveRoot (''..'' # res) rest
            else normalizeString allowAboveRoot res rest)
      else normalizeString allowAboveRoot (segment # res) rest)"

definition isAbsolute :: "string \<Rightarrow> bool" where
  "isAbsolute p = (p \<noteq> [] \<and> hd p = CHR ''/'')"

definition resolve :: "string \<Rightarrow> string list \<Rightarrow> string" where
  "resolve wd paths =
     ''/'' @ joinPath (normalizeString False []
       (splitPath (foldl (\<lambda>resolved p. if p = [] then resolved
                                     else if isAbsolute p then p
                                     else resolved @ ''/'' @ p) wd paths)))"

definition normalizePath :: "string \<Rightarrow> string" where
  "normalizePath p =
     (if p = [] then ''.''
      else let absolute = isAbsolute p;
               trailingSeparator = (last p = CHR ''/'');
               normalized = joinPath (normalizeString (\<not> absolute) [] (splitPath p))
           in if normalized = []
              then (if absolute then ''/'' else if trailingSeparator then ''./'' else ''.'')
              else (if absolute then ''/'' else []) @ normalized @
                   (if trailingSeparator then ''/'' else []))"

definition join :: "string list \<Rightarrow> string" where
  "join paths =
     (case filter (\<lambda>p. p \<noteq> []) paths of
        [] \<Rightarrow> ''.''
      | first # others \<Rightarrow> normalizePath (joinPath (first # others)))"

definition basename :: "string \<Rightarrow> string" where
  "basename p =
     rev (takeWhile (\<lambda>c. c \<noteq> CHR ''/'') (dropWhile (\<lambda>c. c = CHR ''/'') (rev p)))"

definition pathExists :: "filesystem \<Rightarrow> string \<Rightarrow> bool" where
  "pathExists fs p = (fs p \<noteq> None)"

definition readFile :: "filesystem \<Rightarrow> string \<Rightarrow> error + string" where
  "readFile fs p =
     (case fs p of
        None \<Rightarrow> Inl (SystemError (''ENOENT: no such file or directory, open '' @ p))
      | Some (Dir names) \<Rightarrow> Inl (SystemError ''EISDIR: illegal operation on a directory, read'')
      | Some (File text) \<Rightarrow> Inr text)"

text \<open>\<^verbatim>\<open>String.prototype.includes\<close>.\<close>

fun includes_str :: "string \<Rightarrow> string \<Rightarrow> bool" where
  "includes_str [] sub = (sub = [])"
| "includes_str (c # cs) sub = (prefix sub (c # cs) \<or> includes_str cs sub)"

section \<open>Candidates\<close>

text \<open>
  A \<^verbatim>\<open>PathEntry\<close>; \<open>isDirectory\<close> is what \<^verbatim>\<open>dirent.isDirectory()\<close> answers.
  \<open>moduleName\<close> is optional, and holds whatever value the manifest gives the name.
  \<open>group\<close> is the property the confirmation prompt adds to the entries it returns.
\<close>

record PathEntry =
  isDirectory :: bool
  name :: string
  path :: string
  moduleName :: "jsval option"
  group :: "string option"

record CopyCandidates =
  contracts :: "PathEntry list"
  crates :: "PathEntry list"
  tests :: "PathEntry list option"

record CopyPathsList =
  contractsDirectories :: "string list"
  cratesDirectories :: "string list"

section \<open>Prompts for a directory\<close>

datatype directoryType = Contracts | Crates | Tests

text \<open>
  \<^verbatim>\<open>getManualPaths\<close>. The user's answers are the directory selected first and the
  directories selected after it: "add more paths?" is answered yes as long as one is
  left, and is not asked for a tests directory.
\<close>

fun getManualPaths :: "directoryType \<Rightarrow> string \<Rightarrow> string list \<Rightarrow> string list \<Rightarrow> string list" where
  "getManualPaths directoryType selectedDirectory [] paths = paths @ [selectedDirectory]"
| "getManualPaths directoryType selectedDirectory (next # further) paths =
     (if directoryType \<noteq> Tests
      then getManualPaths directoryType next further (paths @ [selectedDirectory])
      else paths @ [selectedDirectory])"

section \<open>Path discovery\<close>

text \<open>
  \<^verbatim>\<open>globby\<close> is a library: the entries it finds for a list of absolute patterns,
  with \<^verbatim>\<open>onlyDirectories\<close> or without, are a parameter.
\<close>

type_synonym globber = "filesystem \<Rightarrow> string list \<Rightarrow> bool \<Rightarrow> PathEntry list"

definition getGlobPaths :: "string \<Rightarrow> globber \<Rightarrow> filesystem \<Rightarrow> string \<Rightarrow> string list \<Rightarrow> bool \<Rightarrow> PathEntry list" where
  "getGlobPaths wd globby fs projectPath globList isDirOnly =
     globby fs (map (\<lambda>glob. resolve wd [projectPath, glob]) globList) isDirOnly"

definition getDirsAndFiles :: "string \<Rightarrow> globber \<Rightarrow> filesystem \<Rightarrow> string \<Rightarrow> string list \<Rightarrow> PathEntry list" where
  "getDirsAndFiles wd globby fs projectPath globList =
     getGlobPaths wd globby fs projectPath globList False @
     getGlobPaths wd globby fs projectPath globList True"

definition getCopyCandidatesList :: "string \<Rightarrow> globber \<Rightarrow> filesystem \<Rightarrow> string \<Rightarrow> CopyPathsList \<Rightarrow> CopyCandidates" where
  "getCopyCandidatesList wd globby fs projectPath pathsToCopy =
     \<lparr>contracts = getDirsAndFiles wd globby fs projectPath (contractsDirectories pathsToCopy),
      crates = (if length (cratesDirectories pathsToCopy) > 0
                then getDirsAndFiles wd globby fs projectPath (cratesDirectories pathsToCopy)
                else []),
      tests = None\<rparr>"

section \<open>Detecting the tests directory\<close>

definition testDirNames :: "string list" where
  "testDirNames = [''test'', ''tests'', ''spec'', ''specs'']"

text \<open>The loop of \<^verbatim>\<open>detectTests\<close>, with its \<^verbatim>\<open>break\<close> at the first candidate that exists.\<close>

fun probeTestDir :: "string \<Rightarrow> filesystem \<Rightarrow> string \<Rightarrow> string list \<Rightarrow> string option" where
  "probeTestDir wd fs pathToExistingProject [] = None"
| "probeTestDir wd fs pathToExistingProject (testDirName # rest) =
     (let testDirCandidate = resolve wd [pathToExistingProject, testDirName]
      in if pathExists fs testDirCandidate then Some testDirCandidate
         else probeTestDir wd fs pathToExistingProject rest)"

text \<open>
  The answers to the two questions of \<^verbatim>\<open>detectTests\<close> and to the directory prompt
  behind them. A question whose \<^verbatim>\<open>when\<close> is false is not asked and its answer stays
  \<^verbatim>\<open>undefined\<close>.
\<close>

record testAnswers =
  shouldUseDetectedTestDir :: bool
  shouldInputTestDir :: bool
  selectedTestDirectory :: string

text \<open>
  \<^verbatim>\<open>detectTests\<close>. The message of the first question is a template literal, which
  is evaluated when the array of questions is built, before anything is asked: with no
  directory detected it calls \<^verbatim>\<open>path.basename(undefined)\<close>, which throws a
  \<^verbatim>\<open>TypeError\<close>. With a directory detected the questions are asked; answering
  the second with yes gives the directory entered by hand, and in every other case the
  detected directory is returned.
\<close>

definition detectTests ::
  "string \<Rightarrow> filesystem \<Rightarrow> testAnswers \<Rightarrow> string \<Rightarrow> error + string option" where
  "detectTests wd fs answers pathToExistingProject =
     (case probeTestDir wd fs pathToExistingProject testDirNames of
        None \<Rightarrow> Inl (TypeError ''The path argument must be of type string. Received undefined'')
      | Some testDir \<Rightarrow>
          (let testDirDetected = (testDir \<noteq> []);
               useDetected = (if testDirDetected then Some (shouldUseDetectedTestDir answers) else None);
               inputTestDir =
                 (if (testDirDetected \<and> useDetected \<noteq> Some True) \<or> \<not> testDirDetected
                  then Some (shouldInputTestDir answers) else None)
           in if inputTestDir = Some True
              then (case getManualPaths Tests (selectedTestDirectory answers) [] [] of
                      [] \<Rightarrow> Inr None
                    | first # others \<Rightarrow> Inr (Some first))
              else Inr (Some testDir)))"

section \<open>The confirmation prompt\<close>

text \<open>\<^verbatim>\<open>{ ...entry, group }\<close>: the value of a choice.\<close>

definition withGroup :: "string \<Rightarrow> PathEntry \<Rightarrow> PathEntry" where
  "withGroup g entry = entry\<lparr>group := Some g\<rparr>"

text \<open>The values of the choices, in the order of the prompt; a separator has none.\<close>

definition confirmChoices :: "CopyCandidates \<Rightarrow> PathEntry list" where
  "confirmChoices candidatesList =
     map (withGroup ''contracts'') (contracts candidatesList) @
     map (withGroup ''crates'') (crates candidatesList) @
     map (withGroup ''tests'') (case tests candidatesList of None \<Rightarrow> [] | Some ts \<Rightarrow> ts)"

text \<open>
  A checkbox prompt answers with the values of the choices left checked, in the order
  of the choices. What the user leaves checked is a predicate on the positions.
\<close>

definition checkbox :: "(nat \<Rightarrow> bool) \<Rightarrow> 'a list \<Rightarrow> 'a list" where
  "checkbox checked choices = map snd (filter (\<lambda>(i, v). checked i) (enumerate 0 choices))"

text \<open>\<^verbatim>\<open>resultingList[item.group]?.push(item)\<close>.\<close>

definition pushItem :: "CopyCandidates \<Rightarrow> PathEntry \<Rightarrow> CopyCandidates" where
  "pushItem resultingList item =
     (if group item = Some ''contracts''
      then resultingList\<lparr>contracts := contracts resultingList @ [item]\<rparr>
      else if group item = Some ''crates''
      then resultingList\<lparr>crates := crates resultingList @ [item]\<rparr>
      else if group item = Some ''tests''
      then (case tests resultingList of
              None \<Rightarrow> resultingList
            | Some ts \<Rightarrow> resultingList\<lparr>tests := Some (ts @ [item])\<rparr>)
      else resultingList)"

definition confirmCopyList :: "(nat \<Rightarrow> bool) \<Rightarrow> CopyCandidates \<Rightarrow> CopyCandidates" where
  "confirmCopyList checked candidatesList =
     foldl pushItem \<lparr>contracts = [], crates = [], tests = Some []\<rparr>
       (checkbox checked (confirmChoices candidatesList))"

section \<open>Module names\<close>

text \<open>
  \<^verbatim>\<open>TOML.parse\<close> is a library: a parameter, which answers with the parsed table or
  throws. The body of the loop of \<^verbatim>\<open>detectModuleNames\<close> gives the entry with its
  module name and what it printed.
\<close>

text \<open>\<^verbatim>\<open>toml.package?.name\<close>.\<close>

definition packageName :: "jsval \<Rightarrow> error + jsval" where
  "packageName toml =
     and_then (get_prop toml ''package'') (\<lambda>package.
       if package = Undefined \<or> package = Null then Inr Undefined else get_prop package ''name'')"

definition resolveModuleName ::
  "string \<Rightarrow> (string \<Rightarrow> error + jsval) \<Rightarrow> filesystem \<Rightarrow> PathEntry \<Rightarrow> error + PathEntry \<times> string list" where
  "resolveModuleName wd parseTOML fs entry =
     (let defaultName = basename (path entry);
          extendedEntry = entry\<lparr>moduleName := Some (Str defaultName)\<rparr>
      in if isDirectory entry \<and> pathExists fs (resolve wd [path entry, ''Cargo.toml''])
         then and_then (readFile fs (resolve wd [path entry, ''Cargo.toml''])) (\<lambda>fileData.
              and_then (parseTOML fileData) (\<lambda>toml.
              and_then (packageName toml) (\<lambda>declared.
              if truthy declared
              then Inr (extendedEntry\<lparr>moduleName := Some declared\<rparr>, [])
              else Inr (extendedEntry,
                     [''Could not detect the contract name from Cargo.toml. Using ['' @ defaultName @ '']'']))))
         else Inr (extendedEntry, []))"

fun resolveGroup ::
  "string \<Rightarrow> (string \<Rightarrow> error + jsval) \<Rightarrow> filesystem \<Rightarrow> PathEntry list \<Rightarrow> error + PathEntry list \<times> string list" where
  "resolveGroup wd parseTOML fs [] = Inr ([], [])"
| "resolveGroup wd parseTOML fs (entry # rest) =
     and_then (resolveModuleName wd parseTOML fs entry) (\<lambda>(extendedEntry, printed).
     and_then (resolveGroup wd parseTOML fs rest) (\<lambda>(entries, printedLater).
     Inr (extendedEntry # entries, printed @ printedLater)))"

definition detectModuleNames ::
  "string \<Rightarrow> (string \<Rightarrow> error + jsval) \<Rightarrow> filesystem \<Rightarrow> CopyCandidates \<Rightarrow> error + CopyCandidates \<times> string list" where
  "detectModuleNames wd parseTOML fs copyList =
     and_then (resolveGroup wd parseTOML fs (contracts copyList)) (\<lambda>(contractEntries, printed).
     and_then (resolveGroup wd parseTOML fs (crates copyList)) (\<lambda>(crateEntries, printedLater).
     Inr (\<lparr>contracts = contractEntries, crates = crateEntries,
           tests = Some (case tests copyList of None \<Rightarrow> [] | Some ts \<Rightarrow> ts)\<rparr>,
          printed @ printedLater)))"

section \<open>The workspace manifest\<close>

text \<open>\<^verbatim>\<open>readRootCargoToml\<close>; \<^verbatim>\<open>null\<close> when the project has no root manifest.\<close>

definition readRootCargoToml ::
  "string \<Rightarrow> (string \<Rightarrow> error + jsval) \<Rightarrow> filesystem \<Rightarrow> string \<Rightarrow> error + jsval" where
  "readRootCargoToml wd parseTOML fs pathToProject =
     (let rootTomlPath = resolve wd [pathToProject, ''Cargo.toml'']
      in if \<not> pathExists fs rootTomlPath then Inr Null
         else and_then (readFile fs rootTomlPath) (\<lambda>fileData.
              and_then (parseTOML fileData) (\<lambda>toml.
              and_then (get_prop toml ''workspace'') (\<lambda>workspace.
              if \<not> truthy workspace then set_prop toml ''workspace'' (Obj []) else Inr toml))))"

text \<open>
  The three statements of \<^verbatim>\<open>convert\<close> that give the manifest object handed to the
  task that writes it. The assignment to \<^verbatim>\<open>rootToml.workspace.members\<close> changes the
  workspace object in place, which the model stores back under its key.
\<close>

definition membersGlob :: jsval where
  "membersGlob = Arr [Str ''contracts/*''] []"

definition convertRootToml ::
  "string \<Rightarrow> (string \<Rightarrow> error + jsval) \<Rightarrow> filesystem \<Rightarrow> string \<Rightarrow> error + jsval" where
  "convertRootToml wd parseTOML fs pathToExistingProject =
     and_then (readRootCargoToml wd parseTOML fs pathToExistingProject) (\<lambda>readToml.
     let rootToml = (if \<not> truthy readToml then Obj [(''workspace'', Obj [])] else readToml)
     in and_then (get_prop rootToml ''workspace'') (\<lambda>workspace.
        and_then (set_prop workspace ''members'' membersGlob) (\<lambda>workspace'.
        set_prop rootToml ''workspace'' workspace')))"

section \<open>The package manifest merge\<close>

text \<open>
  Modelled from the spec: \<^verbatim>\<open>merge\<close> of lodash-es, which the merge task calls, is
  not among the sources. The spec gives it as a recursive merge: objects merge key by
  key, and a value of the external side that is no object replaces the template's.
  A key of the template keeps its place; a key only the external side has is added
  after them.
\<close>

fun mergeJson :: "jsval \<Rightarrow> jsval \<Rightarrow> jsval"
  and mergeProps :: "(string \<times> jsval) list \<Rightarrow> (string \<times> jsval) list \<Rightarrow> (string \<times> jsval) list" where
  "mergeJson template (Obj e) = (case template of Obj t \<Rightarrow> Obj (mergeProps t e) | _ \<Rightarrow> Obj e)"
| "mergeJson template Undefined = Undefined"
| "mergeJson template Null = Null"
| "mergeJson template (Bool b) = Bool b"
| "mergeJson template (Num n) = Num n"
| "mergeJson template NaN = NaN"
| "mergeJson template (Str s) = Str s"
| "mergeJson template (Arr xs ps) = Arr xs ps"
| "mergeJson template (Date d ps) = Date d ps"
| "mergeProps t [] = t"
| "mergeProps t ((k, v) # e) =
     mergeProps (case map_of t k of
                   None \<Rightarrow> t @ [(k, v)]
                 | Some old \<Rightarrow> AList.update k (mergeJson old v) t) e"

section \<open>The configuration being built\<close>

datatype contractData = ContractData string "jsval option" "string list"

record nodeConfig =
  localPath :: jsval
  polkadotPalletVersions :: string
  supportedInk :: string

record account =
  accountAlias :: string
  mnemonic :: string
  isDev :: bool
  address :: string

text \<open>
  \<^verbatim>\<open>Partial<SwankyConfig>\<close>: the node and the contracts may be missing. The contracts
  are an object keyed by contract name, held as its own properties in the order
  JavaScript lists them: the keys that are array indices first, in ascending order,
  then the other keys in the order they were added.
\<close>

record SwankyConfig =
  node :: "nodeConfig option"
  accounts :: "account list"
  networks :: "(string \<times> string) list"
  contractsConfig :: "(string \<times> contractData) list option"

section \<open>Tasks and their executor\<close>

text \<open>
  What a run changes: the disk, the configuration being built, and the console. The
  calls of \<^verbatim>\<open>outputFile\<close> and \<^verbatim>\<open>writeJSON\<close> are recorded in \<open>writes\<close> with
  path and text, in the order they happen.
\<close>

record world =
  disk :: filesystem
  configBuilder :: SwankyConfig
  writes :: "(string \<times> string) list"
  console :: "jsval list"

text \<open>
  A \<^verbatim>\<open>Task\<close>. \<open>task\<close> is the function applied to its \<^verbatim>\<open>args\<close>, which are fixed
  when the task is queued: run in a world, it throws or returns a value.
\<close>

record 'w Task =
  task :: "'w \<Rightarrow> (error + jsval) \<times> 'w"
  runningMessage :: string
  successMessage :: "string option"
  failMessage :: "string option"
  shouldExitOnError :: "bool option"
  callback :: "(jsval \<Rightarrow> 'w \<Rightarrow> 'w) option"

datatype event =
    SpinnerStart string
  | SpinnerSucceed string
  | SpinnerFail string
  | Log string

text \<open>
  Modelled from the spec: \<^verbatim>\<open>Spinner.runCommand\<close> of \<^verbatim>\<open>lib/spinner\<close> is not
  among the sources. The spec's executor announces the running message and invokes the
  operation; on success it emits the success message if there is one and hands the
  operation's value back; on failure it emits the failure message if there is one,
  and then aborts with the error if the task is fatal (the default), or logs the error
  and continues, with no value, if it is not.
\<close>

definition runCommand ::
  "('w \<Rightarrow> (error + jsval) \<times> 'w) \<Rightarrow> string \<Rightarrow> string option \<Rightarrow> string option \<Rightarrow> bool option \<Rightarrow>
     'w \<times> event list \<Rightarrow> (error + jsval) \<times> 'w \<times> event list" where
  "runCommand command running success failure exitOnError state =
     (case state of (w, out) \<Rightarrow>
        (case command w of
           (Inr result, w') \<Rightarrow>
             (Inr result, w',
              out @ [SpinnerStart running] @ (case success of None \<Rightarrow> [] | Some m \<Rightarrow> [SpinnerSucceed m]))
         | (Inl e, w') \<Rightarrow>
             (if (case exitOnError of None \<Rightarrow> True | Some fatal \<Rightarrow> fatal)
              then (Inl e, w',
                    out @ [SpinnerStart running] @ (case failure of None \<Rightarrow> [] | Some m \<Rightarrow> [SpinnerFail m]))
              else (Inr Undefined, w',
                    out @ [SpinnerStart running] @ (case failure of None \<Rightarrow> [] | Some m \<Rightarrow> [SpinnerFail m])
                        @ [Log (message e)]))))"

text \<open>
  The loop of \<^verbatim>\<open>Init.run\<close> over the queue: each task goes through
  \<^verbatim>\<open>runCommand\<close>, and \<^verbatim>\<open>if (result && callback) callback(result)\<close> follows.
  An error \<^verbatim>\<open>runCommand\<close> throws ends the loop.
\<close>

definition afterCommand :: "'w Task \<Rightarrow> jsval \<Rightarrow> 'w \<Rightarrow> 'w" where
  "afterCommand t result w =
     (if truthy result then (case callback t of None \<Rightarrow> w | Some cb \<Rightarrow> cb result w) else w)"

fun runTasks :: "'w Task list \<Rightarrow> 'w \<times> event list \<Rightarrow> (error + unit) \<times> 'w \<times> event list" where
  "runTasks [] state = (Inr (), state)"
| "runTasks (t # queue) state =
     (case runCommand (task t) (runningMessage t) (successMessage t) (failMessage t)
             (shouldExitOnError t) state of
        (Inl e, state') \<Rightarrow> (Inl e, state')
      | (Inr result, w', out') \<Rightarrow> runTasks queue (afterCommand t result w', out'))"

definition banner :: string where
  "banner = ''Swanky project successfully initialised!''"

definition runQueue :: "'w Task list \<Rightarrow> 'w \<Rightarrow> (error + unit) \<times> 'w \<times> event list" where
  "runQueue queue w =
     (case runTasks queue (w, []) of
        (Inl e, state) \<Rightarrow> (Inl e, state)
      | (Inr u, w', out) \<Rightarrow> (Inr (), w', out @ [Log banner]))"

section \<open>What the command calls and does not define\<close>

text \<open>
  The libraries and the functions of \<^verbatim>\<open>lib/\<close> that the command calls are
  parameters. An operation that a task runs (one of \<^verbatim>\<open>lib/\<close>, or \<^verbatim>\<open>copy\<close> and
  \<^verbatim>\<open>ensureDir\<close> of fs-extra) may change the disk, and throws or returns a value;
  when it throws, the disk is as the operation left it.
\<close>

type_synonym externalOp = "filesystem \<Rightarrow> (error + jsval) \<times> filesystem"

record libraries =
  yellowBright :: "string \<Rightarrow> string"
  paramCase :: "string \<Rightarrow> string"
  snakeCase :: "string \<Rightarrow> string"
  pascalCase :: "string \<Rightarrow> string"
  globby :: globber
  parseTOML :: "string \<Rightarrow> error + jsval"
  stringifyTOML :: "jsval \<Rightarrow> error + string"
  parseJSON :: "string \<Rightarrow> error + jsval"
  stringifyJSON :: "jsval \<Rightarrow> string"
  stringifyConfig :: "SwankyConfig \<Rightarrow> string"
  copy :: "string \<Rightarrow> string \<Rightarrow> externalOp"
  ensureDir :: "string \<Rightarrow> externalOp"

record collaborators =
  templatesPath :: string
  contractTemplatesPath :: string
  cliVersion :: string
  chainAddress :: "string \<Rightarrow> string"
  swankyNodeVersions :: string
  swankyNodeInk :: string
  defaultNetworks :: "(string \<times> string) list"
  copyCommonTemplateFiles :: "string \<Rightarrow> string \<Rightarrow> externalOp"
  checkCliDependencies :: externalOp
  copyContractTemplateFiles :: "string \<Rightarrow> string \<Rightarrow> string \<Rightarrow> externalOp"
  processTemplates :: "string \<Rightarrow> (string \<times> string) list \<Rightarrow> externalOp"
  installDeps :: "string \<Rightarrow> externalOp"
  execaCommand :: "string \<Rightarrow> string \<Rightarrow> externalOp"
  downloadNode :: "string \<Rightarrow> externalOp"

section \<open>The operations of the tasks\<close>

definition external :: "externalOp \<Rightarrow> world \<Rightarrow> (error + jsval) \<times> world" where
  "external f w = (case f (disk w) of (outcome, fs') \<Rightarrow> (outcome, w\<lparr>disk := fs'\<rparr>))"

text \<open>\<^verbatim>\<open>outputFile\<close> and \<^verbatim>\<open>writeJSON\<close>, once the text is there: the write succeeds.\<close>

definition outputFile :: "string \<Rightarrow> string \<Rightarrow> world \<Rightarrow> world" where
  "outputFile file text w =
     w\<lparr>disk := (disk w)(file \<mapsto> File text), writes := writes w @ [(file, text)]\<rparr>"

definition readJSON :: "libraries \<Rightarrow> filesystem \<Rightarrow> string \<Rightarrow> error + jsval" where
  "readJSON lib fs file = and_then (readFile fs file) (parseJSON lib)"

text \<open>The task "Writing Cargo.toml".\<close>

definition writeCargoToml :: "string \<Rightarrow> libraries \<Rightarrow> jsval \<Rightarrow> string \<Rightarrow> world \<Rightarrow> (error + jsval) \<times> world" where
  "writeCargoToml wd lib tomlObject projectPath w =
     (case stringifyTOML lib tomlObject of
        Inl e \<Rightarrow> (Inl e, w)
      | Inr tomlString \<Rightarrow> (Inr Undefined, outputFile (resolve wd [projectPath, ''Cargo.toml'']) tomlString w))"

text \<open>The task "Copying workspace files".\<close>

fun copyFileList :: "string \<Rightarrow> libraries \<Rightarrow> string \<Rightarrow> string \<Rightarrow> string list \<Rightarrow> world \<Rightarrow> (error + jsval) \<times> world" where
  "copyFileList wd lib pathToExistingProject projectPath [] w = (Inr Undefined, w)"
| "copyFileList wd lib pathToExistingProject projectPath (fileName # fileList) w =
     (let filePath = resolve wd [pathToExistingProject, fileName]
      in if pathExists (disk w) filePath
         then (case copy lib filePath (resolve wd [projectPath, fileName]) (disk w) of
                 (Inl e, fs') \<Rightarrow> (Inl e, w\<lparr>disk := fs'\<rparr>)
               | (Inr copied, fs') \<Rightarrow>
                   copyFileList wd lib pathToExistingProject projectPath fileList (w\<lparr>disk := fs'\<rparr>))
         else copyFileList wd lib pathToExistingProject projectPath fileList w)"

definition copyWorkspaceFiles :: "string \<Rightarrow> libraries \<Rightarrow> string \<Rightarrow> string \<Rightarrow> world \<Rightarrow> (error + jsval) \<times> world" where
  "copyWorkspaceFiles wd lib pathToExistingProject projectPath =
     copyFileList wd lib pathToExistingProject projectPath [''rust-toolchain.toml'', ''.rustfmt.toml'']"

text \<open>
  The task "Merging package.json": both manifests are read when the task runs, the
  template's is the base of the merge, and the merged manifest replaces the template's
  file.
\<close>

definition mergePackageJson :: "string \<Rightarrow> libraries \<Rightarrow> string \<Rightarrow> string \<Rightarrow> world \<Rightarrow> (error + jsval) \<times> world" where
  "mergePackageJson wd lib pJsonPath projectPath w =
     (case readJSON lib (disk w) pJsonPath of
        Inl e \<Rightarrow> (Inl e, w)
      | Inr existingPJson \<Rightarrow>
          (let templatePJsonPath = resolve wd [projectPath, ''package.json'']
           in case readJSON lib (disk w) templatePJsonPath of
                Inl e \<Rightarrow> (Inl e, w)
              | Inr templatePJson \<Rightarrow>
                  (let mergedJson = mergeJson templatePJson existingPJson;
                       removed = w\<lparr>disk := (disk w)(templatePJsonPath := None)\<rparr>
                   in (Inr Undefined,
                       outputFile templatePJsonPath (stringifyJSON lib mergedJson) removed))))"

text \<open>\<^verbatim>\<open>copyWorkspaceContracts\<close>.\<close>

definition groupEntries :: "CopyCandidates \<Rightarrow> string \<Rightarrow> PathEntry list option" where
  "groupEntries copyList g =
     (if g = ''contracts'' then Some (contracts copyList)
      else if g = ''crates'' then Some (crates copyList)
      else if g = ''tests'' then tests copyList
      else None)"

fun copyEntries ::
  "libraries \<Rightarrow> string \<Rightarrow> PathEntry list \<Rightarrow> filesystem \<Rightarrow> (error + unit) \<times> filesystem" where
  "copyEntries lib destDir [] fs = (Inr (), fs)"
| "copyEntries lib destDir (entry # entries) fs =
     (case copy lib (path entry) (join [destDir, name entry]) fs of
        (Inl e, fs') \<Rightarrow> (Inl e, fs')
      | (Inr copied, fs') \<Rightarrow> copyEntries lib destDir entries fs')"

fun copyGroups ::
  "string \<Rightarrow> libraries \<Rightarrow> CopyCandidates \<Rightarrow> string \<Rightarrow> string list \<Rightarrow> filesystem \<Rightarrow>
     (error + unit) \<times> filesystem" where
  "copyGroups wd lib copyList projectPath [] fs = (Inr (), fs)"
| "copyGroups wd lib copyList projectPath (g # groups) fs =
     (case ensureDir lib (resolve wd [projectPath, g]) fs of
        (Inl e, fs') \<Rightarrow> (Inl e, fs')
      | (Inr ensured, fs') \<Rightarrow>
          (case groupEntries copyList g of
             None \<Rightarrow> (Inl (TypeError ''undefined is not iterable''), fs')
           | Some entries \<Rightarrow>
               (case copyEntries lib (resolve wd [projectPath, g]) entries fs' of
                  (Inl e, fs'') \<Rightarrow> (Inl e, fs'')
                | (Inr u, fs'') \<Rightarrow> copyGroups wd lib copyList projectPath groups fs'')))"

definition copyWorkspaceContracts ::
  "string \<Rightarrow> libraries \<Rightarrow> CopyCandidates \<Rightarrow> string \<Rightarrow> world \<Rightarrow> (error + jsval) \<times> world" where
  "copyWorkspaceContracts wd lib copyList projectPath w =
     (case copyGroups wd lib copyList projectPath [''contracts'', ''crates'', ''tests''] (disk w) of
        (Inl e, fs') \<Rightarrow> (Inl e, w\<lparr>disk := fs'\<rparr>)
      | (Inr u, fs') \<Rightarrow> (Inr Undefined, w\<lparr>disk := fs'\<rparr>))"

text \<open>
  The task "Writing config": \<^verbatim>\<open>writeJSON\<close> of the configuration as it is when
  the task runs.
\<close>

definition configPath :: "string \<Rightarrow> string \<Rightarrow> string" where
  "configPath wd projectPath = resolve wd [projectPath, ''swanky.config.json'']"

definition writeConfig :: "string \<Rightarrow> libraries \<Rightarrow> string \<Rightarrow> world \<Rightarrow> (error + jsval) \<times> world" where
  "writeConfig wd lib projectPath w =
     (Inr Undefined, outputFile (configPath wd projectPath) (stringifyConfig lib (configBuilder w)) w)"

section \<open>Planning: generate and convert\<close>

text \<open>
  The command line, and the user's answers to the prompts of a run. A selection of
  directories is the first directory selected and the ones added after it.
\<close>

record invocation =
  projectName :: string
  convertFlag :: "string option"
  swankyNodeFlag :: bool
  cwd :: string

record answers =
  contractTemplate :: string
  contractName :: string
  authorName :: string
  authorEmail :: string
  contractsSelection :: "string \<times> string list"
  shouldSpecifyCratesDir :: bool
  cratesSelection :: "string \<times> string list"
  testsAnswers :: testAnswers
  checked :: "nat \<Rightarrow> bool"
  useSwankyNode :: bool

text \<open>
  The state of the command while it plans: \<^verbatim>\<open>this.taskQueue\<close>,
  \<^verbatim>\<open>this.configBuilder\<close>, and the lines printed so far.
\<close>

record planState =
  taskQueue :: "world Task list"
  builder :: SwankyConfig
  printed :: "string list"

definition plainTask :: "(world \<Rightarrow> (error + jsval) \<times> world) \<Rightarrow> string \<Rightarrow> world Task" where
  "plainTask operation running =
     \<lparr>task = operation, runningMessage = running, successMessage = None, failMessage = None,
      shouldExitOnError = None, callback = None\<rparr>"

definition enqueue :: "world Task \<Rightarrow> planState \<Rightarrow> planState" where
  "enqueue t st = st\<lparr>taskQueue := taskQueue st @ [t]\<rparr>"

definition initialConfig :: "collaborators \<Rightarrow> SwankyConfig" where
  "initialConfig ext =
     \<lparr>node = Some \<lparr>localPath = Str [], polkadotPalletVersions = swankyNodeVersions ext,
                    supportedInk = swankyNodeInk ext\<rparr>,
      accounts = [],
      networks = defaultNetworks ext,
      contractsConfig = Some []\<rparr>"

definition generate ::
  "string \<Rightarrow> libraries \<Rightarrow> collaborators \<Rightarrow> answers \<Rightarrow> string \<Rightarrow> string \<Rightarrow> planState \<Rightarrow> planState" where
  "generate wd lib ext ans projName projectPath st =
     (let st1 = enqueue (plainTask (external (checkCliDependencies ext)) ''Checking dependencies'') st;
          st2 = enqueue (plainTask
                  (external (copyContractTemplateFiles ext
                     (resolve wd [contractTemplatesPath ext, (contractTemplate ans)]) (contractName ans) projectPath))
                  ''Copying contract template files'') st1;
          st3 = enqueue (plainTask
                  (external (processTemplates ext projectPath
                     [(''project_name'', paramCase lib projName),
                      (''author_name'', authorName ans),
                      (''author_email'', authorEmail ans),
                      (''swanky_version'', cliVersion ext),
                      (''contract_name'', contractName ans),
                      (''contract_name_snake'', snakeCase lib (contractName ans)),
                      (''contract_name_pascal'', pascalCase lib (contractName ans))]))
                  ''Processing templates'') st2
      in st3\<lparr>builder := (builder st3)\<lparr>contractsConfig :=
              Some [(contractName ans,
                     ContractData (contractName ans) (Some (Str (snakeCase lib (contractName ans)))) [])]\<rparr>\<rparr>)"

text \<open>The check that opens \<^verbatim>\<open>convert\<close>: whatever its \<^verbatim>\<open>try\<close> throws is wrapped.\<close>

definition checkSourceDir :: "libraries \<Rightarrow> filesystem \<Rightarrow> string \<Rightarrow> error + unit" where
  "checkSourceDir lib fs pathToExistingProject =
     (let attempt =
            (case fs pathToExistingProject of
               None \<Rightarrow> Inl (SystemError (''ENOENT: no such file or directory, stat '' @ pathToExistingProject))
             | Some (File text) \<Rightarrow> Inr ()
             | Some (Dir files) \<Rightarrow>
                 if length files < 1
                 then Inl (InputError (''Target project directory ['' @ pathToExistingProject @ ''] is empty!'') None)
                 else Inr ())
      in case attempt of
           Inr u \<Rightarrow> Inr ()
         | Inl cause \<Rightarrow>
             Inl (InputError (''Error reading target directory ['' @ yellowBright lib pathToExistingProject @ '']'')
                    (Some cause)))"

text \<open>An array index is the canonical decimal numeral of a number below 4294967295.\<close>

definition digits :: string where
  "digits = ''0123456789''"

definition isDigit :: "char \<Rightarrow> bool" where
  "isDigit c = (c \<in> set digits)"

definition digitValue :: "char \<Rightarrow> int" where
  "digitValue c = int (length (takeWhile (\<lambda>d. d \<noteq> c) digits))"

definition decimal :: "string \<Rightarrow> int" where
  "decimal k = foldl (\<lambda>n c. 10 * n + digitValue c) 0 k"

definition arrayIndex :: "string \<Rightarrow> int option" where
  "arrayIndex k =
     (if k \<noteq> [] \<and> list_all isDigit k \<and> (k = ''0'' \<or> hd k \<noteq> CHR ''0'') \<and> decimal k < 4294967295
      then Some (decimal k) else None)"

text \<open>
  \<^verbatim>\<open>object[key] = value\<close> for an object value: an existing property is replaced in
  place; a new key that is an array index goes before the first key that is a larger
  index or no index; any other new key goes last. The key \<^verbatim>\<open>__proto__\<close> is no
  property: the assignment sets the prototype of the object and leaves its own
  properties as they are.
\<close>

fun insertIndex :: "int \<Rightarrow> string \<Rightarrow> 'v \<Rightarrow> (string \<times> 'v) list \<Rightarrow> (string \<times> 'v) list" where
  "insertIndex n k v [] = [(k, v)]"
| "insertIndex n k v ((k', v') # rest) =
     (case arrayIndex k' of
        None \<Rightarrow> (k, v) # (k', v') # rest
      | Some m \<Rightarrow> if m < n then (k', v') # insertIndex n k v rest else (k, v) # (k', v') # rest)"

definition assignObject :: "string \<Rightarrow> 'v \<Rightarrow> (string \<times> 'v) list \<Rightarrow> (string \<times> 'v) list" where
  "assignObject k v properties =
     (if k = ''__proto__'' then properties
      else if map_of properties k \<noteq> None then AList.update k v properties
      else case arrayIndex k of
             None \<Rightarrow> properties @ [(k, v)]
           | Some n \<Rightarrow> insertIndex n k v properties)"

text \<open>The contracts that \<^verbatim>\<open>convert\<close> enters into the configuration, one assignment each.\<close>

definition addContract :: "(string \<times> contractData) list \<Rightarrow> PathEntry \<Rightarrow> (string \<times> contractData) list" where
  "addContract entries contract =
     assignObject (name contract) (ContractData (name contract) (moduleName contract) []) entries"

text \<open>
  \<^verbatim>\<open>convert\<close>, from the directory prompts to the tests group: the candidates
  handed to the confirmation prompt.
\<close>

definition discoverCandidates ::
  "string \<Rightarrow> libraries \<Rightarrow> filesystem \<Rightarrow> answers \<Rightarrow> string \<Rightarrow> error + CopyCandidates" where
  "discoverCandidates wd lib fs ans pathToExistingProject =
     (let copyGlobsList =
            \<lparr>contractsDirectories =
               getManualPaths Contracts (fst (contractsSelection ans)) (snd (contractsSelection ans)) [],
             cratesDirectories =
               (if shouldSpecifyCratesDir ans
                then getManualPaths Crates (fst (cratesSelection ans)) (snd (cratesSelection ans)) []
                else [])\<rparr>;
          candidatesList = getCopyCandidatesList wd (globby lib) fs pathToExistingProject copyGlobsList
      in and_then (detectTests wd fs (testsAnswers ans) pathToExistingProject) (\<lambda>testDir.
         Inr (candidatesList\<lparr>tests := Some
           (case testDir of
              None \<Rightarrow> []
            | Some d \<Rightarrow> if d \<noteq> [] \<and> pathExists fs d
                        then getDirsAndFiles wd (globby lib) fs pathToExistingProject [d] else [])\<rparr>)))"

text \<open>\<^verbatim>\<open>detectModuleNames(await confirmCopyList(candidatesList))\<close>.\<close>

definition confirmedCandidates ::
  "string \<Rightarrow> libraries \<Rightarrow> filesystem \<Rightarrow> answers \<Rightarrow> string \<Rightarrow> error + CopyCandidates \<times> string list" where
  "confirmedCandidates wd lib fs ans pathToExistingProject =
     and_then (discoverCandidates wd lib fs ans pathToExistingProject) (\<lambda>candidatesList.
       detectModuleNames wd (parseTOML lib) fs (confirmCopyList (checked ans) candidatesList))"

text \<open>The task "Copying existing project files", whose callback prints the result.\<close>

definition copyContractsTask :: "string \<Rightarrow> libraries \<Rightarrow> CopyCandidates \<Rightarrow> string \<Rightarrow> world Task" where
  "copyContractsTask wd lib confirmedCopyList projectPath =
     \<lparr>task = copyWorkspaceContracts wd lib confirmedCopyList projectPath,
      runningMessage = ''Copying existing project files'',
      successMessage = Some ''Project files successfully copied'',
      failMessage = Some ''Failed to copy project files'',
      shouldExitOnError = Some True,
      callback = Some (\<lambda>result w. w\<lparr>console := console w @ [result]\<rparr>)\<rparr>"

definition convert ::
  "string \<Rightarrow> libraries \<Rightarrow> collaborators \<Rightarrow> filesystem \<Rightarrow> answers \<Rightarrow> string \<Rightarrow> string \<Rightarrow> string \<Rightarrow>
     planState \<Rightarrow> error + planState" where
  "convert wd lib ext fs ans pathToExistingProject projName projectPath st =
     and_then (checkSourceDir lib fs pathToExistingProject) (\<lambda>u.
     and_then (confirmedCandidates wd lib fs ans pathToExistingProject) (\<lambda>(confirmedCopyList, lines).
     let st1 = enqueue (plainTask
                 (external (processTemplates ext projectPath
                    [(''project_name'', paramCase lib projName), (''swanky_version'', cliVersion ext)]))
                 ''Processing templates'') (st\<lparr>printed := printed st @ lines\<rparr>);
         st2 = enqueue (copyContractsTask wd lib confirmedCopyList projectPath) st1;
         st3 = st2\<lparr>builder := (builder st2)\<lparr>contractsConfig := Some
                 (foldl addContract
                    (case contractsConfig (builder st2) of None \<Rightarrow> [] | Some entries \<Rightarrow> entries)
                    (contracts confirmedCopyList))\<rparr>\<rparr>
     in and_then (convertRootToml wd (parseTOML lib) fs pathToExistingProject) (\<lambda>rootToml.
     let st4 = enqueue (plainTask (writeCargoToml wd lib rootToml projectPath) ''Writing Cargo.toml'') st3;
         st5 = enqueue (plainTask (copyWorkspaceFiles wd lib pathToExistingProject projectPath)
                 ''Copying workspace files'') st4;
         existingPJsonPath = resolve wd [pathToExistingProject, ''package.json'']
     in Inr (if pathExists fs existingPJsonPath
             then enqueue (plainTask (mergePackageJson wd lib existingPJsonPath projectPath)
                    ''Merging package.json'') st5
             else st5))))"

section \<open>The run\<close>

text \<open>
  The check that opens \<^verbatim>\<open>Init.run\<close>. Its \<^verbatim>\<open>catch\<close> receives whatever the
  \<^verbatim>\<open>try\<close> block throws, the \<^verbatim>\<open>InputError\<close> of the block itself included, and
  lets pass only an error whose message includes ENOENT.
\<close>

definition checkProjectDir :: "libraries \<Rightarrow> filesystem \<Rightarrow> string \<Rightarrow> string \<Rightarrow> error + unit" where
  "checkProjectDir lib fs projectPath projName =
     (let attempt =
            (case fs projectPath of
               None \<Rightarrow> Inl (SystemError (''ENOENT: no such file or directory, stat '' @ projectPath))
             | Some (File text) \<Rightarrow> Inr ()
             | Some (Dir files) \<Rightarrow>
                 if length files > 0
                 then Inl (InputError (''Directory '' @ yellowBright lib projName @ '' is not empty!'') None)
                 else Inr ())
      in case attempt of
           Inr u \<Rightarrow> Inr ()
         | Inl e \<Rightarrow>
             if \<not> includes_str (message e) ''ENOENT''
             then Inl (UnknownError ''Unexpected error'' (Some e))
             else Inr ())"

text \<open>
  \<^verbatim>\<open>Init.run\<close> from the first push to the last, in three parts: the first task and
  the choice between \<^verbatim>\<open>convert\<close> and \<^verbatim>\<open>generate\<close> (a flag that is the empty
  string is falsy); the tasks and the accounts that follow; and the whole.
\<close>

definition planFlow ::
  "string \<Rightarrow> libraries \<Rightarrow> collaborators \<Rightarrow> invocation \<Rightarrow> answers \<Rightarrow> filesystem \<Rightarrow> string \<Rightarrow> error + planState" where
  "planFlow wd lib ext cmd ans fs projectPath =
     (let st0 = \<lparr>taskQueue = [], builder = initialConfig ext, printed = []\<rparr>;
          st1 = enqueue (plainTask (external (copyCommonTemplateFiles ext (templatesPath ext) projectPath))
                  ''Copying common template files'') st0
      in case convertFlag cmd of
           None \<Rightarrow> Inr (generate wd lib ext ans (projectName cmd) projectPath st1)
         | Some source \<Rightarrow>
             if source \<noteq> []
             then convert wd lib ext fs ans source (projectName cmd) projectPath st1
             else Inr (generate wd lib ext ans (projectName cmd) projectPath st1))"

definition downloadNodeTask :: "collaborators \<Rightarrow> string \<Rightarrow> world Task" where
  "downloadNodeTask ext projectPath =
     (plainTask (external (downloadNode ext projectPath)) ''Downloading Swanky node'')
       \<lparr>callback := Some (\<lambda>result w.
          case node (configBuilder w) of
            None \<Rightarrow> w
          | Some n \<Rightarrow> w\<lparr>configBuilder := (configBuilder w)\<lparr>node := Some (n\<lparr>localPath := result\<rparr>)\<rparr>\<rparr>)\<rparr>"

definition planRest ::
  "string \<Rightarrow> libraries \<Rightarrow> collaborators \<Rightarrow> invocation \<Rightarrow> answers \<Rightarrow> string \<Rightarrow> planState \<Rightarrow> planState" where
  "planRest wd lib ext cmd ans projectPath st2 =
     (let st3 = enqueue ((plainTask (external (installDeps ext projectPath)) ''Installing dependencies'')
                           \<lparr>shouldExitOnError := Some False\<rparr>) st2;
          st4 = enqueue (plainTask (external (execaCommand ext ''git init'' projectPath))
                  ''Initializing git'') st3;
          st5 = (if \<not> swankyNodeFlag cmd \<and> useSwankyNode ans
                 then enqueue (downloadNodeTask ext projectPath) st4
                 else st4);
          st6 = st5\<lparr>builder := (builder st5)\<lparr>accounts :=
                  [\<lparr>accountAlias = ''alice'', mnemonic = ''//Alice'', isDev = True,
                    address = chainAddress ext ''//Alice''\<rparr>,
                   \<lparr>accountAlias = ''bob'', mnemonic = ''//Bob'', isDev = True,
                    address = chainAddress ext ''//Bob''\<rparr>]\<rparr>\<rparr>
      in enqueue (plainTask (writeConfig wd lib projectPath) ''Writing config'') st6)"

definition planInit ::
  "string \<Rightarrow> libraries \<Rightarrow> collaborators \<Rightarrow> invocation \<Rightarrow> answers \<Rightarrow> filesystem \<Rightarrow> string \<Rightarrow> error + planState" where
  "planInit wd lib ext cmd ans fs projectPath =
     and_then (planFlow wd lib ext cmd ans fs projectPath) (\<lambda>st2.
       Inr (planRest wd lib ext cmd ans projectPath st2))"

text \<open>
  \<^verbatim>\<open>Init.run\<close>. The directories that the run creates for each contract without
  awaiting them are left out: they are not ordered with the tasks.
\<close>

definition initialWorld :: "collaborators \<Rightarrow> filesystem \<Rightarrow> world" where
  "initialWorld ext fs = \<lparr>disk = fs, configBuilder = initialConfig ext, writes = [], console = []\<rparr>"

definition run ::
  "libraries \<Rightarrow> collaborators \<Rightarrow> invocation \<Rightarrow> answers \<Rightarrow> filesystem \<Rightarrow>
     (error + unit) \<times> world \<times> event list" where
  "run lib ext cmd ans fs =
     (let projectPath = resolve (cwd cmd) [projectName cmd]
      in case checkProjectDir lib fs projectPath (projectName cmd) of
           Inl e \<Rightarrow> (Inl e, initialWorld ext fs, [])
         | Inr u \<Rightarrow>
             (case planInit (cwd cmd) lib ext cmd ans fs projectPath of
                Inl e \<Rightarrow> (Inl e, initialWorld ext fs, [])
              | Inr st \<Rightarrow>
                  runQueue (taskQueue st)
                    ((initialWorld ext fs)\<lparr>configBuilder := builder st,
                                           console := map Str (printed st)\<rparr>)))"

section \<open>What a run of the queue did\<close>

text \<open>
  Notions to state what the executor did. A task is fatal unless its flag is set to
  false. It throws in a world when its operation does. \<open>settle\<close> is the world a task
  leaves: that of its operation, changed by its callback when the loop invokes it.
  \<open>announced\<close> lists the running messages the spinner started with, in order.
\<close>

definition fatal :: "'w Task \<Rightarrow> bool" where
  "fatal t = (case shouldExitOnError t of None \<Rightarrow> True | Some exits \<Rightarrow> exits)"

definition throws :: "'w Task \<Rightarrow> 'w \<Rightarrow> bool" where
  "throws t w = (case fst (task t w) of Inl e \<Rightarrow> True | Inr result \<Rightarrow> False)"

definition settle :: "'w Task \<Rightarrow> 'w \<Rightarrow> 'w" where
  "settle t w =
     (case task t w of
        (Inl e, w') \<Rightarrow> w'
      | (Inr result, w') \<Rightarrow> afterCommand t result w')"

definition worldBefore :: "'w Task list \<Rightarrow> 'w \<Rightarrow> nat \<Rightarrow> 'w" where
  "worldBefore queue w i = foldl (\<lambda>w' t. settle t w') w (take i queue)"

fun announced :: "event list \<Rightarrow> string list" where
  "announced [] = []"
| "announced (SpinnerStart m # out) = m # announced out"
| "announced (SpinnerSucceed m # out) = announced out"
| "announced (SpinnerFail m # out) = announced out"
| "announced (Log m # out) = announced out"



text \<open>
  The members list of the workspace of a project's root manifest, as a reader finds it
  on the disk: the file is read and parsed, and \<^verbatim>\<open>workspace.members\<close> is taken.
\<close>

definition workspaceMembers :: "string \<Rightarrow> libraries \<Rightarrow> filesystem \<Rightarrow> string \<Rightarrow> error + jsval" where
  "workspaceMembers wd lib fs project =
     and_then (readFile fs (resolve wd [project, ''Cargo.toml''])) (\<lambda>fileData.
     and_then (parseTOML lib fileData) (\<lambda>toml.
     and_then (get_prop toml ''workspace'') (\<lambda>workspace.
     get_prop workspace ''members'')))"

section \<open>Candidates as objects in a store\<close>

text \<open>
  A candidate set, its three arrays and their entries are objects: a stage is handed a
  reference, and what it does to the object behind it is seen by whoever holds the
  same reference. A store lists the objects allocated so far; a reference is the
  position of an object, and a new object goes to the end. An entry is never changed
  after it is made, so it is stored as a value. A reference that does not hold an
  object of the kind the code reads there belongs to no state of the program: the
  operation gives \<open>None\<close>.
\<close>

type_synonym ref = nat

datatype object =
    EntryObject PathEntry
  | ArrayObject "ref list"
  | CandidatesObject ref ref "ref option"

type_synonym store = "object list"

definition allocate :: "object \<Rightarrow> store \<Rightarrow> ref \<times> store" where
  "allocate obj s = (length s, s @ [obj])"

definition fetch :: "store \<Rightarrow> ref \<Rightarrow> object option" where
  "fetch s r = (if r < length s then Some (s ! r) else None)"

definition elements :: "store \<Rightarrow> ref \<Rightarrow> ref list option" where
  "elements s r = (case fetch s r of Some (ArrayObject items) \<Rightarrow> Some items | _ \<Rightarrow> None)"

definition entryAt :: "store \<Rightarrow> ref \<Rightarrow> PathEntry option" where
  "entryAt s r = (case fetch s r of Some (EntryObject entry) \<Rightarrow> Some entry | _ \<Rightarrow> None)"

text \<open>\<^verbatim>\<open>array.push(item)\<close>.\<close>

definition push :: "ref \<Rightarrow> ref \<Rightarrow> store \<Rightarrow> store option" where
  "push array item s =
     (case elements s array of
        None \<Rightarrow> None
      | Some items \<Rightarrow> Some (s[array := ArrayObject (items @ [item])]))"

text \<open>
  The values of the choices of one group: \<^verbatim>\<open>{ ...entry, group }\<close> is a new object
  for each entry of the array.
\<close>

fun allocateChoices :: "string \<Rightarrow> ref list \<Rightarrow> store \<Rightarrow> (ref list \<times> store) option" where
  "allocateChoices g [] s = Some ([], s)"
| "allocateChoices g (r # rs) s =
     (case entryAt s r of
        None \<Rightarrow> None
      | Some entry \<Rightarrow>
          (case allocate (EntryObject (withGroup g entry)) s of
             (choice, s1) \<Rightarrow>
               (case allocateChoices g rs s1 of
                  None \<Rightarrow> None
                | Some (choices, s2) \<Rightarrow> Some (choice # choices, s2))))"

text \<open>\<^verbatim>\<open>resultingList[item.group]?.push(item)\<close>, and the \<^verbatim>\<open>forEach\<close> around it.\<close>

definition pushByGroup :: "ref \<Rightarrow> ref \<Rightarrow> store \<Rightarrow> store option" where
  "pushByGroup resultingList item s =
     (case (fetch s resultingList, entryAt s item) of
        (Some (CandidatesObject c k t), Some entry) \<Rightarrow>
          (if group entry = Some ''contracts'' then push c item s
           else if group entry = Some ''crates'' then push k item s
           else if group entry = Some ''tests''
           then (case t of None \<Rightarrow> Some s | Some tr \<Rightarrow> push tr item s)
           else Some s)
      | _ \<Rightarrow> None)"

fun pushAll :: "ref \<Rightarrow> ref list \<Rightarrow> store \<Rightarrow> store option" where
  "pushAll resultingList [] s = Some s"
| "pushAll resultingList (item # items) s =
     (case pushByGroup resultingList item s of
        None \<Rightarrow> None
      | Some s' \<Rightarrow> pushAll resultingList items s')"

text \<open>
  \<^verbatim>\<open>confirmCopyList\<close> on a reference: its first statement assigns to the object
  it was handed.
\<close>

definition ensureTests :: "ref \<Rightarrow> store \<Rightarrow> (ref \<times> store) option" where
  "ensureTests candidatesList s =
     (case fetch s candidatesList of
        Some (CandidatesObject c k (Some tr)) \<Rightarrow> Some (tr, s)
      | Some (CandidatesObject c k None) \<Rightarrow>
          (case allocate (ArrayObject []) s of
             (tr, s') \<Rightarrow> Some (tr, s'[candidatesList := CandidatesObject c k (Some tr)]))
      | _ \<Rightarrow> None)"

definition emptyCandidates :: "store \<Rightarrow> ref \<times> store" where
  "emptyCandidates s =
     (case allocate (ArrayObject []) s of (c, s1) \<Rightarrow>
      case allocate (ArrayObject []) s1 of (k, s2) \<Rightarrow>
      case allocate (ArrayObject []) s2 of (t, s3) \<Rightarrow>
        allocate (CandidatesObject c k (Some t)) s3)"

definition confirmCopyListS :: "(nat \<Rightarrow> bool) \<Rightarrow> ref \<Rightarrow> store \<Rightarrow> (ref \<times> store) option" where
  "confirmCopyListS sel candidatesList s =
     Option.bind (ensureTests candidatesList s) (\<lambda>(tr, s1).
     case fetch s1 candidatesList of
       Some (CandidatesObject c k t) \<Rightarrow>
         Option.bind (elements s1 c) (\<lambda>cs.
         Option.bind (allocateChoices ''contracts'' cs s1) (\<lambda>(contractChoices, s2).
         Option.bind (elements s2 k) (\<lambda>ks.
         Option.bind (allocateChoices ''crates'' ks s2) (\<lambda>(crateChoices, s3).
         Option.bind (elements s3 tr) (\<lambda>ts.
         Option.bind (allocateChoices ''tests'' ts s3) (\<lambda>(testChoices, s4).
         case emptyCandidates s4 of
           (resultingList, s5) \<Rightarrow>
             Option.bind
               (pushAll resultingList (checkbox sel (contractChoices @ crateChoices @ testChoices)) s5)
               (\<lambda>s6. Some (resultingList, s6))))))))
     | _ \<Rightarrow> None)"

text \<open>
  \<^verbatim>\<open>detectModuleNames\<close> on a reference: a new set with two empty arrays and a copy
  of the tests array, then one new entry pushed for each entry of the two groups.
\<close>

fun resolveInto ::
  "string \<Rightarrow> (string \<Rightarrow> error + jsval) \<Rightarrow> filesystem \<Rightarrow> ref \<Rightarrow> ref list \<Rightarrow> store \<Rightarrow>
     ((error + unit) \<times> store) option" where
  "resolveInto wd parse fs target [] s = Some (Inr (), s)"
| "resolveInto wd parse fs target (r # rs) s =
     (case entryAt s r of
        None \<Rightarrow> None
      | Some entry \<Rightarrow>
          (case resolveModuleName wd parse fs entry of
             Inl e \<Rightarrow> Some (Inl e, s)
           | Inr (extendedEntry, lines) \<Rightarrow>
               (case allocate (EntryObject extendedEntry) s of
                  (extended, s1) \<Rightarrow>
                    (case push target extended s1 of
                       None \<Rightarrow> None
                     | Some s2 \<Rightarrow> resolveInto wd parse fs target rs s2))))"

definition detectModuleNamesS ::
  "string \<Rightarrow> (string \<Rightarrow> error + jsval) \<Rightarrow> filesystem \<Rightarrow> ref \<Rightarrow> store \<Rightarrow> ((error + ref) \<times> store) option" where
  "detectModuleNamesS wd parse fs copyList s =
     (case fetch s copyList of
        Some (CandidatesObject c k t) \<Rightarrow>
          Option.bind (case t of None \<Rightarrow> Some [] | Some tr \<Rightarrow> elements s tr) (\<lambda>ts.
          case allocate (ArrayObject []) s of (rc, s1) \<Rightarrow>
          case allocate (ArrayObject []) s1 of (rk, s2) \<Rightarrow>
          case allocate (ArrayObject ts) s2 of (rt, s3) \<Rightarrow>
          case allocate (CandidatesObject rc rk (Some rt)) s3 of (copyListWithModuleNames, s4) \<Rightarrow>
          Option.bind (elements s4 c) (\<lambda>cs.
          Option.bind (resolveInto wd parse fs rc cs s4) (\<lambda>(outcome, s5).
          case outcome of
            Inl e \<Rightarrow> Some (Inl e, s5)
          | Inr u \<Rightarrow>
              Option.bind (elements s5 k) (\<lambda>ks.
              Option.bind (resolveInto wd parse fs rk ks s5) (\<lambda>(outcome', s6).
              case outcome' of
                Inl e \<Rightarrow> Some (Inl e, s6)
              | Inr u' \<Rightarrow> Some (Inr copyListWithModuleNames, s6))))))
      | _ \<Rightarrow> None)"

text \<open>Reading a candidate set back from the store, as the value it stands for.\<close>

definition entriesAt :: "store \<Rightarrow> ref \<Rightarrow> PathEntry list option" where
  "entriesAt s r = Option.bind (elements s r) (\<lambda>items. those (map (entryAt s) items))"

definition candidatesAt :: "store \<Rightarrow> ref \<Rightarrow> CopyCandidates option" where
  "candidatesAt s r =
     (case fetch s r of
        Some (CandidatesObject c k t) \<Rightarrow>
          Option.bind (entriesAt s c) (\<lambda>cs.
          Option.bind (entriesAt s k) (\<lambda>ks.
          case t of
            None \<Rightarrow> Some \<lparr>contracts = cs, crates = ks, tests = None\<rparr>
          | Some tr \<Rightarrow>
              Option.bind (entriesAt s tr) (\<lambda>ts.
                Some \<lparr>contracts = cs, crates = ks, tests = Some ts\<rparr>)))
      | _ \<Rightarrow> None)"

text \<open>
  The object at \<open>r\<close> of \<open>s'\<close> is a candidate set which, with its three arrays, was
  allocated after the store was \<open>s\<close>.
\<close>

definition newSet :: "store \<Rightarrow> store \<Rightarrow> ref \<Rightarrow> bool" where
  "newSet s s' r =
     (case fetch s' r of
        Some (CandidatesObject c k (Some t)) \<Rightarrow>
          length s \<le> r \<and> length s \<le> c \<and> length s \<le> k \<and> length s \<le> t
      | _ \<Rightarrow> False)"

section \<open>A sample run\<close>

text \<open>
  A source project \<^verbatim>\<open>/src\<close> with a workspace manifest, one contract directory with
  a manifest of its own, a \<^verbatim>\<open>tests\<close> directory and a \<^verbatim>\<open>package.json\<close>; libraries
  and collaborators that succeed; and a user who accepts what is proposed. The theorems
  below are applied to this run.
\<close>

definition sampleDisk :: filesystem where
  "sampleDisk = map_of
     [(''/src'', Dir [''Cargo.toml'', ''contracts'', ''package.json'', ''tests'']),
      (''/src/Cargo.toml'', File ''root''),
      (''/src/contracts'', Dir [''flipper'']),
      (''/src/contracts/flipper'', Dir [''Cargo.toml'', ''lib.rs'']),
      (''/src/contracts/flipper/Cargo.toml'', File ''flipper_contract''),
      (''/src/package.json'', File ''theirs''),
      (''/src/tests'', Dir [''flipper.test.ts'']),
      (''/src/tests/flipper.test.ts'', File ''test''),
      (''/work/proj/package.json'', File ''ours'')]"

text \<open>
  The libraries of the sample: a glob that finds the directory in the contracts
  directory and the file in the tests directory; a TOML parser and serializer that know the manifests of the sample, the
  serializer writing the elements of an array and none of its other properties; a copy
  that puts what is at the source under the destination.
\<close>

definition sampleLibraries :: libraries where
  "sampleLibraries =
     \<lparr>yellowBright = (\<lambda>s. s),
      paramCase = (\<lambda>s. s),
      snakeCase = (\<lambda>s. s),
      pascalCase = (\<lambda>s. s),
      globby = (\<lambda>fs patterns onlyDirectories.
        if onlyDirectories \<and> patterns = [''/src/contracts'']
        then [\<lparr>isDirectory = True, name = ''flipper'', path = ''/src/contracts/flipper'',
               moduleName = None, group = None\<rparr>]
        else if \<not> onlyDirectories \<and> patterns = [''/src/tests'']
        then [\<lparr>isDirectory = False, name = ''flipper.test.ts'', path = ''/src/tests/flipper.test.ts'',
               moduleName = None, group = None\<rparr>]
        else []),
      parseTOML = (\<lambda>t.
        if t = ''root''
        then Inr (Obj [(''workspace'', Obj [(''members'', Arr [Str ''old/*'', Str ''lib''] [])])])
        else if t = ''workspace.members = [contracts/*]''
        then Inr (Obj [(''workspace'', Obj [(''members'', Arr [Str ''contracts/*''] [])])])
        else if t = ''workspace = []''
        then Inr (Obj [(''workspace'', Arr [] [])])
        else Inr (Obj [(''package'', Obj [(''name'', Str t)])])),
      stringifyTOML = (\<lambda>v.
        if v = Obj [(''workspace'', Obj [(''members'', Arr [Str ''contracts/*''] [])])]
        then Inr ''workspace.members = [contracts/*]''
        else if v = Obj [(''workspace'', Arr [] [(''members'', Arr [Str ''contracts/*''] [])])]
        then Inr ''workspace = []''
        else Inr ''toml''),
      parseJSON = (\<lambda>t.
        if t = ''ours'' then Inr (Obj [(''dependencies'', Obj [(''a'', Str ''1.0'')])])
        else Inr (Obj [(''dependencies'', Obj [(''a'', Str ''2.0''), (''b'', Str ''1.0'')])])),
      stringifyJSON = (\<lambda>v. ''json''),
      stringifyConfig = (\<lambda>c. case contractsConfig c of None \<Rightarrow> ''none'' | Some entries \<Rightarrow> concat (map fst entries)),
      copy = (\<lambda>from to fs. (Inr Undefined, fs(to := fs from))),
      ensureDir = (\<lambda>dir fs. (Inr Undefined, if fs dir = None then fs(dir \<mapsto> Dir []) else fs))\<rparr>"

definition sampleCollaborators :: collaborators where
  "sampleCollaborators =
     \<lparr>templatesPath = ''/templates'',
      contractTemplatesPath = ''/templates/contracts'',
      cliVersion = ''1.0.0'',
      chainAddress = (\<lambda>m. m),
      swankyNodeVersions = ''v'',
      swankyNodeInk = ''ink'',
      defaultNetworks = [(''local'', ''ws://127.0.0.1:9944'')],
      copyCommonTemplateFiles = (\<lambda>from to fs. (Inr Undefined, fs)),
      checkCliDependencies = (\<lambda>fs. (Inr Undefined, fs)),
      copyContractTemplateFiles = (\<lambda>from contract to fs. (Inr Undefined, fs)),
      processTemplates = (\<lambda>dir tokens fs. (Inr Undefined, fs)),
      installDeps = (\<lambda>dir fs. (Inl (TaskError ''install failed''), fs)),
      execaCommand = (\<lambda>command dir fs. (Inr Undefined, fs)),
      downloadNode = (\<lambda>dir fs. (Inr (Str ''/work/proj/bin/swanky-node''), fs))\<rparr>"

definition sampleAnswers :: answers where
  "sampleAnswers =
     \<lparr>contractTemplate = ''flipper'',
      contractName = ''flipper'',
      authorName = ''a'',
      authorEmail = ''a@b.c'',
      contractsSelection = (''/src/contracts'', []),
      shouldSpecifyCratesDir = False,
      cratesSelection = (''/src/crates'', []),
      testsAnswers = \<lparr>shouldUseDetectedTestDir = True, shouldInputTestDir = False,
                       selectedTestDirectory = []\<rparr>,
      checked = (\<lambda>i. True),
      useSwankyNode = True\<rparr>"

definition sampleConvert :: invocation where
  "sampleConvert =
     \<lparr>projectName = ''proj'', convertFlag = Some ''/src'', swankyNodeFlag = False, cwd = ''/work''\<rparr>"

definition sampleGenerate :: invocation where
  "sampleGenerate =
     \<lparr>projectName = ''proj'', convertFlag = None, swankyNodeFlag = False, cwd = ''/work''\<rparr>"

text \<open>
  A task for a queue over a world that lists the operations run: the operation adds
  its label to the world, and returns the label or throws, as \<open>succeeds\<close> says.
\<close>

definition sampleTask :: "string \<Rightarrow> bool \<Rightarrow> bool option \<Rightarrow> string list Task" where
  "sampleTask label succeeds exits =
     \<lparr>task = (\<lambda>w. (if succeeds then Inr (Str label) else Inl (TaskError label), w @ [label])),
      runningMessage = label, successMessage = None, failMessage = None,
      shouldExitOnError = exits, callback = None\<rparr>"

text \<open>
  A task whose operation returns the given value, with a callback that adds the value
  it receives to the world.
\<close>

definition reportingTask :: "jsval \<Rightarrow> jsval list Task" where
  "reportingTask result =
     \<lparr>task = (\<lambda>w. (Inr result, w)),
      runningMessage = ''report'', successMessage = None, failMessage = None,
      shouldExitOnError = None, callback = Some (\<lambda>received w. w @ [received])\<rparr>"

text \<open>
  A store with the set that discovery hands on: one contract, one crate, and no tests
  group yet; and the same store once the tests group is an empty array.
\<close>

definition sampleEntries :: "PathEntry list" where
  "sampleEntries =
     [\<lparr>isDirectory = True, name = ''flipper'', path = ''/src/contracts/flipper'',
       moduleName = None, group = None\<rparr>,
      \<lparr>isDirectory = True, name = ''util'', path = ''/src/crates/util'',
       moduleName = None, group = None\<rparr>]"

definition sampleStore :: store where
  "sampleStore =
     map EntryObject sampleEntries @ [ArrayObject [0], ArrayObject [1], CandidatesObject 2 3 None]"

definition sampleStoreWithTests :: store where
  "sampleStoreWithTests =
     map EntryObject sampleEntries @
     [ArrayObject [0], ArrayObject [1], CandidatesObject 2 3 (Some 5), ArrayObject []]"

section \<open>Paths\<close>

lemma resolve_nonempty: "resolve wd paths \<noteq> []"
  by (simp add: resolve_def)








lemma sample_resolves:
  "resolve ''/work'' [''proj''] = ''/work/proj''"
  "resolve ''/work'' [''/work/proj'', ''Cargo.toml''] = ''/work/proj/Cargo.toml''"
  "resolve ''/work'' [''/work/proj'', ''package.json''] = ''/work/proj/package.json''"
  "resolve ''/work'' [''/work/proj'', ''swanky.config.json''] = ''/work/proj/swanky.config.json''"
  "resolve ''/work'' [''/src'', ''package.json''] = ''/src/package.json''"
  "resolve ''/work'' [''/src'', ''Cargo.toml''] = ''/src/Cargo.toml''"
  by code_simp+

section \<open>Test-directory detection\<close>

lemma probeTestDir_find:
  "probeTestDir wd fs root names =
     map_option (\<lambda>n. resolve wd [root, n]) (find (\<lambda>n. pathExists fs (resolve wd [root, n])) names)"
  by (induction names) (simp_all add: Let_def)

text \<open>
  C10, on the code. \<^verbatim>\<open>detectTests\<close> probes the names test, tests, spec, specs in
  this order under the source project, and the directory it detects is the first of
  them that exists: that half of the claim holds. When none exists, the function does
  not return: it throws the \<^verbatim>\<open>TypeError\<close> of \<^verbatim>\<open>path.basename(undefined)\<close> while it
  builds its questions, whatever the user would have answered. When a directory is
  detected it is returned if the user accepts it, and also if the user declines it and
  declines to enter another.
\<close>

theorem detectTests_throws_when_nothing_is_detected:
  "testDirNames = [''test'', ''tests'', ''spec'', ''specs''] \<and>
   probeTestDir wd fs root testDirNames =
     map_option (\<lambda>n. resolve wd [root, n]) (find (\<lambda>n. pathExists fs (resolve wd [root, n])) testDirNames) \<and>
   (probeTestDir wd fs root testDirNames = None \<longrightarrow>
      detectTests wd fs answers root =
        Inl (TypeError ''The path argument must be of type string. Received undefined'')) \<and>
   (probeTestDir wd fs root testDirNames = Some d \<and> shouldUseDetectedTestDir answers \<longrightarrow>
      detectTests wd fs answers root = Inr (Some d)) \<and>
   (probeTestDir wd fs root testDirNames = Some d \<and> \<not> shouldInputTestDir answers \<longrightarrow>
      detectTests wd fs answers root = Inr (Some d)) \<and>
   (probeTestDir wd fs root testDirNames = Some d \<and> \<not> shouldUseDetectedTestDir answers \<and>
    shouldInputTestDir answers \<longrightarrow>
      detectTests wd fs answers root = Inr (Some (selectedTestDirectory answers)))"
proof -
  have names: "testDirNames = [''test'', ''tests'', ''spec'', ''specs'']"
    by (simp add: testDirNames_def)
  have none: "detectTests wd fs answers root =
        Inl (TypeError ''The path argument must be of type string. Received undefined'')"
    if "probeTestDir wd fs root testDirNames = None"
    using that by (simp add: detectTests_def)
  have nonempty: "d \<noteq> []" if "probeTestDir wd fs root testDirNames = Some d"
    using that by (auto simp: probeTestDir_find resolve_nonempty)
  have accepted: "detectTests wd fs answers root = Inr (Some d)"
    if "probeTestDir wd fs root testDirNames = Some d" "shouldUseDetectedTestDir answers"
    using that nonempty by (simp add: detectTests_def)
  have declined: "detectTests wd fs answers root = Inr (Some d)"
    if "probeTestDir wd fs root testDirNames = Some d" "\<not> shouldInputTestDir answers"
    using that nonempty by (simp add: detectTests_def)
  have entered: "detectTests wd fs answers root = Inr (Some (selectedTestDirectory answers))"
    if "probeTestDir wd fs root testDirNames = Some d" "\<not> shouldUseDetectedTestDir answers"
      "shouldInputTestDir answers"
    using that nonempty by (simp add: detectTests_def)
  show ?thesis
    using names none accepted declined entered probeTestDir_find by blast
qed

lemma sample_probes:
  "probeTestDir ''/work'' (map_of [(''/p/spec'', Dir []), (''/p/tests'', Dir [''a.ts''])]) ''/p'' testDirNames
     = Some ''/p/tests''"
  "probeTestDir ''/work'' (map_of [(''/work/p/spec'', Dir [])]) ''p/'' testDirNames = Some ''/work/p/spec''"
  "probeTestDir ''/work'' (map_of [(''/p/src'', Dir [])]) ''/p'' testDirNames = None"
  by code_simp+

theorem detectTests_throws_when_nothing_is_detected_witness:
  "probeTestDir ''/work'' (map_of [(''/p/spec'', Dir []), (''/p/tests'', Dir [''a.ts''])]) ''/p'' testDirNames
     = Some ''/p/tests'' \<and>
   detectTests ''/work'' (map_of [(''/p/spec'', Dir []), (''/p/tests'', Dir [''a.ts''])])
     \<lparr>shouldUseDetectedTestDir = True, shouldInputTestDir = False, selectedTestDirectory = []\<rparr> ''/p''
     = Inr (Some ''/p/tests'') \<and>
   detectTests ''/work'' (map_of [(''/work/p/spec'', Dir [])])
     \<lparr>shouldUseDetectedTestDir = False, shouldInputTestDir = False, selectedTestDirectory = []\<rparr> ''p/''
     = Inr (Some ''/work/p/spec'') \<and>
   detectTests ''/work'' (map_of [(''/p/spec'', Dir []), (''/p/tests'', Dir [''a.ts''])])
     \<lparr>shouldUseDetectedTestDir = False, shouldInputTestDir = True, selectedTestDirectory = ''e2e''\<rparr> ''/p''
     = Inr (Some ''e2e'') \<and>
   detectTests ''/work'' (map_of [(''/p/src'', Dir [])])
     \<lparr>shouldUseDetectedTestDir = True, shouldInputTestDir = False, selectedTestDirectory = []\<rparr> ''/p''
     = Inl (TypeError ''The path argument must be of type string. Received undefined'')"
  using sample_probes
    detectTests_throws_when_nothing_is_detected [of "''/work''"
      "map_of [(''/p/spec'', Dir []), (''/p/tests'', Dir [''a.ts''])]" "''/p''"
      "\<lparr>shouldUseDetectedTestDir = True, shouldInputTestDir = False, selectedTestDirectory = []\<rparr>" "''/p/tests''"]
    detectTests_throws_when_nothing_is_detected [of "''/work''"
      "map_of [(''/work/p/spec'', Dir [])]" "''p/''"
      "\<lparr>shouldUseDetectedTestDir = False, shouldInputTestDir = False, selectedTestDirectory = []\<rparr>"
      "''/work/p/spec''"]
    detectTests_throws_when_nothing_is_detected [of "''/work''"
      "map_of [(''/p/spec'', Dir []), (''/p/tests'', Dir [''a.ts''])]" "''/p''"
      "\<lparr>shouldUseDetectedTestDir = False, shouldInputTestDir = True, selectedTestDirectory = ''e2e''\<rparr>"
      "''/p/tests''"]
    detectTests_throws_when_nothing_is_detected [of "''/work''"
      "map_of [(''/p/src'', Dir [])]" "''/p''"
      "\<lparr>shouldUseDetectedTestDir = True, shouldInputTestDir = False, selectedTestDirectory = []\<rparr>" "''x''"]
  by simp

section \<open>The confirmation prompt returns the checked entries, by group\<close>

lemma foldl_pushItem_contracts:
  "contracts (foldl pushItem r items) = contracts r @ filter (\<lambda>i. group i = Some ''contracts'') items"
  by (induction items arbitrary: r) (auto simp: pushItem_def split: option.splits)

lemma foldl_pushItem_crates:
  "crates (foldl pushItem r items) = crates r @ filter (\<lambda>i. group i = Some ''crates'') items"
  by (induction items arbitrary: r) (auto simp: pushItem_def split: option.splits)

lemma foldl_pushItem_tests:
  "tests r = Some ts \<Longrightarrow>
   tests (foldl pushItem r items) = Some (ts @ filter (\<lambda>i. group i = Some ''tests'') items)"
  by (induction items arbitrary: r ts) (auto simp: pushItem_def split: option.splits)

lemma checked_enumerate_shift:
  "map snd (filter (\<lambda>(i, v). P i) (enumerate n xs)) =
   map snd (filter (\<lambda>(i, v). P (n + i)) (enumerate 0 xs))"
proof (induction xs arbitrary: n P)
  case Nil
  then show ?case by simp
next
  case (Cons x xs)
  have "map snd (filter (\<lambda>(i, v). P i) (enumerate (Suc n) xs)) =
        map snd (filter (\<lambda>(i, v). P (Suc n + i)) (enumerate 0 xs))"
    by (rule Cons.IH)
  moreover have "map snd (filter (\<lambda>(i, v). P (n + i)) (enumerate (Suc 0) xs)) =
        map snd (filter (\<lambda>(i, v). P (n + (Suc 0 + i))) (enumerate 0 xs))"
    using Cons.IH [of "\<lambda>i. P (n + i)" "Suc 0"] by simp
  ultimately show ?case by simp
qed

lemma checkbox_append:
  "checkbox sel (xs @ ys) =
   checkbox sel xs @ checkbox (\<lambda>i. sel (length xs + i)) ys"
  unfolding checkbox_def
  by (simp add: enumerate_append_eq checked_enumerate_shift [of sel "length xs"])

lemma checkbox_map: "checkbox sel (map f xs) = map f (checkbox sel xs)"
  unfolding checkbox_def
  by (induction xs arbitrary: sel rule: rev_induct)
     (auto simp: enumerate_append_eq)

lemma checkbox_subseq: "subseq (checkbox sel xs) xs"
  unfolding checkbox_def
  by (induction xs rule: rev_induct) (auto simp: enumerate_append_eq)


lemma filter_withGroup_same: "filter (\<lambda>i. group i = Some g) (map (withGroup g) xs) = map (withGroup g) xs"
  by (induction xs) (simp_all add: withGroup_def)

lemma filter_withGroup_other:
  "g \<noteq> g' \<Longrightarrow> filter (\<lambda>i. group i = Some g') (map (withGroup g) xs) = []"
  by (induction xs) (simp_all add: withGroup_def)

lemma checkbox_confirmChoices:
  "checkbox sel (confirmChoices c) =
     map (withGroup ''contracts'') (checkbox sel (contracts c)) @
     map (withGroup ''crates'') (checkbox (\<lambda>i. sel (length (contracts c) + i)) (crates c)) @
     map (withGroup ''tests'')
       (checkbox (\<lambda>i. sel (length (contracts c) + length (crates c) + i))
          (case tests c of None \<Rightarrow> [] | Some ts \<Rightarrow> ts))"
  by (simp add: confirmChoices_def checkbox_append checkbox_map add.assoc)

text \<open>
  C5. Whatever the candidates and whatever the user leaves checked, the confirmation
  prompt returns, group by group, the entries of that group left checked, in their
  order, each with the name of its group attached: the contracts are chosen by the
  first positions of the prompt, the crates by the next, the tests by the last.
  Unchecking a position removes the entry at that position and nothing else.
\<close>

theorem confirmCopyList_selected_by_group:
  "contracts (confirmCopyList sel c) =
     map (\<lambda>e. e\<lparr>group := Some ''contracts''\<rparr>) (checkbox sel (contracts c)) \<and>
   crates (confirmCopyList sel c) =
     map (\<lambda>e. e\<lparr>group := Some ''crates''\<rparr>)
       (checkbox (\<lambda>i. sel (length (contracts c) + i)) (crates c)) \<and>
   tests (confirmCopyList sel c) =
     Some (map (\<lambda>e. e\<lparr>group := Some ''tests''\<rparr>)
       (checkbox (\<lambda>i. sel (length (contracts c) + length (crates c) + i))
          (case tests c of None \<Rightarrow> [] | Some ts \<Rightarrow> ts))) \<and>
   subseq (checkbox sel (contracts c)) (contracts c) \<and>
   subseq (checkbox (\<lambda>i. sel (length (contracts c) + i)) (crates c)) (crates c) \<and>
   subseq (checkbox (\<lambda>i. sel (length (contracts c) + length (crates c) + i))
             (case tests c of None \<Rightarrow> [] | Some ts \<Rightarrow> ts))
          (case tests c of None \<Rightarrow> [] | Some ts \<Rightarrow> ts)"
proof -
  have g: "withGroup g = (\<lambda>e. e\<lparr>group := Some g\<rparr>)" for g
    by (rule ext) (simp add: withGroup_def)
  have c1: "contracts (confirmCopyList sel c) = map (withGroup ''contracts'') (checkbox sel (contracts c))"
    by (simp add: confirmCopyList_def foldl_pushItem_contracts checkbox_confirmChoices
        filter_withGroup_same filter_withGroup_other)
  have c2: "crates (confirmCopyList sel c) =
     map (withGroup ''crates'') (checkbox (\<lambda>i. sel (length (contracts c) + i)) (crates c))"
    by (simp add: confirmCopyList_def foldl_pushItem_crates checkbox_confirmChoices
        filter_withGroup_same filter_withGroup_other)
  have c3: "tests (confirmCopyList sel c) =
     Some (map (withGroup ''tests'')
       (checkbox (\<lambda>i. sel (length (contracts c) + length (crates c) + i))
          (case tests c of None \<Rightarrow> [] | Some ts \<Rightarrow> ts)))"
    by (simp add: confirmCopyList_def foldl_pushItem_tests checkbox_confirmChoices
        filter_withGroup_same filter_withGroup_other)
  show ?thesis
    using c1 c2 c3 by (simp add: checkbox_subseq g)
qed

text \<open>The example of the spec: of the contracts x and y and the test z, x is unchecked.\<close>

lemma confirmCopyList_example:
  "confirmCopyList (\<lambda>i. i \<noteq> 0)
     \<lparr>contracts = [\<lparr>isDirectory = True, name = ''x'', path = ''/s/x'', moduleName = None, group = None\<rparr>,
                   \<lparr>isDirectory = True, name = ''y'', path = ''/s/y'', moduleName = None, group = None\<rparr>],
      crates = [],
      tests = Some [\<lparr>isDirectory = True, name = ''z'', path = ''/s/z'', moduleName = None, group = None\<rparr>]\<rparr>
   = \<lparr>contracts = [\<lparr>isDirectory = True, name = ''y'', path = ''/s/y'', moduleName = None, group = Some ''contracts''\<rparr>],
      crates = [],
      tests = Some [\<lparr>isDirectory = True, name = ''z'', path = ''/s/z'', moduleName = None, group = Some ''tests''\<rparr>]\<rparr>"
  by (simp add: confirmCopyList_def confirmChoices_def checkbox_def withGroup_def pushItem_def enumerate_eq_zip upt_rec)

section \<open>Module names are resolved entry by entry\<close>

lemma resolveGroup_all2:
  "resolveGroup wd parse fs es = Inr (rs, msgs) \<Longrightarrow>
   list_all2 (\<lambda>e r. \<exists>p. resolveModuleName wd parse fs e = Inr (r, p)) es rs"
proof (induction es arbitrary: rs msgs)
  case Nil
  then show ?case by simp
next
  case (Cons e es)
  from Cons.prems obtain r p rs' ps where
    r: "resolveModuleName wd parse fs e = Inr (r, p)" and
    rest: "resolveGroup wd parse fs es = Inr (rs', ps)" and
    rs: "rs = r # rs'"
    by (auto simp: and_then_def split: sum.splits prod.splits)
  from Cons.IH [OF rest] r rs show ?case by auto
qed

lemma resolveGroup_total:
  "\<forall>e\<in>set es. \<exists>r. resolveModuleName wd parse fs e = Inr r \<Longrightarrow>
   \<exists>r. resolveGroup wd parse fs es = Inr r"
  by (induction es) (auto simp: and_then_def)

lemma resolveModuleName_file:
  "\<not> isDirectory e \<Longrightarrow>
   resolveModuleName wd parse fs e = Inr (e\<lparr>moduleName := Some (Str (basename (path e)))\<rparr>, [])"
  by (simp add: resolveModuleName_def)

lemma resolveModuleName_no_manifest:
  "\<not> pathExists fs (resolve wd [path e, ''Cargo.toml'']) \<Longrightarrow>
   resolveModuleName wd parse fs e = Inr (e\<lparr>moduleName := Some (Str (basename (path e)))\<rparr>, [])"
  by (simp add: resolveModuleName_def)

lemma resolveModuleName_manifest:
  "isDirectory e \<Longrightarrow> fs (resolve wd [path e, ''Cargo.toml'']) = Some (File manifest) \<Longrightarrow>
   parse manifest = Inr toml \<Longrightarrow> packageName toml = Inr declared \<Longrightarrow>
   resolveModuleName wd parse fs e =
     (if truthy declared then Inr (e\<lparr>moduleName := Some declared\<rparr>, [])
      else Inr (e\<lparr>moduleName := Some (Str (basename (path e)))\<rparr>,
             [''Could not detect the contract name from Cargo.toml. Using ['' @ basename (path e) @ '']'']))"
  by (simp add: resolveModuleName_def pathExists_def readFile_def and_then_def Let_def)

text \<open>
  C3. For an entry of the contracts or crates group the module name is the base name
  of its path when the entry is no directory, whatever manifests exist, and when it
  is a directory with no \<^verbatim>\<open>Cargo.toml\<close> directly inside. For a directory with a
  manifest it is the package name the manifest declares; when the manifest declares
  none (\<^verbatim>\<open>toml.package?.name\<close> is falsy) it is the base name, and one warning is
  printed. \<^verbatim>\<open>detectModuleNames\<close> resolves every entry of the two groups so, in
  order, passes the tests on, and returns whenever every entry resolves.
\<close>

theorem detectModuleNames_resolves:
  "(\<not> isDirectory e \<longrightarrow>
      resolveModuleName wd parse fs e = Inr (e\<lparr>moduleName := Some (Str (basename (path e)))\<rparr>, [])) \<and>
   (isDirectory e \<and> \<not> pathExists fs (resolve wd [path e, ''Cargo.toml'']) \<longrightarrow>
      resolveModuleName wd parse fs e = Inr (e\<lparr>moduleName := Some (Str (basename (path e)))\<rparr>, [])) \<and>
   (isDirectory e \<and> fs (resolve wd [path e, ''Cargo.toml'']) = Some (File manifest) \<and>
    parse manifest = Inr toml \<and> packageName toml = Inr declared \<and> truthy declared \<longrightarrow>
      resolveModuleName wd parse fs e = Inr (e\<lparr>moduleName := Some declared\<rparr>, [])) \<and>
   (isDirectory e \<and> fs (resolve wd [path e, ''Cargo.toml'']) = Some (File manifest) \<and>
    parse manifest = Inr toml \<and> packageName toml = Inr declared \<and> \<not> truthy declared \<longrightarrow>
      resolveModuleName wd parse fs e =
        Inr (e\<lparr>moduleName := Some (Str (basename (path e)))\<rparr>,
             [''Could not detect the contract name from Cargo.toml. Using ['' @ basename (path e) @ '']''])) \<and>
   (detectModuleNames wd parse fs c = Inr (r, msgs) \<longrightarrow>
      list_all2 (\<lambda>e e'. \<exists>p. resolveModuleName wd parse fs e = Inr (e', p)) (contracts c) (contracts r) \<and>
      list_all2 (\<lambda>e e'. \<exists>p. resolveModuleName wd parse fs e = Inr (e', p)) (crates c) (crates r) \<and>
      tests r = Some (case tests c of None \<Rightarrow> [] | Some ts \<Rightarrow> ts)) \<and>
   ((\<forall>e\<in>set (contracts c @ crates c). \<exists>r. resolveModuleName wd parse fs e = Inr r) \<longrightarrow>
      (\<exists>r. detectModuleNames wd parse fs c = Inr r))"
proof -
  have groups: "list_all2 (\<lambda>e e'. \<exists>p. resolveModuleName wd parse fs e = Inr (e', p)) (contracts c) (contracts r) \<and>
      list_all2 (\<lambda>e e'. \<exists>p. resolveModuleName wd parse fs e = Inr (e', p)) (crates c) (crates r) \<and>
      tests r = Some (case tests c of None \<Rightarrow> [] | Some ts \<Rightarrow> ts)"
    if "detectModuleNames wd parse fs c = Inr (r, msgs)"
  proof -
    from that obtain cs p1 ks p2 where
      cs: "resolveGroup wd parse fs (contracts c) = Inr (cs, p1)" and
      ks: "resolveGroup wd parse fs (crates c) = Inr (ks, p2)" and
      r: "r = \<lparr>contracts = cs, crates = ks, tests = Some (case tests c of None \<Rightarrow> [] | Some ts \<Rightarrow> ts)\<rparr>"
      by (auto simp: detectModuleNames_def and_then_def split: sum.splits prod.splits)
    show ?thesis
      using resolveGroup_all2 [OF cs] resolveGroup_all2 [OF ks] r by simp
  qed
  have total: "\<exists>r. detectModuleNames wd parse fs c = Inr r"
    if "\<forall>e\<in>set (contracts c @ crates c). \<exists>r. resolveModuleName wd parse fs e = Inr r"
  proof -
    from that obtain r1 r2 where
      "resolveGroup wd parse fs (contracts c) = Inr r1" "resolveGroup wd parse fs (crates c) = Inr r2"
      using resolveGroup_total [of "contracts c" wd parse fs] resolveGroup_total [of "crates c" wd parse fs]
      by auto
    then show ?thesis
      by (cases r1; cases r2) (simp add: detectModuleNames_def and_then_def)
  qed
  show ?thesis
    using groups total
      resolveModuleName_file [of e wd parse fs]
      resolveModuleName_no_manifest [of fs wd e parse]
      resolveModuleName_manifest [of e fs wd manifest parse toml declared]
    by auto
qed


theorem detectModuleNames_resolves_witness:
  "resolveModuleName ''/work''
     (\<lambda>t. if t = ''bar'' then Inr (Obj [(''package'', Obj [(''name'', Str ''bar'')])]) else Inr (Obj []))
     (map_of [(''/s/foo/Cargo.toml'', File ''bar''), (''/s/qux/Cargo.toml'', File ''lib'')])
     \<lparr>isDirectory = True, name = ''foo'', path = ''/s/foo'', moduleName = None, group = None\<rparr>
   = Inr (\<lparr>isDirectory = True, name = ''foo'', path = ''/s/foo'', moduleName = Some (Str ''bar''), group = None\<rparr>, []) \<and>
   resolveModuleName ''/work''
     (\<lambda>t. if t = ''bar'' then Inr (Obj [(''package'', Obj [(''name'', Str ''bar'')])]) else Inr (Obj []))
     (map_of [(''/s/foo/Cargo.toml'', File ''bar''), (''/s/qux/Cargo.toml'', File ''lib'')])
     \<lparr>isDirectory = True, name = ''qux'', path = ''/s/qux'', moduleName = None, group = None\<rparr>
   = Inr (\<lparr>isDirectory = True, name = ''qux'', path = ''/s/qux'', moduleName = Some (Str ''qux''), group = None\<rparr>,
          [''Could not detect the contract name from Cargo.toml. Using [qux]'']) \<and>
   resolveModuleName ''/work''
     (\<lambda>t. if t = ''bar'' then Inr (Obj [(''package'', Obj [(''name'', Str ''bar'')])]) else Inr (Obj []))
     (map_of [(''/s/foo/Cargo.toml'', File ''bar''), (''/s/qux/Cargo.toml'', File ''lib'')])
     \<lparr>isDirectory = True, name = ''baz'', path = ''/s/baz'', moduleName = None, group = None\<rparr>
   = Inr (\<lparr>isDirectory = True, name = ''baz'', path = ''/s/baz'', moduleName = Some (Str ''baz''), group = None\<rparr>, []) \<and>
   resolveModuleName ''/work''
     (\<lambda>t. if t = ''bar'' then Inr (Obj [(''package'', Obj [(''name'', Str ''bar'')])]) else Inr (Obj []))
     (map_of [(''/s/foo/Cargo.toml'', File ''bar''), (''/s/qux/Cargo.toml'', File ''lib'')])
     \<lparr>isDirectory = False, name = ''foo'', path = ''/s/foo'', moduleName = None, group = None\<rparr>
   = Inr (\<lparr>isDirectory = False, name = ''foo'', path = ''/s/foo'', moduleName = Some (Str ''foo''), group = None\<rparr>, []) \<and>
   (\<exists>r. detectModuleNames ''/work''
     (\<lambda>t. if t = ''bar'' then Inr (Obj [(''package'', Obj [(''name'', Str ''bar'')])]) else Inr (Obj []))
     (map_of [(''/s/foo/Cargo.toml'', File ''bar''), (''/s/qux/Cargo.toml'', File ''lib'')])
     \<lparr>contracts = [\<lparr>isDirectory = True, name = ''foo'', path = ''/s/foo'', moduleName = None, group = None\<rparr>],
      crates = [], tests = None\<rparr> = Inr r)"
proof -
  let ?parse = "\<lambda>t. if t = ''bar'' then Inr (Obj [(''package'', Obj [(''name'', Str ''bar'')])]) else Inr (Obj [])"
  let ?fs = "map_of [(''/s/foo/Cargo.toml'', File ''bar''), (''/s/qux/Cargo.toml'', File ''lib'')]"
  let ?foo = "\<lparr>isDirectory = True, name = ''foo'', path = ''/s/foo'', moduleName = None, group = None\<rparr>"
  let ?qux = "\<lparr>isDirectory = True, name = ''qux'', path = ''/s/qux'', moduleName = None, group = None\<rparr>"
  let ?baz = "\<lparr>isDirectory = True, name = ''baz'', path = ''/s/baz'', moduleName = None, group = None\<rparr>"
  let ?file = "\<lparr>isDirectory = False, name = ''foo'', path = ''/s/foo'', moduleName = None, group = None\<rparr>"
  let ?c = "\<lparr>contracts = [?foo], crates = [], tests = None\<rparr>"
  have b: "basename ''/s/foo'' = ''foo''" "basename ''/s/qux'' = ''qux''" "basename ''/s/baz'' = ''baz''"
    by (simp_all add: basename_def)
  have foo_manifest: "?fs (resolve ''/work'' [path ?foo, ''Cargo.toml'']) = Some (File ''bar'')"
    by code_simp
  have foo_name: "packageName (Obj [(''package'', Obj [(''name'', Str ''bar'')])]) = Inr (Str ''bar'')"
    by (simp add: packageName_def get_prop_def lookup_prop_def and_then_def)
  have qux_manifest: "?fs (resolve ''/work'' [path ?qux, ''Cargo.toml'']) = Some (File ''lib'')"
    by code_simp
  have qux_name: "packageName (Obj []) = Inr Undefined"
    by (simp add: packageName_def get_prop_def lookup_prop_def and_then_def)
  have baz_manifest: "\<not> pathExists ?fs (resolve ''/work'' [path ?baz, ''Cargo.toml''])"
    by code_simp
  have foo: "resolveModuleName ''/work'' ?parse ?fs ?foo = Inr (?foo\<lparr>moduleName := Some (Str ''bar'')\<rparr>, [])"
    using detectModuleNames_resolves [of ?foo "''/work''" ?parse ?fs "''bar''"
        "Obj [(''package'', Obj [(''name'', Str ''bar'')])]" "Str ''bar''"]
      foo_manifest foo_name by simp
  have qux: "resolveModuleName ''/work'' ?parse ?fs ?qux =
      Inr (?qux\<lparr>moduleName := Some (Str ''qux'')\<rparr>,
           [''Could not detect the contract name from Cargo.toml. Using [qux]''])"
    using detectModuleNames_resolves [of ?qux "''/work''" ?parse ?fs "''lib''" "Obj []" Undefined]
      qux_manifest qux_name b by simp
  have baz: "resolveModuleName ''/work'' ?parse ?fs ?baz = Inr (?baz\<lparr>moduleName := Some (Str ''baz'')\<rparr>, [])"
    using detectModuleNames_resolves [of ?baz "''/work''" ?parse ?fs] baz_manifest b by simp
  have plain: "resolveModuleName ''/work'' ?parse ?fs ?file = Inr (?file\<lparr>moduleName := Some (Str ''foo'')\<rparr>, [])"
    using detectModuleNames_resolves [of ?file "''/work''" ?parse ?fs] b by simp
  have total: "\<exists>r. detectModuleNames ''/work'' ?parse ?fs ?c = Inr r"
    using detectModuleNames_resolves [of ?foo "''/work''" ?parse ?fs "''bar''" "Obj []" Undefined ?c] foo
    by simp
  show ?thesis
    using foo qux baz plain total by simp
qed

section \<open>The workspace manifest lists contracts/* and nothing else\<close>

lemma convertRootToml_absent:
  "\<not> pathExists fs (resolve wd [src, ''Cargo.toml'']) \<Longrightarrow>
   convertRootToml wd parse fs src =
     Inr (Obj [(''workspace'', Obj [(''members'', Arr [Str ''contracts/*''] [])])])"
  by (simp add: convertRootToml_def readRootCargoToml_def and_then_def get_prop_def lookup_prop_def membersGlob_def)

lemma convertRootToml_table:
  "fs (resolve wd [src, ''Cargo.toml'']) = Some (File manifest) \<Longrightarrow> parse manifest = Inr (Obj kv) \<Longrightarrow>
   map_of kv ''workspace'' = Some (Obj ws) \<Longrightarrow>
   convertRootToml wd parse fs src =
     Inr (Obj (AList.update ''workspace''
                 (Obj (AList.update ''members'' (Arr [Str ''contracts/*''] []) ws)) kv))"
  by (simp add: convertRootToml_def readRootCargoToml_def and_then_def get_prop_def lookup_prop_def
      membersGlob_def pathExists_def readFile_def)

lemma update_absent: "map_of kv k = None \<Longrightarrow> AList.update k v kv = kv @ [(k, v)]"
  by (induction kv) (auto split: if_splits)

lemma update_after_absent:
  "map_of kv k = None \<Longrightarrow> AList.update k x (kv @ [(k, v)]) = kv @ [(k, x)]"
  by (induction kv) (auto split: if_splits)

lemma update_twice: "AList.update k x (AList.update k v kv) = AList.update k x kv"
  by (induction kv) auto

lemma convertRootToml_falsy:
  assumes "fs (resolve wd [src, ''Cargo.toml'']) = Some (File manifest)" "parse manifest = Inr (Obj kv)"
    and "\<not> truthy (lookup_prop kv ''workspace'')"
  shows "convertRootToml wd parse fs src =
     Inr (Obj (AList.update ''workspace'' (Obj [(''members'', Arr [Str ''contracts/*''] [])]) kv))"
proof -
  have "readRootCargoToml wd parse fs src = Inr (Obj (AList.update ''workspace'' (Obj []) kv))"
    using assms
    by (simp add: readRootCargoToml_def and_then_def get_prop_def pathExists_def readFile_def)
  then show ?thesis
    by (simp add: convertRootToml_def and_then_def get_prop_def lookup_prop_def membersGlob_def
        update_conv' update_twice)
qed

lemma convert_plan:
  assumes "convert wd lib ext fs ans src pn pp st = Inr st'"
  shows "\<exists>confirmed msgs rootToml.
      confirmedCandidates wd lib fs ans src = Inr (confirmed, msgs) \<and>
      convertRootToml wd (parseTOML lib) fs src = Inr rootToml \<and>
      taskQueue st' = taskQueue st @
        [plainTask (external (processTemplates ext pp
            [(''project_name'', paramCase lib pn), (''swanky_version'', cliVersion ext)]))
            ''Processing templates'',
         copyContractsTask wd lib confirmed pp,
         plainTask (writeCargoToml wd lib rootToml pp) ''Writing Cargo.toml'',
         plainTask (copyWorkspaceFiles wd lib src pp) ''Copying workspace files''] @
        (if pathExists fs (resolve wd [src, ''package.json''])
         then [plainTask (mergePackageJson wd lib (resolve wd [src, ''package.json'']) pp) ''Merging package.json'']
         else []) \<and>
      builder st' = (builder st)\<lparr>contractsConfig := Some
         (foldl addContract (case contractsConfig (builder st) of None \<Rightarrow> [] | Some entries \<Rightarrow> entries)
            (contracts confirmed))\<rparr>"
  using assms
  by (auto simp: convert_def and_then_def Let_def enqueue_def split: sum.splits prod.splits if_splits)

lemma writeCargoToml_writes:
  assumes "stringifyTOML lib t = Inr tomlString"
  shows "\<exists>w'. writeCargoToml wd lib t pp w = (Inr Undefined, w') \<and>
     disk w' (resolve wd [pp, ''Cargo.toml'']) = Some (File tomlString) \<and>
     writes w' = writes w @ [(resolve wd [pp, ''Cargo.toml''], tomlString)]"
  using assms by (simp add: writeCargoToml_def outputFile_def)

lemma writeCargoToml_read_back:
  assumes "stringifyTOML lib (Obj kv) = Inr tomlString" "parseTOML lib tomlString = Inr (Obj kv)"
    and "map_of kv ''workspace'' = Some (Obj ws)" "map_of ws ''members'' = Some members"
  shows "\<exists>w'. writeCargoToml wd lib (Obj kv) pp w = (Inr Undefined, w') \<and>
     workspaceMembers wd lib (disk w') pp = Inr members"
  using assms
  by (simp add: writeCargoToml_def outputFile_def workspaceMembers_def readFile_def and_then_def
      get_prop_def lookup_prop_def)

text \<open>
  C1, as amended. When the source project has no root manifest, \<^verbatim>\<open>convert\<close> makes a
  manifest with nothing but a workspace section and sets its members; when the root
  manifest has no workspace section, or a falsy one, the section is made and the
  members are set; when the workspace section is a table, the members of that table are
  replaced, whatever they were, and the rest is kept. In each of these cases
  \<^verbatim>\<open>workspace.members\<close> of the table is the one-element list \<^verbatim>\<open>["contracts/*"]\<close>.
  \<^verbatim>\<open>convert\<close> queues the task "Writing Cargo.toml" with this table; the task writes
  the text \<^verbatim>\<open>TOML.stringify\<close> gives for it to \<^verbatim>\<open>Cargo.toml\<close> of the new project;
  and where the parser reads a table back from the text written for it, the members
  of the workspace of the manifest on the disk are exactly that list.
\<close>

theorem convert_sets_workspace_members:
  "(\<not> pathExists fs (resolve wd [src, ''Cargo.toml'']) \<longrightarrow>
      convertRootToml wd parse fs src =
        Inr (Obj [(''workspace'', Obj [(''members'', Arr [Str ''contracts/*''] [])])])) \<and>
   (fs (resolve wd [src, ''Cargo.toml'']) = Some (File manifest) \<and> parse manifest = Inr (Obj kv) \<and>
    \<not> truthy (lookup_prop kv ''workspace'') \<longrightarrow>
      convertRootToml wd parse fs src =
        Inr (Obj (AList.update ''workspace'' (Obj [(''members'', Arr [Str ''contracts/*''] [])]) kv))) \<and>
   (fs (resolve wd [src, ''Cargo.toml'']) = Some (File manifest) \<and> parse manifest = Inr (Obj kv) \<and>
    map_of kv ''workspace'' = Some (Obj ws) \<longrightarrow>
      convertRootToml wd parse fs src =
        Inr (Obj (AList.update ''workspace''
                    (Obj (AList.update ''members'' (Arr [Str ''contracts/*''] []) ws)) kv))) \<and>
   (convert wd lib ext fs ans src pn pp st = Inr st' \<longrightarrow>
      (\<exists>rootToml. convertRootToml wd (parseTOML lib) fs src = Inr rootToml \<and>
         plainTask (writeCargoToml wd lib rootToml pp) ''Writing Cargo.toml'' \<in> set (taskQueue st'))) \<and>
   (stringifyTOML lib t = Inr tomlString \<longrightarrow>
      (\<exists>w'. writeCargoToml wd lib t pp w = (Inr Undefined, w') \<and>
         disk w' (resolve wd [pp, ''Cargo.toml'']) = Some (File tomlString) \<and>
         writes w' = writes w @ [(resolve wd [pp, ''Cargo.toml''], tomlString)])) \<and>
   (stringifyTOML lib (Obj table) = Inr tomlString \<and> parseTOML lib tomlString = Inr (Obj table) \<and>
    map_of table ''workspace'' = Some (Obj wsection) \<and>
    map_of wsection ''members'' = Some (Arr [Str ''contracts/*''] []) \<longrightarrow>
      (\<exists>w'. writeCargoToml wd lib (Obj table) pp w = (Inr Undefined, w') \<and>
         workspaceMembers wd lib (disk w') pp = Inr (Arr [Str ''contracts/*''] [])))"
proof -
  have queued: "\<exists>rootToml. convertRootToml wd (parseTOML lib) fs src = Inr rootToml \<and>
         plainTask (writeCargoToml wd lib rootToml pp) ''Writing Cargo.toml'' \<in> set (taskQueue st')"
    if "convert wd lib ext fs ans src pn pp st = Inr st'"
    using convert_plan [OF that] by auto
  show ?thesis
    using convertRootToml_absent [of fs wd src parse]
      convertRootToml_falsy [of fs wd src manifest parse kv]
      convertRootToml_table [of fs wd src manifest parse kv ws] queued
      writeCargoToml_writes [of lib t tomlString wd pp w]
      writeCargoToml_read_back [of lib table tomlString wsection "Arr [Str ''contracts/*''] []" wd pp w]
    by blast
qed

lemma sample_convert_plans:
  "\<exists>st'. convert ''/work'' sampleLibraries sampleCollaborators sampleDisk sampleAnswers ''/src'' ''proj'' ''/work/proj''
      \<lparr>taskQueue = [], builder = initialConfig sampleCollaborators, printed = []\<rparr> = Inr st'"
proof -
  have "case convert ''/work'' sampleLibraries sampleCollaborators sampleDisk sampleAnswers ''/src'' ''proj'' ''/work/proj''
      \<lparr>taskQueue = [], builder = initialConfig sampleCollaborators, printed = []\<rparr> of
        Inl e \<Rightarrow> False | Inr st' \<Rightarrow> True"
    by code_simp
  then show ?thesis
    by (simp split: sum.splits)
qed

lemma sample_manifests:
  "sampleDisk (resolve ''/work'' [''/src'', ''Cargo.toml'']) = Some (File ''root'')"
  "parseTOML sampleLibraries ''root'' =
     Inr (Obj [(''workspace'', Obj [(''members'', Arr [Str ''old/*'', Str ''lib''] [])])])"
  "\<not> pathExists sampleDisk (resolve ''/work'' [''/src/contracts'', ''Cargo.toml''])"
  "sampleDisk (resolve ''/work'' [''/src/contracts/flipper/'', ''Cargo.toml'']) =
     Some (File ''flipper_contract'')"
  "parseTOML sampleLibraries ''flipper_contract'' =
     Inr (Obj [(''package'', Obj [(''name'', Str ''flipper_contract'')])])"
  "stringifyTOML sampleLibraries (Obj [(''workspace'', Obj [(''members'', Arr [Str ''contracts/*''] [])])]) =
     Inr ''workspace.members = [contracts/*]''"
  "parseTOML sampleLibraries ''workspace.members = [contracts/*]'' =
     Inr (Obj [(''workspace'', Obj [(''members'', Arr [Str ''contracts/*''] [])])])"
  "resolve ''/work'' [''/work/proj'', ''Cargo.toml''] = ''/work/proj/Cargo.toml''"
  by code_simp+

theorem convert_sets_workspace_members_witness:
  "convertRootToml ''/work'' (parseTOML sampleLibraries) sampleDisk ''/src'' =
     Inr (Obj [(''workspace'', Obj [(''members'', Arr [Str ''contracts/*''] [])])]) \<and>
   convertRootToml ''/work'' (parseTOML sampleLibraries) sampleDisk ''/src/contracts'' =
     Inr (Obj [(''workspace'', Obj [(''members'', Arr [Str ''contracts/*''] [])])]) \<and>
   convertRootToml ''/work'' (parseTOML sampleLibraries) sampleDisk ''/src/contracts/flipper/'' =
     Inr (Obj [(''package'', Obj [(''name'', Str ''flipper_contract'')]),
               (''workspace'', Obj [(''members'', Arr [Str ''contracts/*''] [])])]) \<and>
   (\<exists>st'. convert ''/work'' sampleLibraries sampleCollaborators sampleDisk sampleAnswers ''/src'' ''proj''
            ''/work/proj''
            \<lparr>taskQueue = [], builder = initialConfig sampleCollaborators, printed = []\<rparr> = Inr st' \<and>
      plainTask (writeCargoToml ''/work'' sampleLibraries
                   (Obj [(''workspace'', Obj [(''members'', Arr [Str ''contracts/*''] [])])]) ''/work/proj'')
        ''Writing Cargo.toml'' \<in> set (taskQueue st')) \<and>
   (\<exists>w'. writeCargoToml ''/work'' sampleLibraries
        (Obj [(''workspace'', Obj [(''members'', Arr [Str ''contracts/*''] [])])]) ''/work/proj''
        (initialWorld sampleCollaborators sampleDisk) = (Inr Undefined, w') \<and>
      disk w' ''/work/proj/Cargo.toml'' = Some (File ''workspace.members = [contracts/*]'') \<and>
      writes w' = [(''/work/proj/Cargo.toml'', ''workspace.members = [contracts/*]'')] \<and>
      workspaceMembers ''/work'' sampleLibraries (disk w') ''/work/proj'' = Inr (Arr [Str ''contracts/*''] []))"
proof -
  let ?parse = "parseTOML sampleLibraries"
  let ?table = "[(''workspace'', Obj [(''members'', Arr [Str ''contracts/*''] [])])]"
  let ?w = "initialWorld sampleCollaborators sampleDisk"
  note claim = convert_sets_workspace_members
  have c1: "convertRootToml ''/work'' ?parse sampleDisk ''/src'' = Inr (Obj ?table)"
    using claim [where fs = sampleDisk and wd = "''/work''" and src = "''/src''" and parse = ?parse
        and manifest = "''root''"
        and kv = "[(''workspace'', Obj [(''members'', Arr [Str ''old/*'', Str ''lib''] [])])]"
        and ws = "[(''members'', Arr [Str ''old/*'', Str ''lib''] [])]"]
      sample_manifests(1,2) by simp
  have c2: "convertRootToml ''/work'' ?parse sampleDisk ''/src/contracts'' = Inr (Obj ?table)"
    using claim [where fs = sampleDisk and wd = "''/work''" and src = "''/src/contracts''" and parse = ?parse]
      sample_manifests(3) by simp
  have c3: "convertRootToml ''/work'' ?parse sampleDisk ''/src/contracts/flipper/'' =
     Inr (Obj [(''package'', Obj [(''name'', Str ''flipper_contract'')]),
               (''workspace'', Obj [(''members'', Arr [Str ''contracts/*''] [])])])"
    using claim [where fs = sampleDisk and wd = "''/work''" and src = "''/src/contracts/flipper/''"
        and parse = ?parse and manifest = "''flipper_contract''"
        and kv = "[(''package'', Obj [(''name'', Str ''flipper_contract'')])]"]
      sample_manifests(4,5) by (simp add: lookup_prop_def)
  obtain st' where st': "convert ''/work'' sampleLibraries sampleCollaborators sampleDisk sampleAnswers ''/src''
      ''proj'' ''/work/proj'' \<lparr>taskQueue = [], builder = initialConfig sampleCollaborators, printed = []\<rparr> = Inr st'"
    using sample_convert_plans by blast
  have c4: "plainTask (writeCargoToml ''/work'' sampleLibraries (Obj ?table) ''/work/proj'')
        ''Writing Cargo.toml'' \<in> set (taskQueue st')"
    using claim [where fs = sampleDisk and wd = "''/work''" and src = "''/src''"
        and lib = sampleLibraries and ext = sampleCollaborators and ans = sampleAnswers
        and pn = "''proj''" and pp = "''/work/proj''" and st' = st'] st' c1
    by auto
  have written: "\<exists>w'. writeCargoToml ''/work'' sampleLibraries (Obj ?table) ''/work/proj'' ?w = (Inr Undefined, w') \<and>
         disk w' (resolve ''/work'' [''/work/proj'', ''Cargo.toml'']) =
           Some (File ''workspace.members = [contracts/*]'') \<and>
         writes w' = writes ?w @
           [(resolve ''/work'' [''/work/proj'', ''Cargo.toml''], ''workspace.members = [contracts/*]'')]"
    using claim [where lib = sampleLibraries and wd = "''/work''" and pp = "''/work/proj''"
        and t = "Obj ?table" and tomlString = "''workspace.members = [contracts/*]''" and w = ?w]
      sample_manifests(6) by blast
  have read: "\<exists>w'. writeCargoToml ''/work'' sampleLibraries (Obj ?table) ''/work/proj'' ?w = (Inr Undefined, w') \<and>
         workspaceMembers ''/work'' sampleLibraries (disk w') ''/work/proj'' = Inr (Arr [Str ''contracts/*''] [])"
    using claim [where lib = sampleLibraries and wd = "''/work''" and pp = "''/work/proj''"
        and table = ?table and wsection = "[(''members'', Arr [Str ''contracts/*''] [])]"
        and tomlString = "''workspace.members = [contracts/*]''" and w = ?w]
      sample_manifests(6,7) by simp
  from written read have c5: "\<exists>w'. writeCargoToml ''/work'' sampleLibraries (Obj ?table) ''/work/proj'' ?w =
        (Inr Undefined, w') \<and>
      disk w' ''/work/proj/Cargo.toml'' = Some (File ''workspace.members = [contracts/*]'') \<and>
      writes w' = [(''/work/proj/Cargo.toml'', ''workspace.members = [contracts/*]'')] \<and>
      workspaceMembers ''/work'' sampleLibraries (disk w') ''/work/proj'' = Inr (Arr [Str ''contracts/*''] [])"
    by (auto simp: sample_manifests(8) initialWorld_def)
  show ?thesis
    using c1 c2 c3 c4 c5 st' by blast
qed

text \<open>
  The sample run as a whole: it completes, and the manifest it leaves in the new
  project lists \<^verbatim>\<open>contracts/*\<close> where the source listed \<^verbatim>\<open>old/*\<close> and \<^verbatim>\<open>lib\<close>.
\<close>

lemma sample_run_writes_members:
  "fst (run sampleLibraries sampleCollaborators sampleConvert sampleAnswers sampleDisk) = Inr ()"
  "workspaceMembers ''/work'' sampleLibraries sampleDisk ''/src'' = Inr (Arr [Str ''old/*'', Str ''lib''] [])"
  "workspaceMembers ''/work'' sampleLibraries
     (disk (fst (snd (run sampleLibraries sampleCollaborators sampleConvert sampleAnswers sampleDisk))))
     ''/work/proj'' = Inr (Arr [Str ''contracts/*''] [])"
  "disk (fst (snd (run sampleLibraries sampleCollaborators sampleConvert sampleAnswers sampleDisk)))
     ''/work/proj/contracts/flipper'' = Some (Dir [''Cargo.toml'', ''lib.rs''])"
  "disk (fst (snd (run sampleLibraries sampleCollaborators sampleConvert sampleAnswers sampleDisk)))
     ''/work/proj/tests/flipper.test.ts'' = Some (File ''test'')"
  by code_simp+

text \<open>
  C1 as stated fails. A root manifest whose workspace is an array is truthy and is kept:
  the members become a property of the array, which a serializer that writes the
  elements of an array leaves out, so the run completes and the manifest written has
  no members list. A root manifest whose workspace is a string makes the assignment
  throw, and no manifest is written.
\<close>

theorem workspace_members_lost_for_a_workspace_that_is_no_table:
  "fst (run (sampleLibraries\<lparr>parseTOML := (\<lambda>manifest.
          if manifest = ''root'' then Inr (Obj [(''workspace'', Arr [] [])])
          else parseTOML sampleLibraries manifest)\<rparr>)
        sampleCollaborators sampleConvert sampleAnswers sampleDisk) = Inr () \<and>
   disk (fst (snd (run (sampleLibraries\<lparr>parseTOML := (\<lambda>manifest.
          if manifest = ''root'' then Inr (Obj [(''workspace'', Arr [] [])])
          else parseTOML sampleLibraries manifest)\<rparr>)
        sampleCollaborators sampleConvert sampleAnswers sampleDisk))) ''/work/proj/Cargo.toml''
     = Some (File ''workspace = []'') \<and>
   workspaceMembers ''/work'' sampleLibraries
     (disk (fst (snd (run (sampleLibraries\<lparr>parseTOML := (\<lambda>manifest.
          if manifest = ''root'' then Inr (Obj [(''workspace'', Arr [] [])])
          else parseTOML sampleLibraries manifest)\<rparr>)
        sampleCollaborators sampleConvert sampleAnswers sampleDisk)))) ''/work/proj''
     = Inr Undefined \<and>
   fst (run (sampleLibraries\<lparr>parseTOML := (\<lambda>manifest.
          if manifest = ''root'' then Inr (Obj [(''workspace'', Str ''members'')])
          else parseTOML sampleLibraries manifest)\<rparr>)
        sampleCollaborators sampleConvert sampleAnswers sampleDisk)
     = Inl (TypeError ''Cannot set properties of a primitive'') \<and>
   disk (fst (snd (run (sampleLibraries\<lparr>parseTOML := (\<lambda>manifest.
          if manifest = ''root'' then Inr (Obj [(''workspace'', Str ''members'')])
          else parseTOML sampleLibraries manifest)\<rparr>)
        sampleCollaborators sampleConvert sampleAnswers sampleDisk))) ''/work/proj/Cargo.toml''
     = None"
  by code_simp

section \<open>The package manifest merge\<close>

lemma map_of_update_other: "k \<noteq> k' \<Longrightarrow> map_of (AList.update k' v t) k = map_of t k"
  by (simp add: update_conv')

lemma mergeProps_lookup:
  "distinct (map fst e) \<Longrightarrow>
   map_of (mergeProps t e) k =
     (case map_of e k of
        None \<Rightarrow> map_of t k
      | Some b \<Rightarrow> (case map_of t k of None \<Rightarrow> Some b | Some a \<Rightarrow> Some (mergeJson a b)))"
proof (induction e arbitrary: t)
  case Nil
  then show ?case by simp
next
  case (Cons kv e)
  obtain k' v where kv: "kv = (k', v)" by (cases kv)
  define t' where
    "t' = (case map_of t k' of None \<Rightarrow> t @ [(k', v)] | Some old \<Rightarrow> AList.update k' (mergeJson old v) t)"
  from Cons.prems kv have dist: "distinct (map fst e)" and fresh: "map_of e k' = None"
    by (auto simp: map_of_eq_None_iff)
  have unfold: "mergeProps t (kv # e) = mergeProps t' e"
    by (simp add: kv t'_def)
  have step: "map_of (mergeProps t' e) k =
     (case map_of e k of
        None \<Rightarrow> map_of t' k
      | Some b \<Rightarrow> (case map_of t' k of None \<Rightarrow> Some b | Some a \<Rightarrow> Some (mergeJson a b)))"
    by (rule Cons.IH [OF dist])
  show ?case
  proof (cases "k = k'")
    case True
    have "map_of t' k' = (case map_of t k' of None \<Rightarrow> Some v | Some old \<Rightarrow> Some (mergeJson old v))"
      by (auto simp: t'_def update_conv' map_add_def split: option.splits)
    then show ?thesis
      using step fresh True unfold kv by (simp split: option.splits)
  next
    case False
    then have "map_of t' k = map_of t k"
      by (auto simp: t'_def update_conv' map_add_def split: option.splits)
    then show ?thesis
      using step False unfold kv by (simp split: option.splits)
  qed
qed

lemma mergeJson_not_object: "\<forall>ps. e \<noteq> Obj ps \<Longrightarrow> mergeJson t e = e"
  by (cases e) simp_all

lemma mergeJson_onto_not_object: "\<forall>ps. t \<noteq> Obj ps \<Longrightarrow> mergeJson t e = e"
  by (cases e; cases t) simp_all

lemma mergePackageJson_writes_merge:
  "readJSON lib (disk w) pJsonPath = Inr existing \<Longrightarrow>
   readJSON lib (disk w) (resolve wd [pp, ''package.json'']) = Inr ours \<Longrightarrow>
   mergePackageJson wd lib pJsonPath pp w =
     (Inr Undefined,
      outputFile (resolve wd [pp, ''package.json'']) (stringifyJSON lib (mergeJson ours existing))
        (w\<lparr>disk := (disk w)(resolve wd [pp, ''package.json''] := None)\<rparr>))"
  by (simp add: mergePackageJson_def Let_def)

text \<open>
  C6. The package manifest merge, with \<^verbatim>\<open>merge\<close> as the spec gives it. For two
  objects it goes key by key: a key of both sides holds the merge of the two values, a
  key of one side only keeps its value. A value of the external side that is no
  object replaces the template's, and so does any external value where the template's
  is no object. The template \<^verbatim>\<open>{dependencies: {a: "1.0"}}\<close> merged with the external
  \<^verbatim>\<open>{dependencies: {a: "2.0", b: "1.0"}}\<close> gives the latter. The task reads both
  manifests when it runs, takes the template's as the base, and writes the merge over
  the template's file; \<^verbatim>\<open>convert\<close> queues it last when the source project has a
  \<^verbatim>\<open>package.json\<close>.
\<close>

theorem mergePackageJson_deep_merge:
  "(distinct (map fst e) \<longrightarrow>
      map_of (mergeProps t e) k =
        (case (map_of t k, map_of e k) of
           (None, None) \<Rightarrow> None
         | (Some a, None) \<Rightarrow> Some a
         | (None, Some b) \<Rightarrow> Some b
         | (Some a, Some b) \<Rightarrow> Some (mergeJson a b))) \<and>
   mergeJson (Obj t) (Obj e) = Obj (mergeProps t e) \<and>
   ((\<forall>ps. theirs \<noteq> Obj ps) \<longrightarrow> mergeJson ours theirs = theirs) \<and>
   ((\<forall>ps. ours \<noteq> Obj ps) \<longrightarrow> mergeJson ours theirs = theirs) \<and>
   mergeJson (Obj [(''dependencies'', Obj [(''a'', Str ''1.0'')])])
             (Obj [(''dependencies'', Obj [(''a'', Str ''2.0''), (''b'', Str ''1.0'')])])
     = Obj [(''dependencies'', Obj [(''a'', Str ''2.0''), (''b'', Str ''1.0'')])] \<and>
   (readJSON lib (disk w) pJsonPath = Inr theirs \<and>
    readJSON lib (disk w) (resolve wd [pp, ''package.json'']) = Inr ours \<longrightarrow>
      mergePackageJson wd lib pJsonPath pp w =
        (Inr Undefined,
         outputFile (resolve wd [pp, ''package.json'']) (stringifyJSON lib (mergeJson ours theirs))
           (w\<lparr>disk := (disk w)(resolve wd [pp, ''package.json''] := None)\<rparr>))) \<and>
   (convert wd lib ext fs ans src pn pp st = Inr st' \<and> pathExists fs (resolve wd [src, ''package.json'']) \<longrightarrow>
      last (taskQueue st') =
        plainTask (mergePackageJson wd lib (resolve wd [src, ''package.json'']) pp) ''Merging package.json'')"
proof -
  have lookup: "map_of (mergeProps t e) k =
        (case (map_of t k, map_of e k) of
           (None, None) \<Rightarrow> None
         | (Some a, None) \<Rightarrow> Some a
         | (None, Some b) \<Rightarrow> Some b
         | (Some a, Some b) \<Rightarrow> Some (mergeJson a b))"
    if "distinct (map fst e)"
    using mergeProps_lookup [OF that, of t k] by (simp split: option.splits)
  have example: "mergeJson (Obj [(''dependencies'', Obj [(''a'', Str ''1.0'')])])
             (Obj [(''dependencies'', Obj [(''a'', Str ''2.0''), (''b'', Str ''1.0'')])])
     = Obj [(''dependencies'', Obj [(''a'', Str ''2.0''), (''b'', Str ''1.0'')])]"
    by simp
  have queued: "last (taskQueue st') =
        plainTask (mergePackageJson wd lib (resolve wd [src, ''package.json'']) pp) ''Merging package.json''"
    if "convert wd lib ext fs ans src pn pp st = Inr st'" "pathExists fs (resolve wd [src, ''package.json''])"
    using convert_plan [OF that(1)] that(2) by auto
  show ?thesis
    using lookup example queued mergeJson_not_object [of theirs ours]
      mergeJson_onto_not_object [of ours theirs]
      mergePackageJson_writes_merge [of lib w pJsonPath theirs wd pp ours]
    by simp
qed


theorem mergePackageJson_deep_merge_witness:
  "map_of (mergeProps [(''a'', Str ''1.0''), (''c'', Str ''3.0'')] [(''a'', Str ''2.0''), (''b'', Str ''1.0'')]) ''a''
     = Some (Str ''2.0'') \<and>
   map_of (mergeProps [(''a'', Str ''1.0''), (''c'', Str ''3.0'')] [(''a'', Str ''2.0''), (''b'', Str ''1.0'')]) ''b''
     = Some (Str ''1.0'') \<and>
   map_of (mergeProps [(''a'', Str ''1.0''), (''c'', Str ''3.0'')] [(''a'', Str ''2.0''), (''b'', Str ''1.0'')]) ''c''
     = Some (Str ''3.0'') \<and>
   mergeJson (Obj [(''a'', Str ''1.0'')]) (Str ''2.0'') = Str ''2.0'' \<and>
   mergeJson (Str ''1.0'') (Obj [(''a'', Str ''2.0'')]) = Obj [(''a'', Str ''2.0'')] \<and>
   mergePackageJson ''/work'' sampleLibraries ''/src/package.json'' ''/work/proj'' (initialWorld sampleCollaborators sampleDisk)
     = (Inr Undefined,
        outputFile ''/work/proj/package.json''
          (stringifyJSON sampleLibraries
             (Obj [(''dependencies'', Obj [(''a'', Str ''2.0''), (''b'', Str ''1.0'')])]))
          ((initialWorld sampleCollaborators sampleDisk)
             \<lparr>disk := sampleDisk(''/work/proj/package.json'' := None)\<rparr>)) \<and>
   (\<exists>st'. convert ''/work'' sampleLibraries sampleCollaborators sampleDisk sampleAnswers ''/src'' ''proj'' ''/work/proj''
            \<lparr>taskQueue = [], builder = initialConfig sampleCollaborators, printed = []\<rparr> = Inr st' \<and>
      last (taskQueue st') =
        plainTask (mergePackageJson ''/work'' sampleLibraries ''/src/package.json'' ''/work/proj'') ''Merging package.json'')"
proof -
  let ?t = "[(''a'', Str ''1.0''), (''c'', Str ''3.0'')]"
  let ?e = "[(''a'', Str ''2.0''), (''b'', Str ''1.0'')]"
  let ?w = "initialWorld sampleCollaborators sampleDisk"
  have d: "distinct (map fst ?e)" by simp
  have a: "map_of (mergeProps ?t ?e) ''a'' = Some (Str ''2.0'')"
    using mergePackageJson_deep_merge [where e = ?e and t = ?t and k = "''a''"] d by simp
  have b: "map_of (mergeProps ?t ?e) ''b'' = Some (Str ''1.0'')"
    using mergePackageJson_deep_merge [where e = ?e and t = ?t and k = "''b''"] d by simp
  have c: "map_of (mergeProps ?t ?e) ''c'' = Some (Str ''3.0'')"
    using mergePackageJson_deep_merge [where e = ?e and t = ?t and k = "''c''"] d by simp
  have s: "mergeJson (Obj [(''a'', Str ''1.0'')]) (Str ''2.0'') = Str ''2.0''"
    using mergePackageJson_deep_merge [where theirs = "Str ''2.0''" and ours = "Obj [(''a'', Str ''1.0'')]"]
    by simp
  have o: "mergeJson (Str ''1.0'') (Obj [(''a'', Str ''2.0'')]) = Obj [(''a'', Str ''2.0'')]"
    using mergePackageJson_deep_merge [where ours = "Str ''1.0''" and theirs = "Obj [(''a'', Str ''2.0'')]"]
    by simp
  have theirs: "readJSON sampleLibraries (disk ?w) ''/src/package.json'' =
      Inr (Obj [(''dependencies'', Obj [(''a'', Str ''2.0''), (''b'', Str ''1.0'')])])"
    by (simp add: readJSON_def readFile_def and_then_def initialWorld_def sampleDisk_def sampleLibraries_def)
  have ours: "readJSON sampleLibraries (disk ?w) (resolve ''/work'' [''/work/proj'', ''package.json'']) =
      Inr (Obj [(''dependencies'', Obj [(''a'', Str ''1.0'')])])"
    by (simp add: readJSON_def readFile_def and_then_def initialWorld_def sampleDisk_def sampleLibraries_def
        sample_resolves)
  have task: "mergePackageJson ''/work'' sampleLibraries ''/src/package.json'' ''/work/proj'' ?w
     = (Inr Undefined,
        outputFile ''/work/proj/package.json''
          (stringifyJSON sampleLibraries
             (Obj [(''dependencies'', Obj [(''a'', Str ''2.0''), (''b'', Str ''1.0'')])]))
          (?w\<lparr>disk := sampleDisk(''/work/proj/package.json'' := None)\<rparr>))"
    using mergePackageJson_deep_merge [where lib = sampleLibraries and wd = "''/work''" and w = ?w
        and pJsonPath = "''/src/package.json''" and pp = "''/work/proj''"
        and theirs = "Obj [(''dependencies'', Obj [(''a'', Str ''2.0''), (''b'', Str ''1.0'')])]"
        and ours = "Obj [(''dependencies'', Obj [(''a'', Str ''1.0'')])]"]
      theirs ours
    by (simp add: sample_resolves initialWorld_def)
  obtain st' where st': "convert ''/work'' sampleLibraries sampleCollaborators sampleDisk sampleAnswers ''/src'' ''proj''
      ''/work/proj'' \<lparr>taskQueue = [], builder = initialConfig sampleCollaborators, printed = []\<rparr> = Inr st'"
    using sample_convert_plans by blast
  have exists: "pathExists sampleDisk (resolve ''/work'' [''/src'', ''package.json''])"
    by (simp add: pathExists_def sample_resolves sampleDisk_def)
  have queued: "last (taskQueue st') =
        plainTask (mergePackageJson ''/work'' sampleLibraries ''/src/package.json'' ''/work/proj'') ''Merging package.json''"
    using mergePackageJson_deep_merge [where lib = sampleLibraries and wd = "''/work''" and ext = sampleCollaborators
        and fs = sampleDisk and ans = sampleAnswers and src = "''/src''" and pn = "''proj''"
        and pp = "''/work/proj''" and st' = st'] st' exists
    by (simp add: sample_resolves)
  show ?thesis
    using a b c s o task queued st' by blast
qed

section \<open>The executor: order, fatal and non-fatal failures\<close>

lemma announced_append: "announced (xs @ ys) = announced xs @ announced ys"
  by (induction xs rule: announced.induct) simp_all

lemma runCommand_cases:
  "runCommand (task t) (runningMessage t) (successMessage t) (failMessage t) (shouldExitOnError t) (w, out) =
     (case task t w of
        (Inr result, w') \<Rightarrow>
          (Inr result, w',
           out @ [SpinnerStart (runningMessage t)] @
             (case successMessage t of None \<Rightarrow> [] | Some m \<Rightarrow> [SpinnerSucceed m]))
      | (Inl e, w') \<Rightarrow>
          (if fatal t
           then (Inl e, w',
                 out @ [SpinnerStart (runningMessage t)] @
                   (case failMessage t of None \<Rightarrow> [] | Some m \<Rightarrow> [SpinnerFail m]))
           else (Inr Undefined, w',
                 out @ [SpinnerStart (runningMessage t)] @
                   (case failMessage t of None \<Rightarrow> [] | Some m \<Rightarrow> [SpinnerFail m]) @ [Log (message e)])))"
  by (simp add: runCommand_def fatal_def split: prod.splits sum.splits)

text \<open>One turn of the loop: the events a task adds to the output.\<close>

lemma runTasks_step:
  "runTasks (t # queue) (w, out) =
     (if fatal t \<and> throws t w
      then (Inl (case fst (task t w) of Inl e \<Rightarrow> e), settle t w,
            out @ [SpinnerStart (runningMessage t)] @
              (case failMessage t of None \<Rightarrow> [] | Some m \<Rightarrow> [SpinnerFail m]))
      else runTasks queue (settle t w,
            out @ [SpinnerStart (runningMessage t)] @
              (case fst (task t w) of
                 Inr result \<Rightarrow> (case successMessage t of None \<Rightarrow> [] | Some m \<Rightarrow> [SpinnerSucceed m])
               | Inl e \<Rightarrow> (case failMessage t of None \<Rightarrow> [] | Some m \<Rightarrow> [SpinnerFail m]) @ [Log (message e)])))"
  by (cases "task t w")
     (auto simp: runCommand_cases throws_def settle_def afterCommand_def truthy.simps
       split: sum.splits)


lemma worldBefore_0: "worldBefore queue w 0 = w"
  by (simp add: worldBefore_def)

lemma worldBefore_Suc: "worldBefore (t # queue) w (Suc i) = worldBefore queue (settle t w) i"
  by (simp add: worldBefore_def)

lemma worldBefore_all: "length queue \<le> i \<Longrightarrow> worldBefore queue w i = foldl (\<lambda>w' t. settle t w') w queue"
  by (simp add: worldBefore_def)

lemma runTasks_completes:
  "\<forall>i<length queue. \<not> (fatal (queue ! i) \<and> throws (queue ! i) (worldBefore queue w i)) \<Longrightarrow>
   \<exists>out'. runTasks queue (w, out) = (Inr (), foldl (\<lambda>w' t. settle t w') w queue, out') \<and>
          announced out' = announced out @ map runningMessage queue"
proof (induction queue arbitrary: w out)
  case Nil
  then show ?case by simp
next
  case (Cons t queue)
  from Cons.prems have first: "\<not> (fatal t \<and> throws t w)"
    by (auto simp: worldBefore_0 dest: spec [of _ 0])
  have rest: "\<forall>i<length queue. \<not> (fatal (queue ! i) \<and> throws (queue ! i) (worldBefore queue (settle t w) i))"
  proof (intro allI impI)
    fix i assume "i < length queue"
    then have "Suc i < length (t # queue)" by simp
    with Cons.prems have "\<not> (fatal ((t # queue) ! Suc i) \<and>
        throws ((t # queue) ! Suc i) (worldBefore (t # queue) w (Suc i)))"
      by blast
    then show "\<not> (fatal (queue ! i) \<and> throws (queue ! i) (worldBefore queue (settle t w) i))"
      by (simp add: worldBefore_Suc)
  qed
  define out1 where "out1 = out @ [SpinnerStart (runningMessage t)] @
      (case fst (task t w) of
         Inr result \<Rightarrow> (case successMessage t of None \<Rightarrow> [] | Some m \<Rightarrow> [SpinnerSucceed m])
       | Inl e \<Rightarrow> (case failMessage t of None \<Rightarrow> [] | Some m \<Rightarrow> [SpinnerFail m]) @ [Log (message e)])"
  have step: "runTasks (t # queue) (w, out) = runTasks queue (settle t w, out1)"
    using first by (simp only: runTasks_step out1_def if_False)
  have ann: "announced out1 = announced out @ [runningMessage t]"
    by (auto simp: out1_def announced_append split: sum.splits option.splits)
  from Cons.IH [OF rest, of out1] obtain out' where
    "runTasks queue (settle t w, out1) = (Inr (), foldl (\<lambda>w' t. settle t w') (settle t w) queue, out')"
    "announced out' = announced out1 @ map runningMessage queue"
    by blast
  then show ?case
    using step ann by simp
qed

lemma runTasks_aborts:
  "i < length queue \<Longrightarrow> fatal (queue ! i) \<Longrightarrow> throws (queue ! i) (worldBefore queue w i) \<Longrightarrow>
   \<forall>j<i. \<not> (fatal (queue ! j) \<and> throws (queue ! j) (worldBefore queue w j)) \<Longrightarrow>
   \<exists>e out'. fst (task (queue ! i) (worldBefore queue w i)) = Inl e \<and>
     runTasks queue (w, out) =
       (Inl e, worldBefore queue w (Suc i),
        out' @ [SpinnerStart (runningMessage (queue ! i))] @
          (case failMessage (queue ! i) of None \<Rightarrow> [] | Some m \<Rightarrow> [SpinnerFail m])) \<and>
     announced out' = announced out @ map runningMessage (take i queue)"
proof (induction queue arbitrary: w out i)
  case Nil
  then show ?case by simp
next
  case (Cons t queue)
  show ?case
  proof (cases i)
    case 0
    with Cons.prems have ft: "fatal t" "throws t w"
      by (simp_all add: worldBefore_0)
    then obtain e where e: "fst (task t w) = Inl e"
      by (auto simp: throws_def split: sum.splits)
    have "runTasks (t # queue) (w, out) =
        (Inl e, settle t w, out @ [SpinnerStart (runningMessage t)] @
          (case failMessage t of None \<Rightarrow> [] | Some m \<Rightarrow> [SpinnerFail m]))"
      using ft e by (simp add: runTasks_step del: runTasks.simps)
    then show ?thesis
      using 0 e by (auto simp: worldBefore_0 worldBefore_def)
  next
    case (Suc k)
    from Cons.prems Suc have first: "\<not> (fatal t \<and> throws t w)"
      by (auto simp: worldBefore_0 dest: spec [of _ 0])
    define out1 where "out1 = out @ [SpinnerStart (runningMessage t)] @
      (case fst (task t w) of
         Inr result \<Rightarrow> (case successMessage t of None \<Rightarrow> [] | Some m \<Rightarrow> [SpinnerSucceed m])
       | Inl e \<Rightarrow> (case failMessage t of None \<Rightarrow> [] | Some m \<Rightarrow> [SpinnerFail m]) @ [Log (message e)])"
    have step: "runTasks (t # queue) (w, out) = runTasks queue (settle t w, out1)"
      using first by (simp only: runTasks_step out1_def if_False)
    have ann: "announced out1 = announced out @ [runningMessage t]"
      by (auto simp: out1_def announced_append split: sum.splits option.splits)
    have k: "k < length queue" "fatal (queue ! k)" "throws (queue ! k) (worldBefore queue (settle t w) k)"
      using Cons.prems Suc by (simp_all add: worldBefore_Suc)
    have earlier: "\<forall>j<k. \<not> (fatal (queue ! j) \<and> throws (queue ! j) (worldBefore queue (settle t w) j))"
    proof (intro allI impI)
      fix j assume "j < k"
      then have "Suc j < i" using Suc by simp
      with Cons.prems(4) have "\<not> (fatal ((t # queue) ! Suc j) \<and>
          throws ((t # queue) ! Suc j) (worldBefore (t # queue) w (Suc j)))"
        by blast
      then show "\<not> (fatal (queue ! j) \<and> throws (queue ! j) (worldBefore queue (settle t w) j))"
        by (simp add: worldBefore_Suc)
    qed
    from Cons.IH [OF k earlier, of out1] obtain e out' where
      "fst (task (queue ! k) (worldBefore queue (settle t w) k)) = Inl e"
      "runTasks queue (settle t w, out1) =
         (Inl e, worldBefore queue (settle t w) (Suc k),
          out' @ [SpinnerStart (runningMessage (queue ! k))] @
            (case failMessage (queue ! k) of None \<Rightarrow> [] | Some m \<Rightarrow> [SpinnerFail m]))"
      "announced out' = announced out1 @ map runningMessage (take k queue)"
      by blast
    then show ?thesis
      using step ann Suc by (auto simp: worldBefore_Suc)
  qed
qed


lemma worldBefore_next:
  "i < length queue \<Longrightarrow> worldBefore queue w (Suc i) = settle (queue ! i) (worldBefore queue w i)"
  by (simp add: worldBefore_def take_Suc_conv_app_nth)

text \<open>
  C2. The executor runs the queue in order. When no task, run in its turn, throws
  while fatal, every task's operation has run once, in the order of the queue (the
  world is the queue folded over the start, the running messages are those of the
  queue in order) and the run ends with the banner: a task that throws with its flag
  set to false does not stop it. When the task at position \<open>i\<close> is the first to throw
  while fatal, the run aborts with that task's error, the world is the one that task
  left and only the tasks up to \<open>i\<close> were announced: no later task runs. A task is
  fatal unless its flag is false, so also when the flag is not given.
\<close>

theorem runQueue_in_order_until_fatal:
  "((\<forall>i<length queue. \<not> (fatal (queue ! i) \<and> throws (queue ! i) (worldBefore queue w i))) \<longrightarrow>
      (\<exists>out. runQueue queue w = (Inr (), foldl (\<lambda>w' t. settle t w') w queue, out @ [Log banner]) \<and>
             announced out = map runningMessage queue)) \<and>
   (i < length queue \<and> fatal (queue ! i) \<and> throws (queue ! i) (worldBefore queue w i) \<and>
    (\<forall>j<i. \<not> (fatal (queue ! j) \<and> throws (queue ! j) (worldBefore queue w j))) \<longrightarrow>
      (\<exists>e out. fst (task (queue ! i) (worldBefore queue w i)) = Inl e \<and>
         runQueue queue w =
           (Inl e, worldBefore queue w (Suc i),
            out @ [SpinnerStart (runningMessage (queue ! i))] @
              (case failMessage (queue ! i) of None \<Rightarrow> [] | Some m \<Rightarrow> [SpinnerFail m])) \<and>
         announced out = map runningMessage (take i queue))) \<and>
   (fatal t \<longleftrightarrow> shouldExitOnError t \<noteq> Some False) \<and>
   worldBefore queue w 0 = w \<and>
   (i < length queue \<longrightarrow> worldBefore queue w (Suc i) = settle (queue ! i) (worldBefore queue w i))"
proof -
  have completes: "\<exists>out. runQueue queue w = (Inr (), foldl (\<lambda>w' t. settle t w') w queue, out @ [Log banner]) \<and>
             announced out = map runningMessage queue"
    if "\<forall>i<length queue. \<not> (fatal (queue ! i) \<and> throws (queue ! i) (worldBefore queue w i))"
    using runTasks_completes [OF that, of "[]"] by (auto simp: runQueue_def)
  have aborts: "\<exists>e out. fst (task (queue ! i) (worldBefore queue w i)) = Inl e \<and>
         runQueue queue w =
           (Inl e, worldBefore queue w (Suc i),
            out @ [SpinnerStart (runningMessage (queue ! i))] @
              (case failMessage (queue ! i) of None \<Rightarrow> [] | Some m \<Rightarrow> [SpinnerFail m])) \<and>
         announced out = map runningMessage (take i queue)"
    if "i < length queue" "fatal (queue ! i)" "throws (queue ! i) (worldBefore queue w i)"
       "\<forall>j<i. \<not> (fatal (queue ! j) \<and> throws (queue ! j) (worldBefore queue w j))"
    using runTasks_aborts [OF that, of "[]"] by (auto simp: runQueue_def)
  have default: "fatal t \<longleftrightarrow> shouldExitOnError t \<noteq> Some False"
    by (auto simp: fatal_def split: option.splits)
  show ?thesis
    using completes aborts default worldBefore_0 [of queue w] worldBefore_next [of i queue w]
    by blast
qed

lemma sampleTask_fields:
  "fatal (sampleTask label succeeds exits) = (exits \<noteq> Some False)"
  "throws (sampleTask label succeeds exits) w = (\<not> succeeds)"
  "settle (sampleTask label succeeds exits) w = w @ [label]"
  "runningMessage (sampleTask label succeeds exits) = label"
  "failMessage (sampleTask label succeeds exits) = None"
  "fst (task (sampleTask label succeeds exits) w) = (if succeeds then Inr (Str label) else Inl (TaskError label))"
  by (auto simp: sampleTask_def fatal_def throws_def settle_def afterCommand_def split: option.splits)

theorem runQueue_in_order_until_fatal_witness:
  "(\<exists>out. runQueue [sampleTask ''one'' True None, sampleTask ''two'' False (Some False),
                      sampleTask ''three'' True None] []
            = (Inr (), [''one'', ''two'', ''three''], out @ [Log banner]) \<and>
          announced out = [''one'', ''two'', ''three'']) \<and>
   (\<exists>out. runQueue [sampleTask ''one'' True None, sampleTask ''two'' False None,
                      sampleTask ''three'' True None] []
            = (Inl (TaskError ''two''), [''one'', ''two''], out @ [SpinnerStart ''two'']) \<and>
          announced out = [''one'']) \<and>
   fatal (sampleTask ''two'' False None) \<and> \<not> fatal (sampleTask ''two'' False (Some False))"
proof -
  let ?q1 = "[sampleTask ''one'' True None, sampleTask ''two'' False (Some False),
              sampleTask ''three'' True None]"
  let ?q2 = "[sampleTask ''one'' True None, sampleTask ''two'' False None,
              sampleTask ''three'' True None]"
  have h1: "\<forall>i<length ?q1. \<not> (fatal (?q1 ! i) \<and> throws (?q1 ! i) (worldBefore ?q1 [] i))"
    by (auto simp: less_Suc_eq sampleTask_fields)
  have c1: "\<exists>out. runQueue ?q1 [] = (Inr (), [''one'', ''two'', ''three''], out @ [Log banner]) \<and>
          announced out = [''one'', ''two'', ''three'']"
  proof -
    have "\<exists>out. runQueue ?q1 [] = (Inr (), foldl (\<lambda>w' t. settle t w') [] ?q1, out @ [Log banner]) \<and>
             announced out = map runningMessage ?q1"
      using runQueue_in_order_until_fatal [of ?q1 "[]" 0 "sampleTask ''one'' True None"] h1 by blast
    then show ?thesis
      by (simp add: sampleTask_fields)
  qed
  have h2: "Suc 0 < length ?q2" "fatal (?q2 ! Suc 0)" "throws (?q2 ! Suc 0) (worldBefore ?q2 [] (Suc 0))"
    "\<forall>j<Suc 0. \<not> (fatal (?q2 ! j) \<and> throws (?q2 ! j) (worldBefore ?q2 [] j))"
    by (simp_all add: sampleTask_fields)
  have w2: "worldBefore ?q2 [] (Suc 0) = [''one'']" "worldBefore ?q2 [] (Suc (Suc 0)) = [''one'', ''two'']"
    by (simp_all add: worldBefore_def sampleTask_fields)
  have c2: "\<exists>out. runQueue ?q2 [] = (Inl (TaskError ''two''), [''one'', ''two''], out @ [SpinnerStart ''two'']) \<and>
          announced out = [''one'']"
  proof -
    have "\<exists>e out. fst (task (?q2 ! Suc 0) (worldBefore ?q2 [] (Suc 0))) = Inl e \<and>
         runQueue ?q2 [] =
           (Inl e, worldBefore ?q2 [] (Suc (Suc 0)),
            out @ [SpinnerStart (runningMessage (?q2 ! Suc 0))] @
              (case failMessage (?q2 ! Suc 0) of None \<Rightarrow> [] | Some m \<Rightarrow> [SpinnerFail m])) \<and>
         announced out = map runningMessage (take (Suc 0) ?q2)"
      using runQueue_in_order_until_fatal [of ?q2 "[]" "Suc 0" "sampleTask ''one'' True None"] h2 by blast
    then show ?thesis
      using w2 by (auto simp: sampleTask_fields)
  qed
  have c3: "fatal (sampleTask ''two'' False None) \<and> \<not> fatal (sampleTask ''two'' False (Some False))"
    using runQueue_in_order_until_fatal [of "[]" "[]" 0 "sampleTask ''two'' False None"]
      runQueue_in_order_until_fatal [of "[]" "[]" 0 "sampleTask ''two'' False (Some False)"]
    by (auto simp: sampleTask_def)
  show ?thesis
    using c1 c2 c3 by blast
qed

section \<open>The callback of a task\<close>

lemma truthy_iff: "truthy v \<longleftrightarrow> v \<notin> {Undefined, Null, Bool False, Num 0, NaN, Str []}"
  by (cases v) auto

lemma runTasks_success:
  "task t w = (Inr result, w') \<Longrightarrow>
   runTasks (t # queue) (w, out) =
     runTasks queue (afterCommand t result w',
       out @ [SpinnerStart (runningMessage t)] @
         (case successMessage t of None \<Rightarrow> [] | Some m \<Rightarrow> [SpinnerSucceed m]))"
  by (simp add: runCommand_cases)

text \<open>
  C4, as amended. When a task's operation returns a value and the task has a callback,
  the loop goes on with the next task in the world the callback leaves when given
  that value, provided the value is truthy; when the value is falsy (undefined, null,
  false, 0, NaN or the empty string) the callback is not invoked and the world is the
  one the operation left.
\<close>

theorem callback_invoked_on_truthy_result:
  "(task t w = (Inr result, w') \<and> callback t = Some cb \<longrightarrow>
      runTasks (t # queue) (w, out) =
        runTasks queue
          (if truthy result then cb result w' else w',
           out @ [SpinnerStart (runningMessage t)] @
             (case successMessage t of None \<Rightarrow> [] | Some m \<Rightarrow> [SpinnerSucceed m]))) \<and>
   (truthy result \<longleftrightarrow> result \<notin> {Undefined, Null, Bool False, Num 0, NaN, Str []})"
proof -
  have "runTasks (t # queue) (w, out) =
        runTasks queue
          (if truthy result then cb result w' else w',
           out @ [SpinnerStart (runningMessage t)] @
             (case successMessage t of None \<Rightarrow> [] | Some m \<Rightarrow> [SpinnerSucceed m]))"
    if "task t w = (Inr result, w')" "callback t = Some cb"
    using runTasks_success [OF that(1), of queue out] that(2)
    by (simp add: afterCommand_def)
  then show ?thesis
    using truthy_iff [of result] by blast
qed

theorem callback_invoked_on_truthy_result_witness:
  "runTasks [reportingTask (Str ''/bin/swanky-node'')] ([], []) =
     (Inr (), [Str ''/bin/swanky-node''], [SpinnerStart ''report'']) \<and>
   runTasks [reportingTask (Str [])] ([], []) = (Inr (), [], [SpinnerStart ''report'']) \<and>
   truthy (Str ''/bin/swanky-node'') \<and> \<not> truthy (Str [])"
proof -
  have t: "task (reportingTask v) [] = (Inr v, [])"
    "callback (reportingTask v) = Some (\<lambda>received w. w @ [received])" for v
    by (simp_all add: reportingTask_def)
  have m: "runningMessage (reportingTask v) = ''report''" "successMessage (reportingTask v) = None" for v
    by (simp_all add: reportingTask_def)
  have a: "runTasks [reportingTask (Str ''/bin/swanky-node'')] ([], []) =
     (Inr (), [Str ''/bin/swanky-node''], [SpinnerStart ''report''])"
    using callback_invoked_on_truthy_result [of "reportingTask (Str ''/bin/swanky-node'')" "[]"
        "Str ''/bin/swanky-node''" "[]" "\<lambda>received w. w @ [received]" "[]" "[]"] t m
    by (simp del: runTasks.simps(2))
  have b: "runTasks [reportingTask (Str [])] ([], []) = (Inr (), [], [SpinnerStart ''report''])"
    using callback_invoked_on_truthy_result [of "reportingTask (Str [])" "[]"
        "Str []" "[]" "\<lambda>received w. w @ [received]" "[]" "[]"] t m
    by (simp del: runTasks.simps(2))
  show ?thesis
    using a b by simp
qed

text \<open>
  C4 as stated fails: a task that succeeds with the value undefined has its callback
  skipped.
\<close>

theorem callback_skipped_on_falsy_result:
  "\<not> (\<forall>(t :: jsval list Task) w result w' cb out.
        task t w = (Inr result, w') \<and> callback t = Some cb \<longrightarrow>
        fst (snd (runTasks [t] (w, out))) = cb result w')"
proof
  assume claim: "\<forall>(t :: jsval list Task) w result w' cb out.
        task t w = (Inr result, w') \<and> callback t = Some cb \<longrightarrow>
        fst (snd (runTasks [t] (w, out))) = cb result w'"
  have "task (reportingTask Undefined) [] = (Inr Undefined, [])"
    "callback (reportingTask Undefined) = Some (\<lambda>received w. w @ [received])"
    by (simp_all add: reportingTask_def)
  with claim have "fst (snd (runTasks [reportingTask Undefined] ([], []))) = [Undefined]"
    by fastforce
  moreover have "fst (snd (runTasks [reportingTask Undefined] ([], []))) = []"
    by (simp add: runCommand_def reportingTask_def afterCommand_def)
  ultimately show False by simp
qed

text \<open>
  The callback that \<^verbatim>\<open>convert\<close> registers is one the loop never invokes:
  \<^verbatim>\<open>copyWorkspaceContracts\<close> returns nothing.
\<close>

lemma copyWorkspaceContracts_disk_only:
  "\<exists>outcome fs'. copyWorkspaceContracts wd lib copyList projectPath w = (outcome, w\<lparr>disk := fs'\<rparr>) \<and>
     (outcome = Inr Undefined \<or> (\<exists>e. outcome = Inl e))"
proof (cases "copyGroups wd lib copyList projectPath [''contracts'', ''crates'', ''tests''] (disk w)")
  case (Pair outcome fs')
  then show ?thesis
    by (cases outcome)
       (auto simp add: copyWorkspaceContracts_def simp del: copyGroups.simps intro!: exI [of _ fs'])
qed

lemma copyContractsTask_never_reports:
  "console (settle (copyContractsTask wd lib copyList projectPath) w) = console w"
proof -
  from copyWorkspaceContracts_disk_only [of wd lib copyList projectPath w] obtain outcome fs' where
    "copyWorkspaceContracts wd lib copyList projectPath w = (outcome, w\<lparr>disk := fs'\<rparr>)"
    "outcome = Inr Undefined \<or> (\<exists>e. outcome = Inl e)"
    by blast
  then show ?thesis
    by (auto simp: settle_def copyContractsTask_def afterCommand_def)
qed

section \<open>The check of the project directory\<close>

lemma checkProjectDir_nonempty:
  "fs projectPath = Some (Dir (f # files)) \<Longrightarrow>
   checkProjectDir lib fs projectPath projName =
     (if includes_str (''Directory '' @ yellowBright lib projName @ '' is not empty!'') ''ENOENT''
      then Inr ()
      else Inl (UnknownError ''Unexpected error''
             (Some (InputError (''Directory '' @ yellowBright lib projName @ '' is not empty!'') None))))"
  by (simp add: checkProjectDir_def)

lemma run_nonempty_directory:
  assumes "fs (resolve (cwd cmd) [projectName cmd]) = Some (Dir (f # files))"
    and "\<not> includes_str (''Directory '' @ yellowBright lib (projectName cmd) @ '' is not empty!'') ''ENOENT''"
  shows "run lib ext cmd ans fs =
     (Inl (UnknownError ''Unexpected error''
        (Some (InputError (''Directory '' @ yellowBright lib (projectName cmd) @ '' is not empty!'') None))),
      initialWorld ext fs, [])"
  using assms by (simp add: run_def checkProjectDir_nonempty)

text \<open>
  C7, on the code. The project directory \<^verbatim>\<open>/work/proj\<close> exists and holds one file.
  The run fails before any task is started, but the error it fails with is the
  \<^verbatim>\<open>UnknownError\<close> "Unexpected error": the \<^verbatim>\<open>InputError\<close> is thrown inside the
  \<^verbatim>\<open>try\<close> block, whose \<^verbatim>\<open>catch\<close> wraps it, and is only the cause. When the
  project is named \<^verbatim>\<open>ENOENT\<close> the same \<^verbatim>\<open>catch\<close> takes the message of the
  \<^verbatim>\<open>InputError\<close> for a missing directory, and the run goes on into the non-empty
  directory and runs every task.
\<close>

theorem run_wraps_the_InputError:
  "fst (run sampleLibraries sampleCollaborators sampleGenerate sampleAnswers
          (map_of [(''/work/proj'', Dir [''README.md''])]))
     = Inl (UnknownError ''Unexpected error'' (Some (InputError ''Directory proj is not empty!'' None))) \<and>
   snd (snd (run sampleLibraries sampleCollaborators sampleGenerate sampleAnswers
          (map_of [(''/work/proj'', Dir [''README.md''])]))) = [] \<and>
   fst (run sampleLibraries sampleCollaborators (sampleGenerate\<lparr>projectName := ''ENOENT''\<rparr>) sampleAnswers
          (map_of [(''/work/ENOENT'', Dir [''README.md''])]))
     = Inr () \<and>
   announced (snd (snd (run sampleLibraries sampleCollaborators (sampleGenerate\<lparr>projectName := ''ENOENT''\<rparr>)
          sampleAnswers (map_of [(''/work/ENOENT'', Dir [''README.md''])]))))
     = [''Copying common template files'', ''Checking dependencies'', ''Copying contract template files'',
        ''Processing templates'', ''Installing dependencies'', ''Initializing git'',
        ''Downloading Swanky node'', ''Writing config'']"
  by code_simp

section \<open>The configuration is written once, last, with its contracts\<close>






































text \<open>
  The order of the keys of the contracts, and the key that is none: contracts named
  \<^verbatim>\<open>b\<close>, \<^verbatim>\<open>10\<close>, \<^verbatim>\<open>__proto__\<close>, \<^verbatim>\<open>9\<close> and \<^verbatim>\<open>b\<close> again leave the keys
  \<^verbatim>\<open>9\<close>, \<^verbatim>\<open>10\<close> and \<^verbatim>\<open>b\<close>, in this order, and the second \<^verbatim>\<open>b\<close> has replaced
  the first.
\<close>

lemma addContract_example:
  "foldl addContract []
     [\<lparr>isDirectory = True, name = ''b'', path = ''/s/b'', moduleName = Some (Str ''one''), group = None\<rparr>,
      \<lparr>isDirectory = True, name = ''10'', path = ''/s/10'', moduleName = None, group = None\<rparr>,
      \<lparr>isDirectory = True, name = ''__proto__'', path = ''/s/__proto__'', moduleName = None, group = None\<rparr>,
      \<lparr>isDirectory = True, name = ''9'', path = ''/s/9'', moduleName = None, group = None\<rparr>,
      \<lparr>isDirectory = True, name = ''b'', path = ''/t/b'', moduleName = Some (Str ''two''), group = None\<rparr>]
   = [(''9'', ContractData ''9'' None []),
      (''10'', ContractData ''10'' None []),
      (''b'', ContractData ''b'' (Some (Str ''two'')) [])]"
  by code_simp

section \<open>The stages on a store: what they return and what they change\<close>

text \<open>
  First the frame of each operation on the store: which cells it may change. Then the
  stages on the store against the stages on values: on a store where the reference
  holds a candidate set, a stage returns, and what it returns stands for the value
  that the stage on values gives.
\<close>

lemma push_frame:
  assumes "push a i s = Some s'"
  shows "length s' = length s" and "n \<le> a \<Longrightarrow> take n s' = take n s"
    and "r \<noteq> a \<Longrightarrow> s' ! r = s ! r"
  using assms by (auto simp: push_def split: option.splits)

lemma push_fetch_other: "push a i s = Some s' \<Longrightarrow> r \<noteq> a \<Longrightarrow> fetch s' r = fetch s r"
  by (auto simp: push_def fetch_def split: option.splits)

lemma resolveInto_frame:
  "resolveInto wd parse fs target rs s = Some (outcome, s') \<Longrightarrow> n \<le> target \<Longrightarrow> n \<le> length s \<Longrightarrow>
   length s \<le> length s' \<and> take n s' = take n s"
proof (induction rs arbitrary: s)
  case Nil
  then show ?case by simp
next
  case (Cons r rs)
  from Cons.prems(1) obtain entry where entry: "entryAt s r = Some entry"
    by (auto split: option.splits)
  show ?case
  proof (cases "resolveModuleName wd parse fs entry")
    case (Inl e)
    with Cons.prems(1) entry show ?thesis by simp
  next
    case (Inr res)
    obtain extendedEntry lines where res: "res = (extendedEntry, lines)" by (cases res)
    from Cons.prems(1) entry Inr res obtain s2 where
      s2: "push target (length s) (s @ [EntryObject extendedEntry]) = Some s2" and
      rest: "resolveInto wd parse fs target rs s2 = Some (outcome, s')"
      by (auto simp: allocate_def split: option.splits)
    from push_frame [OF s2] Cons.prems(2,3) have
      len: "length s2 = Suc (length s)" and keep: "take n s2 = take n s"
      by simp_all
    from Cons.IH [OF rest Cons.prems(2)] len keep Cons.prems(3) show ?thesis
      by simp
  qed
qed

lemma detectModuleNamesS_frame:
  assumes "detectModuleNamesS wd parse fs a s = Some (outcome, s')"
  shows "length s \<le> length s' \<and> take (length s) s' = s \<and>
     (\<forall>res. outcome = Inr res \<longrightarrow> res = length s + 3)"
proof -
  from assms obtain c k t where a: "fetch s a = Some (CandidatesObject c k t)"
    by (auto simp: detectModuleNamesS_def split: option.splits object.splits)
  from assms a obtain ts where ts: "(case t of None \<Rightarrow> Some [] | Some tr \<Rightarrow> elements s tr) = Some ts"
    by (auto simp: detectModuleNamesS_def split: option.splits Option.bind_splits)
  define s4 where "s4 = s @ [ArrayObject [], ArrayObject [], ArrayObject ts,
      CandidatesObject (length s) (length s + 1) (Some (length s + 2))]"
  from assms a ts obtain cs o1 s5 where
    cs: "elements s4 c = Some cs" and
    r1: "resolveInto wd parse fs (length s) cs s4 = Some (o1, s5)"
    by (auto simp: detectModuleNamesS_def allocate_def s4_def split: Option.bind_splits)
  from resolveInto_frame [OF r1, of "length s"] have f5: "length s4 \<le> length s5" "take (length s) s5 = s"
    by (simp_all add: s4_def)
  show ?thesis
  proof (cases o1)
    case (Inl e)
    with assms a ts cs r1 have "outcome = Inl e" "s' = s5"
      by (auto simp: detectModuleNamesS_def allocate_def s4_def split: Option.bind_splits)
    with f5 show ?thesis by (simp add: s4_def)
  next
    case (Inr u)
    with assms a ts cs r1 obtain ks o2 where
      r2: "resolveInto wd parse fs (length s + 1) ks s5 = Some (o2, s')" and
      out: "outcome = (case o2 of Inl e \<Rightarrow> Inl e | Inr u' \<Rightarrow> Inr (length s + 3))"
      by (auto simp: detectModuleNamesS_def allocate_def s4_def split: Option.bind_splits sum.splits)
    from resolveInto_frame [OF r2, of "length s"] f5 have "length s5 \<le> length s'" "take (length s) s' = s"
      by (simp_all add: s4_def)
    with f5 out show ?thesis
      by (auto simp: s4_def split: sum.splits)
  qed
qed


lemma allocateChoices_extends:
  "allocateChoices g rs s = Some (choices, s') \<Longrightarrow>
   \<exists>objs. s' = s @ objs \<and> choices = [length s..<length s'] \<and>
     (\<forall>obj\<in>set objs. \<exists>entry. obj = EntryObject (withGroup g entry))"
proof (induction rs arbitrary: s choices)
  case Nil
  then show ?case by simp
next
  case (Cons r rs)
  from Cons.prems obtain entry choices' where
    entry: "entryAt s r = Some entry" and
    rest: "allocateChoices g rs (s @ [EntryObject (withGroup g entry)]) = Some (choices', s')" and
    choices: "choices = length s # choices'"
    by (auto simp: allocate_def split: option.splits)
  from Cons.IH [OF rest] obtain objs where ih:
    "s' = (s @ [EntryObject (withGroup g entry)]) @ objs"
    "choices' = [Suc (length s)..<length s']"
    "\<forall>obj\<in>set objs. \<exists>entry. obj = EntryObject (withGroup g entry)"
    by auto
  have "length s < length s'"
    by (simp add: ih(1))
  then have "[length s..<length s'] = length s # [Suc (length s)..<length s']"
    by (rule upt_conv_Cons)
  with ih choices have "s' = s @ (EntryObject (withGroup g entry) # objs) \<and>
      choices = [length s..<length s'] \<and>
      (\<forall>obj\<in>set (EntryObject (withGroup g entry) # objs). \<exists>entry. obj = EntryObject (withGroup g entry))"
    by auto
  then show ?case by blast
qed

lemma elements_fetch: "elements s x = Some items \<Longrightarrow> fetch s x = Some (ArrayObject items)"
  by (cases "fetch s x") (auto simp: elements_def split: object.splits)

lemma push_target_array: "push x item s = Some s' \<Longrightarrow> \<exists>items. fetch s x = Some (ArrayObject items)"
  by (cases "elements s x") (auto simp: push_def dest: elements_fetch)

lemma pushByGroup_frame:
  assumes "fetch s res = Some (CandidatesObject c k t)" and "pushByGroup res item s = Some s'"
  shows "length s' = length s"
    and "r \<noteq> c \<Longrightarrow> r \<noteq> k \<Longrightarrow> t \<noteq> Some r \<Longrightarrow> s' ! r = s ! r"
    and "fetch s' res = Some (CandidatesObject c k t)"
proof -
  have cell: "push x item s = Some s' \<Longrightarrow> x \<noteq> res" for x
    using assms(1) push_target_array [of x item s s'] by auto
  from assms obtain entry where entry: "entryAt s item = Some entry"
    by (auto simp: pushByGroup_def split: option.splits)
  have unfolded: "pushByGroup res item s =
      (if group entry = Some ''contracts'' then push c item s
       else if group entry = Some ''crates'' then push k item s
       else if group entry = Some ''tests''
       then (case t of None \<Rightarrow> Some s | Some tr \<Rightarrow> push tr item s)
       else Some s)"
    using assms(1) entry by (simp add: pushByGroup_def)
  have "push c item s = Some s' \<or> push k item s = Some s' \<or>
      (\<exists>tr. t = Some tr \<and> push tr item s = Some s') \<or> s' = s"
  proof (cases "group entry = Some ''contracts''")
    case True
    with unfolded assms(2) show ?thesis by simp
  next
    case notc: False
    show ?thesis
    proof (cases "group entry = Some ''crates''")
      case True
      with unfolded assms(2) notc show ?thesis by simp
    next
      case notk: False
      show ?thesis
      proof (cases "group entry = Some ''tests''")
        case True
        with unfolded assms(2) notc notk show ?thesis by (cases t) simp_all
      next
        case False
        with unfolded assms(2) notc notk show ?thesis by simp
      qed
    qed
  qed
  then consider
    "push c item s = Some s'" | "push k item s = Some s'" | "\<exists>tr. t = Some tr \<and> push tr item s = Some s'" | "s' = s"
    by blast
  then have "length s' = length s \<and> (r \<noteq> c \<longrightarrow> r \<noteq> k \<longrightarrow> t \<noteq> Some r \<longrightarrow> s' ! r = s ! r) \<and>
      fetch s' res = Some (CandidatesObject c k t)"
  proof cases
    case 1
    then show ?thesis
      using push_frame [OF 1] push_fetch_other [OF 1, of res] cell [OF 1] assms(1) by auto
  next
    case 2
    then show ?thesis
      using push_frame [OF 2] push_fetch_other [OF 2, of res] cell [OF 2] assms(1) by auto
  next
    case 3
    then obtain tr where tr: "t = Some tr" "push tr item s = Some s'" by blast
    then show ?thesis
      using push_frame [OF tr(2)] push_fetch_other [OF tr(2), of res] cell [OF tr(2)] assms(1) by auto
  next
    case 4
    then show ?thesis using assms(1) by simp
  qed
  then show "length s' = length s"
    and "r \<noteq> c \<Longrightarrow> r \<noteq> k \<Longrightarrow> t \<noteq> Some r \<Longrightarrow> s' ! r = s ! r"
    and "fetch s' res = Some (CandidatesObject c k t)"
    by simp_all
qed

lemma pushAll_frame:
  "fetch s res = Some (CandidatesObject c k t) \<Longrightarrow> pushAll res items s = Some s' \<Longrightarrow>
   length s' = length s \<and> (\<forall>r. r \<noteq> c \<longrightarrow> r \<noteq> k \<longrightarrow> t \<noteq> Some r \<longrightarrow> s' ! r = s ! r) \<and>
   fetch s' res = Some (CandidatesObject c k t)"
proof (induction items arbitrary: s)
  case Nil
  then show ?case by simp
next
  case (Cons item items)
  from Cons.prems(2) obtain s1 where
    s1: "pushByGroup res item s = Some s1" and rest: "pushAll res items s1 = Some s'"
    by (auto split: option.splits)
  note f = pushByGroup_frame [OF Cons.prems(1) s1]
  from Cons.IH [OF f(3) rest] f(1,2) show ?case
    by auto
qed

lemma ensureTests_cases:
  assumes "ensureTests a s = Some (tr, s1)"
  obtains c k where "fetch s a = Some (CandidatesObject c k (Some tr))" "s1 = s"
  | c k where "fetch s a = Some (CandidatesObject c k None)" "tr = length s"
      "s1 = (s @ [ArrayObject []])[a := CandidatesObject c k (Some (length s))]"
  using assms
  by (auto simp: ensureTests_def allocate_def split: option.splits object.splits)

lemma confirmCopyListS_frame:
  assumes "confirmCopyListS sel a s = Some (res, s')"
  shows "length s < length s' \<and> length s \<le> res \<and> res < length s' \<and>
     (\<forall>r<length s. r \<noteq> a \<longrightarrow> s' ! r = s ! r) \<and>
     (\<forall>c k tr. fetch s a = Some (CandidatesObject c k (Some tr)) \<longrightarrow> take (length s) s' = s) \<and>
     (\<forall>c k. fetch s a = Some (CandidatesObject c k None) \<longrightarrow>
        s' ! a = CandidatesObject c k (Some (length s)) \<and> s' ! length s = ArrayObject [])"
proof -
  from assms obtain tr s1 where e: "ensureTests a s = Some (tr, s1)"
    by (auto simp: confirmCopyListS_def split: Option.bind_splits)
  from assms e obtain c k t cs cc s2 ks kc s3 ts tc s4 where
    a1: "fetch s1 a = Some (CandidatesObject c k t)" and
    c2: "allocateChoices ''contracts'' cs s1 = Some (cc, s2)" and
    c3: "allocateChoices ''crates'' ks s2 = Some (kc, s3)" and
    c4: "allocateChoices ''tests'' ts s3 = Some (tc, s4)" and
    p: "pushAll (fst (emptyCandidates s4)) (checkbox sel (cc @ kc @ tc)) (snd (emptyCandidates s4)) = Some s'" and
    res: "res = fst (emptyCandidates s4)"
    by (auto simp: confirmCopyListS_def split: Option.bind_splits option.splits object.splits prod.splits)
  define s5 where "s5 = s4 @ [ArrayObject [], ArrayObject [], ArrayObject [],
      CandidatesObject (length s4) (length s4 + 1) (Some (length s4 + 2))]"
  have empty: "emptyCandidates s4 = (length s4 + 3, s5)"
    by (simp add: emptyCandidates_def allocate_def s5_def)
  have f5: "fetch s5 (length s4 + 3) = Some (CandidatesObject (length s4) (length s4 + 1) (Some (length s4 + 2)))"
    by (simp add: fetch_def s5_def nth_append)
  from p empty have p': "pushAll (length s4 + 3) (checkbox sel (cc @ kc @ tc)) s5 = Some s'"
    by simp
  note pf = pushAll_frame [OF f5 p']
  from allocateChoices_extends [OF c2] obtain o2 where o2: "s2 = s1 @ o2" by blast
  from allocateChoices_extends [OF c3] obtain o3 where o3: "s3 = s2 @ o3" by blast
  from allocateChoices_extends [OF c4] obtain o4 where o4: "s4 = s3 @ o4" by blast
  have l14: "length s1 \<le> length s4" by (simp add: o2 o3 o4)
  have t14: "r < length s1 \<Longrightarrow> s4 ! r = s1 ! r" for r
    by (simp add: o2 o3 o4 nth_append)
  have below: "s' ! r = s1 ! r" if "r < length s1" for r
  proof -
    from that l14 have "s' ! r = s5 ! r" using pf by auto
    also from that l14 have "\<dots> = s4 ! r" by (simp add: s5_def nth_append)
    finally show ?thesis using that by (simp add: t14)
  qed
  have len: "length s' = length s4 + 4" using pf by (simp add: s5_def)
  from e show ?thesis
  proof (cases rule: ensureTests_cases)
    case (1 c' k')
    have "take (length s) s' = s"
      using below 1 l14 len by (intro nth_equalityI) simp_all
    with 1 l14 len res empty show ?thesis
      using below by (auto simp: fetch_def split: if_splits)
  next
    case (2 c' k')
    from 2(1) have a: "a < length s" by (auto simp: fetch_def split: if_splits)
    have l1: "length s1 = Suc (length s)" by (simp add: 2)
    have "s' ! r = s ! r" if "r < length s" "r \<noteq> a" for r
      using below [of r] that l1 by (simp add: 2 nth_append)
    moreover have "s' ! a = CandidatesObject c' k' (Some (length s))"
      using below [of a] a l1 by (simp add: 2)
    moreover have "s' ! length s = ArrayObject []"
      using below [of "length s"] a l1 by (simp add: 2)
    ultimately show ?thesis
      using 2 l14 l1 len res empty by auto
  qed
qed

lemma those_eq_Some: "those xs = Some ys \<longleftrightarrow> xs = map Some ys"
proof (induction xs arbitrary: ys)
  case Nil
  then show ?case by auto
next
  case (Cons x xs)
  then show ?case
    by (cases x; cases ys) (auto split: option.splits)
qed

lemma entriesAt_iff:
  "entriesAt s r = Some es \<longleftrightarrow> (\<exists>items. elements s r = Some items \<and> map (entryAt s) items = map Some es)"
  by (cases "elements s r") (simp_all add: entriesAt_def those_eq_Some)

lemma fetch_append: "fetch s r = Some obj \<Longrightarrow> fetch (s @ objs) r = Some obj"
  by (auto simp: fetch_def nth_append split: if_splits)

lemma entryAt_append: "entryAt s r = Some e \<Longrightarrow> entryAt (s @ objs) r = Some e"
  by (cases "fetch s r") (simp_all add: entryAt_def fetch_append)

lemma elements_append: "elements s r = Some items \<Longrightarrow> elements (s @ objs) r = Some items"
  by (cases "fetch s r") (simp_all add: elements_def fetch_append)

lemma map_entryAt_append:
  "map (entryAt s) items = map Some es \<Longrightarrow> map (entryAt (s @ objs)) items = map Some es"
proof (induction items arbitrary: es)
  case Nil
  then show ?case by simp
next
  case (Cons r items)
  then show ?case by (cases es) (auto dest: entryAt_append)
qed

lemma entriesAt_append: "entriesAt s r = Some es \<Longrightarrow> entriesAt (s @ objs) r = Some es"
  unfolding entriesAt_iff by (blast dest: elements_append map_entryAt_append)

lemma entryAt_new: "entryAt (s @ [EntryObject e]) (length s) = Some e"
  by (simp add: entryAt_def fetch_def)

lemma fetch_update:
  "fetch (s[x := obj]) r = (if r = x \<and> x < length s then Some obj else fetch s r)"
  by (auto simp: fetch_def)

lemma entryAt_update_array:
  "fetch s x = Some (ArrayObject old) \<Longrightarrow> entryAt (s[x := ArrayObject new]) r = entryAt s r"
  by (auto simp: entryAt_def fetch_update)

lemma elements_update_array:
  "fetch s x = Some (ArrayObject old) \<Longrightarrow>
   elements (s[x := ArrayObject new]) r = (if r = x then Some new else elements s r)"
  by (auto simp: elements_def fetch_update fetch_def split: if_splits)

lemma push_refines:
  assumes "entriesAt s x = Some es" and "entryAt s item = Some e"
  shows "\<exists>s'. push x item s = Some s' \<and> entriesAt s' x = Some (es @ [e]) \<and> length s' = length s \<and>
      (\<forall>r. entryAt s' r = entryAt s r) \<and> (\<forall>r. r \<noteq> x \<longrightarrow> fetch s' r = fetch s r) \<and>
      (\<forall>r. r \<noteq> x \<longrightarrow> entriesAt s' r = entriesAt s r)"
proof -
  from assms(1) obtain items where items: "elements s x = Some items" "map (entryAt s) items = map Some es"
    unfolding entriesAt_iff by blast
  note cell = elements_fetch [OF items(1)]
  define s' where "s' = s[x := ArrayObject (items @ [item])]"
  have p: "push x item s = Some s'"
    by (simp add: push_def items s'_def)
  have ent: "entryAt s' = entryAt s"
    unfolding s'_def by (rule ext) (rule entryAt_update_array [OF cell])
  have el: "elements s' r = (if r = x then Some (items @ [item]) else elements s r)" for r
    unfolding s'_def by (rule elements_update_array [OF cell])
  have "entriesAt s' x = Some (es @ [e])"
    unfolding entriesAt_iff using el [of x] items(2) assms(2) by (simp add: ent)
  moreover have "entriesAt s' r = entriesAt s r" if "r \<noteq> x" for r
    using that el [of r] by (simp add: entriesAt_def ent)
  moreover have "fetch s' r = fetch s r" if "r \<noteq> x" for r
    using that by (simp add: s'_def fetch_update)
  ultimately show ?thesis
    using p ent by (auto simp: s'_def)
qed


lemma entryAt_fetch: "entryAt s r = Some e \<longleftrightarrow> fetch s r = Some (EntryObject e)"
  by (cases "fetch s r") (auto simp: entryAt_def split: object.splits)

lemma elements_fetch_iff: "elements s r = Some items \<longleftrightarrow> fetch s r = Some (ArrayObject items)"
  by (cases "fetch s r") (auto simp: elements_def split: object.splits)

text \<open>What a store keeps of another, but for one array.\<close>

lemma kept_entries:
  assumes kept: "\<forall>r obj. r \<noteq> x \<longrightarrow> fetch s r = Some obj \<longrightarrow> fetch s' r = Some obj"
    and x: "fetch s x = Some (ArrayObject old)"
  shows "entryAt s r = Some e \<Longrightarrow> entryAt s' r = Some e"
    and "map (entryAt s) items = map Some es \<Longrightarrow> map (entryAt s') items = map Some es"
    and "r \<noteq> x \<Longrightarrow> entriesAt s r = Some es \<Longrightarrow> entriesAt s' r = Some es"
proof -
  show e: "entryAt s r = Some e \<Longrightarrow> entryAt s' r = Some e" for r e
    using kept x unfolding entryAt_fetch by (cases "r = x") auto
  show m: "map (entryAt s) items = map Some es \<Longrightarrow> map (entryAt s') items = map Some es" for items es
  proof (induction items arbitrary: es)
    case Nil
    then show ?case by simp
  next
    case (Cons i items)
    then show ?case by (cases es) (auto dest: e)
  qed
  show "r \<noteq> x \<Longrightarrow> entriesAt s r = Some es \<Longrightarrow> entriesAt s' r = Some es"
    unfolding entriesAt_iff elements_fetch_iff using kept m by blast
qed

lemma resolveInto_refines:
  assumes "map (entryAt s) rs = map Some es" and "entriesAt s target = Some finished"
    and "resolveGroup wd parse fs es = Inr (es', msgs)"
  shows "\<exists>s'. resolveInto wd parse fs target rs s = Some (Inr (), s') \<and>
      entriesAt s' target = Some (finished @ es') \<and>
      (\<forall>r obj. r \<noteq> target \<longrightarrow> fetch s r = Some obj \<longrightarrow> fetch s' r = Some obj)"
  using assms
proof (induction rs arbitrary: s es es' msgs finished)
  case Nil
  then show ?case by simp
next
  case (Cons r rs)
  from Cons.prems(1) obtain e es0 where es: "es = e # es0" and
    e: "entryAt s r = Some e" and rest: "map (entryAt s) rs = map Some es0"
    by (cases es) auto
  from Cons.prems(3) es obtain x p xs ps where
    x: "resolveModuleName wd parse fs e = Inr (x, p)" and
    xs: "resolveGroup wd parse fs es0 = Inr (xs, ps)" and es': "es' = x # xs"
    by (auto simp: and_then_def split: sum.splits prod.splits)
  define s1 where "s1 = s @ [EntryObject x]"
  have t1: "entriesAt s1 target = Some finished"
    unfolding s1_def by (rule entriesAt_append [OF Cons.prems(2)])
  have n1: "entryAt s1 (length s) = Some x"
    unfolding s1_def by (rule entryAt_new)
  from push_refines [OF t1 n1] obtain s2 where s2:
    "push target (length s) s1 = Some s2" "entriesAt s2 target = Some (finished @ [x])"
    "\<forall>r. entryAt s2 r = entryAt s1 r" "\<forall>r. r \<noteq> target \<longrightarrow> fetch s2 r = fetch s1 r"
    by blast
  from s2(3) have "entryAt s2 = entryAt s1" by (simp add: fun_eq_iff)
  then have r2: "map (entryAt s2) rs = map Some es0"
    using map_entryAt_append [OF rest, of "[EntryObject x]"] by (simp add: s1_def)
  from Cons.IH [OF r2 s2(2) xs] obtain s' where s':
    "resolveInto wd parse fs target rs s2 = Some (Inr (), s')"
    "entriesAt s' target = Some ((finished @ [x]) @ xs)"
    "\<forall>r obj. r \<noteq> target \<longrightarrow> fetch s2 r = Some obj \<longrightarrow> fetch s' r = Some obj"
    by blast
  have run: "resolveInto wd parse fs target (r # rs) s = Some (Inr (), s')"
    using e x s2(1) s'(1) by (simp add: allocate_def s1_def)
  have kept: "fetch s' q = Some obj" if "q \<noteq> target" "fetch s q = Some obj" for q obj
  proof -
    from that(2) have "fetch s1 q = Some obj"
      unfolding s1_def by (rule fetch_append)
    with s2(4) that(1) have "fetch s2 q = Some obj" by simp
    with s'(3) that(1) show ?thesis by blast
  qed
  show ?case
    using run s'(2) kept es' by auto
qed

lemma candidatesAt_cases:
  assumes "candidatesAt s a = Some cand"
  obtains c k t where "fetch s a = Some (CandidatesObject c k t)"
    "entriesAt s c = Some (contracts cand)" "entriesAt s k = Some (crates cand)"
    "case t of None \<Rightarrow> tests cand = None | Some tr \<Rightarrow> (\<exists>ts. entriesAt s tr = Some ts \<and> tests cand = Some ts)"
  using assms
  by (auto simp: candidatesAt_def split: option.splits object.splits Option.bind_splits)

lemma detectModuleNamesS_refines:
  assumes "candidatesAt s a = Some cand" and "detectModuleNames wd parse fs cand = Inr (result, msgs)"
  shows "\<exists>s'. detectModuleNamesS wd parse fs a s = Some (Inr (length s + 3), s') \<and>
      candidatesAt s' (length s + 3) = Some result \<and>
      fetch s' (length s + 3) =
        Some (CandidatesObject (length s) (length s + 1) (Some (length s + 2)))"
proof -
  from assms(1) obtain c k t where a: "fetch s a = Some (CandidatesObject c k t)" and
    c: "entriesAt s c = Some (contracts cand)" and k: "entriesAt s k = Some (crates cand)" and
    t: "case t of None \<Rightarrow> tests cand = None | Some tr \<Rightarrow> (\<exists>ts. entriesAt s tr = Some ts \<and> tests cand = Some ts)"
    by (rule candidatesAt_cases)
  from assms(2) obtain cs p1 ks p2 where
    cs: "resolveGroup wd parse fs (contracts cand) = Inr (cs, p1)" and
    ks: "resolveGroup wd parse fs (crates cand) = Inr (ks, p2)" and
    result: "result = \<lparr>contracts = cs, crates = ks,
               tests = Some (case tests cand of None \<Rightarrow> [] | Some ts \<Rightarrow> ts)\<rparr>"
    by (auto simp: detectModuleNames_def and_then_def split: sum.splits prod.splits)
  from t obtain trefs where trefs:
    "(case t of None \<Rightarrow> Some [] | Some tr \<Rightarrow> elements s tr) = Some trefs"
    "map (entryAt s) trefs = map Some (case tests cand of None \<Rightarrow> [] | Some ts \<Rightarrow> ts)"
    by (cases t) (auto simp: entriesAt_iff)
  from c obtain crefs where crefs: "elements s c = Some crefs" "map (entryAt s) crefs = map Some (contracts cand)"
    unfolding entriesAt_iff by blast
  from k obtain krefs where krefs: "elements s k = Some krefs" "map (entryAt s) krefs = map Some (crates cand)"
    unfolding entriesAt_iff by blast
  let ?n = "length s"
  define s4 where "s4 = s @ [ArrayObject [], ArrayObject [], ArrayObject trefs,
      CandidatesObject ?n (?n + 1) (Some (?n + 2))]"
  have f4: "fetch s4 ?n = Some (ArrayObject [])" "fetch s4 (?n + 1) = Some (ArrayObject [])"
    "fetch s4 (?n + 2) = Some (ArrayObject trefs)"
    "fetch s4 (?n + 3) = Some (CandidatesObject ?n (?n + 1) (Some (?n + 2)))"
    by (simp_all add: fetch_def s4_def nth_append)
  have "entriesAt s4 ?n = Some []"
    unfolding entriesAt_iff elements_fetch_iff using f4(1) by simp
  moreover have c4: "map (entryAt s4) crefs = map Some (contracts cand)"
    unfolding s4_def by (rule map_entryAt_append [OF crefs(2)])
  ultimately obtain s5 where s5:
    "resolveInto wd parse fs ?n crefs s4 = Some (Inr (), s5)"
    "entriesAt s5 ?n = Some ([] @ cs)"
    "\<forall>r obj. r \<noteq> ?n \<longrightarrow> fetch s4 r = Some obj \<longrightarrow> fetch s5 r = Some obj"
    using resolveInto_refines [OF _ _ cs, of s4 crefs ?n "[]"] by blast
  note k5 = kept_entries [OF s5(3) f4(1)]
  have e4: "elements s4 c = Some crefs" "elements s4 k = Some krefs"
    unfolding s4_def by (rule elements_append [OF crefs(1)], rule elements_append [OF krefs(1)])
  have kn: "k \<noteq> ?n" using krefs(1) by (auto simp: elements_def fetch_def split: if_splits)
  have e5: "elements s5 k = Some krefs"
    using e4(2) s5(3) kn unfolding elements_fetch_iff by blast
  have f5: "fetch s5 (?n + 1) = Some (ArrayObject [])" "fetch s5 (?n + 2) = Some (ArrayObject trefs)"
    "fetch s5 (?n + 3) = Some (CandidatesObject ?n (?n + 1) (Some (?n + 2)))"
    using f4 s5(3) by simp_all
  have m4: "map (entryAt s4) krefs = map Some (crates cand)"
    "map (entryAt s4) trefs = map Some (case tests cand of None \<Rightarrow> [] | Some ts \<Rightarrow> ts)"
    unfolding s4_def by (rule map_entryAt_append [OF krefs(2)], rule map_entryAt_append [OF trefs(2)])
  have m5: "map (entryAt s5) krefs = map Some (crates cand)"
    "map (entryAt s5) trefs = map Some (case tests cand of None \<Rightarrow> [] | Some ts \<Rightarrow> ts)"
    by (rule k5(2) [OF m4(1)], rule k5(2) [OF m4(2)])
  have "entriesAt s5 (?n + 1) = Some []"
    unfolding entriesAt_iff elements_fetch_iff using f5(1) by simp
  then obtain s6 where s6:
    "resolveInto wd parse fs (?n + 1) krefs s5 = Some (Inr (), s6)"
    "entriesAt s6 (?n + 1) = Some ([] @ ks)"
    "\<forall>r obj. r \<noteq> ?n + 1 \<longrightarrow> fetch s5 r = Some obj \<longrightarrow> fetch s6 r = Some obj"
    using resolveInto_refines [OF m5(1) _ ks, of "?n + 1" "[]"] by blast
  note k6 = kept_entries [OF s6(3) f5(1)]
  have c6: "entriesAt s6 ?n = Some cs"
    using k6(3) [of ?n cs] s5(2) by simp
  have t6: "entriesAt s6 (?n + 2) = Some (case tests cand of None \<Rightarrow> [] | Some ts \<Rightarrow> ts)"
  proof -
    have "entriesAt s5 (?n + 2) = Some (case tests cand of None \<Rightarrow> [] | Some ts \<Rightarrow> ts)"
      unfolding entriesAt_iff elements_fetch_iff using f5(2) m5(2) by blast
    then show ?thesis using k6(3) [of "?n + 2"] by simp
  qed
  have r6: "fetch s6 (?n + 3) = Some (CandidatesObject ?n (?n + 1) (Some (?n + 2)))"
    using f5(3) s6(3) by simp
  have run: "detectModuleNamesS wd parse fs a s = Some (Inr (?n + 3), s6)"
    using a trefs(1) e4(1) s5(1) e5 s6(1) unfolding s4_def
    by (simp add: detectModuleNamesS_def allocate_def)
  have "candidatesAt s6 (?n + 3) = Some result"
    using r6 c6 s6(2) t6 by (simp add: candidatesAt_def result)
  with run r6 show ?thesis by blast
qed


lemma allocateChoices_refines:
  "map (entryAt s) rs = map Some es \<Longrightarrow>
   allocateChoices g rs s =
     Some ([length s..<length s + length es], s @ map (\<lambda>e. EntryObject (withGroup g e)) es)"
proof (induction rs arbitrary: s es)
  case Nil
  then show ?case by simp
next
  case (Cons r rs)
  from Cons.prems obtain e es0 where es: "es = e # es0" and
    e: "entryAt s r = Some e" and rest: "map (entryAt s) rs = map Some es0"
    by (cases es) auto
  have "map (entryAt (s @ [EntryObject (withGroup g e)])) rs = map Some es0"
    by (rule map_entryAt_append [OF rest])
  from Cons.IH [OF this]
  have step: "allocateChoices g rs (s @ [EntryObject (withGroup g e)]) =
      Some ([Suc (length s)..<Suc (length s) + length es0],
            (s @ [EntryObject (withGroup g e)]) @ map (\<lambda>e. EntryObject (withGroup g e)) es0)"
    by simp
  have "[length s..<length s + length es] = length s # [Suc (length s)..<Suc (length s) + length es0]"
  proof -
    have "length s < length s + length es" using es by simp
    then have "[length s..<length s + length es] = length s # [Suc (length s)..<length s + length es]"
      by (rule upt_conv_Cons)
    moreover have "length s + length es = Suc (length s) + length es0" using es by simp
    ultimately show ?thesis by (simp only:)
  qed
  with step e es show ?case
    by (simp add: allocate_def)
qed

lemma map_entryAt_new:
  "map (entryAt (s @ map EntryObject vs)) [length s..<length s + length vs] = map Some vs"
proof (induction vs rule: rev_induct)
  case Nil
  then show ?case by simp
next
  case (snoc v vs)
  have "map (entryAt (s @ map EntryObject vs @ [EntryObject v])) [length s..<length s + length vs]
      = map Some vs"
    using map_entryAt_append [OF snoc.IH, of "[EntryObject v]"] by simp
  moreover have "entryAt (s @ map EntryObject vs @ [EntryObject v]) (length s + length vs) = Some v"
    using entryAt_new [of "s @ map EntryObject vs" v] by simp
  ultimately show ?case by simp
qed

lemma pushByGroup_refines:
  assumes res: "fetch s res = Some (CandidatesObject rc rk (Some rt))"
    and dist: "rc \<noteq> rk" "rc \<noteq> rt" "rk \<noteq> rt"
    and c: "entriesAt s rc = Some cs" and k: "entriesAt s rk = Some ks" and t: "entriesAt s rt = Some ts"
    and v: "entryAt s item = Some v"
  shows "\<exists>s' cs' ks' ts'. pushByGroup res item s = Some s' \<and>
      fetch s' res = Some (CandidatesObject rc rk (Some rt)) \<and>
      entriesAt s' rc = Some cs' \<and> entriesAt s' rk = Some ks' \<and> entriesAt s' rt = Some ts' \<and>
      pushItem \<lparr>contracts = cs, crates = ks, tests = Some ts\<rparr> v =
        \<lparr>contracts = cs', crates = ks', tests = Some ts'\<rparr> \<and>
      (\<forall>r. entryAt s' r = entryAt s r)"
proof -
  have unfolded: "pushByGroup res item s =
      (if group v = Some ''contracts'' then push rc item s
       else if group v = Some ''crates'' then push rk item s
       else if group v = Some ''tests'' then push rt item s
       else Some s)"
    using res v by (simp add: pushByGroup_def)
  have notres: "x \<noteq> res" if "entriesAt s x = Some es" for x es
    using that res unfolding entriesAt_iff elements_fetch_iff by auto
  show ?thesis
  proof (cases "group v = Some ''contracts''")
    case True
    from push_refines [OF c v] obtain s' where s': "push rc item s = Some s'"
      "entriesAt s' rc = Some (cs @ [v])" "\<forall>r. entryAt s' r = entryAt s r"
      "\<forall>r. r \<noteq> rc \<longrightarrow> fetch s' r = fetch s r" "\<forall>r. r \<noteq> rc \<longrightarrow> entriesAt s' r = entriesAt s r"
      by blast
    with True unfolded res dist k t notres [OF c] show ?thesis
      by (auto simp: pushItem_def)
  next
    case notc: False
    show ?thesis
    proof (cases "group v = Some ''crates''")
      case True
      from push_refines [OF k v] obtain s' where s': "push rk item s = Some s'"
        "entriesAt s' rk = Some (ks @ [v])" "\<forall>r. entryAt s' r = entryAt s r"
        "\<forall>r. r \<noteq> rk \<longrightarrow> fetch s' r = fetch s r" "\<forall>r. r \<noteq> rk \<longrightarrow> entriesAt s' r = entriesAt s r"
        by blast
      with True notc unfolded res dist c t notres [OF k] show ?thesis
        by (auto simp: pushItem_def)
    next
      case notk: False
      show ?thesis
      proof (cases "group v = Some ''tests''")
        case True
        from push_refines [OF t v] obtain s' where s': "push rt item s = Some s'"
          "entriesAt s' rt = Some (ts @ [v])" "\<forall>r. entryAt s' r = entryAt s r"
          "\<forall>r. r \<noteq> rt \<longrightarrow> fetch s' r = fetch s r" "\<forall>r. r \<noteq> rt \<longrightarrow> entriesAt s' r = entriesAt s r"
          by blast
        with True notc notk unfolded res dist c k notres [OF t] show ?thesis
          by (auto simp: pushItem_def)
      next
        case False
        with notc notk unfolded res c k t show ?thesis
          by (auto simp: pushItem_def)
      qed
    qed
  qed
qed

lemma pushAll_refines:
  assumes "fetch s res = Some (CandidatesObject rc rk (Some rt))"
    and "rc \<noteq> rk" "rc \<noteq> rt" "rk \<noteq> rt"
    and "entriesAt s rc = Some cs" and "entriesAt s rk = Some ks" and "entriesAt s rt = Some ts"
    and "map (entryAt s) items = map Some vs"
  shows "\<exists>s'. pushAll res items s = Some s' \<and>
      candidatesAt s' res = Some (foldl pushItem \<lparr>contracts = cs, crates = ks, tests = Some ts\<rparr> vs) \<and>
      fetch s' res = Some (CandidatesObject rc rk (Some rt))"
  using assms
proof (induction items arbitrary: s cs ks ts vs)
  case Nil
  then show ?case by (simp add: candidatesAt_def)
next
  case (Cons item items)
  from Cons.prems(8) obtain v vs0 where vs: "vs = v # vs0" and
    v: "entryAt s item = Some v" and rest: "map (entryAt s) items = map Some vs0"
    by (cases vs) auto
  from pushByGroup_refines [OF Cons.prems(1-7) v] obtain s1 cs' ks' ts' where s1:
    "pushByGroup res item s = Some s1"
    "fetch s1 res = Some (CandidatesObject rc rk (Some rt))"
    "entriesAt s1 rc = Some cs'" "entriesAt s1 rk = Some ks'" "entriesAt s1 rt = Some ts'"
    "pushItem \<lparr>contracts = cs, crates = ks, tests = Some ts\<rparr> v =
        \<lparr>contracts = cs', crates = ks', tests = Some ts'\<rparr>"
    "\<forall>r. entryAt s1 r = entryAt s r"
    by blast
  from s1(7) have "entryAt s1 = entryAt s" by (simp add: fun_eq_iff)
  with rest have r1: "map (entryAt s1) items = map Some vs0" by simp
  from Cons.IH [OF s1(2) Cons.prems(2-4) s1(3-5) r1] s1(1,6) vs show ?case
    by simp
qed


lemma update_candidates:
  assumes "fetch s a = Some (CandidatesObject c k t)"
  shows "entryAt (s[a := CandidatesObject c' k' t']) = entryAt s"
    and "elements (s[a := CandidatesObject c' k' t']) r = (if r = a then None else elements s r)"
    and "fetch (s[a := CandidatesObject c' k' t']) a = Some (CandidatesObject c' k' t')"
  using assms
  by (auto simp: entryAt_def elements_def fetch_def fun_eq_iff nth_list_update
           split: option.splits object.splits if_splits)

lemma entriesAt_update_candidates:
  assumes "fetch s a = Some (CandidatesObject c k t)" and "entriesAt s r = Some es"
  shows "entriesAt (s[a := CandidatesObject c' k' t']) r = Some es"
proof -
  from assms(2) obtain items where items: "elements s r = Some items"
    "map (entryAt s) items = map Some es"
    unfolding entriesAt_iff by blast
  with assms(1) have "r \<noteq> a" by (auto simp: elements_fetch_iff)
  with items update_candidates(1,2) [OF assms(1)] show ?thesis
    unfolding entriesAt_iff by simp
qed

lemma ensureTests_refines:
  assumes "candidatesAt s a = Some cand"
  shows "\<exists>c k tr s1. ensureTests a s = Some (tr, s1) \<and>
      fetch s1 a = Some (CandidatesObject c k (Some tr)) \<and>
      entriesAt s1 c = Some (contracts cand) \<and> entriesAt s1 k = Some (crates cand) \<and>
      entriesAt s1 tr = Some (case tests cand of None \<Rightarrow> [] | Some ts \<Rightarrow> ts)"
proof -
  from assms obtain c k t where a: "fetch s a = Some (CandidatesObject c k t)"
    and c: "entriesAt s c = Some (contracts cand)" and k: "entriesAt s k = Some (crates cand)"
    and t: "case t of None \<Rightarrow> tests cand = None
            | Some tr \<Rightarrow> (\<exists>ts. entriesAt s tr = Some ts \<and> tests cand = Some ts)"
    by (rule candidatesAt_cases)
  show ?thesis
  proof (cases t)
    case (Some tr)
    with a c k t show ?thesis by (auto simp: ensureTests_def)
  next
    case None
    define s0 where "s0 = s @ [ArrayObject []]"
    have a0: "fetch s0 a = Some (CandidatesObject c k None)"
      unfolding s0_def using a None by (simp add: fetch_append)
    have c0: "entriesAt s0 c = Some (contracts cand)" and k0: "entriesAt s0 k = Some (crates cand)"
      unfolding s0_def using c k by (simp_all add: entriesAt_append)
    have t0: "entriesAt s0 (length s) = Some []"
      unfolding s0_def by (simp add: entriesAt_def elements_def fetch_def)
    have "ensureTests a s = Some (length s, s0[a := CandidatesObject c k (Some (length s))])"
      using a None by (simp add: ensureTests_def allocate_def s0_def)
    moreover from t None have "tests cand = None" by simp
    ultimately show ?thesis
      using update_candidates(3) [OF a0]
        entriesAt_update_candidates [OF a0 c0] entriesAt_update_candidates [OF a0 k0]
        entriesAt_update_candidates [OF a0 t0]
      by simp
  qed
qed

lemma allocateChoices_stage:
  assumes "entriesAt s x = Some es"
  shows "\<exists>items. elements s x = Some items \<and>
      allocateChoices g items s =
        Some ([length s..<length s + length es], s @ map EntryObject (map (withGroup g) es)) \<and>
      map (entryAt (s @ map EntryObject (map (withGroup g) es))) [length s..<length s + length es] =
        map Some (map (withGroup g) es)"
proof -
  from assms obtain items where items: "elements s x = Some items"
    "map (entryAt s) items = map Some es"
    unfolding entriesAt_iff by blast
  from allocateChoices_refines [OF items(2), of g]
  have "allocateChoices g items s =
      Some ([length s..<length s + length es], s @ map EntryObject (map (withGroup g) es))"
    by (simp add: comp_def)
  moreover have "map (entryAt (s @ map EntryObject (map (withGroup g) es)))
      [length s..<length s + length es] = map Some (map (withGroup g) es)"
    using map_entryAt_new [of s "map (withGroup g) es"] by simp
  ultimately show ?thesis using items(1) by blast
qed

lemma emptyCandidates_refines:
  "emptyCandidates s =
     (length s + 3,
      s @ [ArrayObject [], ArrayObject [], ArrayObject [],
           CandidatesObject (length s) (length s + 1) (Some (length s + 2))])"
  by (simp add: emptyCandidates_def allocate_def numeral_3_eq_3)

lemma confirmCopyListS_refines:
  assumes "candidatesAt s a = Some cand"
  shows "\<exists>res s' n. confirmCopyListS sel a s = Some (res, s') \<and>
      candidatesAt s' res = Some (confirmCopyList sel cand) \<and>
      length s \<le> n \<and> res = n + 3 \<and>
      fetch s' res = Some (CandidatesObject n (n + 1) (Some (n + 2)))"
proof -
  define ts where "ts = (case tests cand of None \<Rightarrow> [] | Some ts \<Rightarrow> ts)"
  from ensureTests_refines [OF assms] obtain c k tr s1 where
    e: "ensureTests a s = Some (tr, s1)" and
    a1: "fetch s1 a = Some (CandidatesObject c k (Some tr))" and
    c1: "entriesAt s1 c = Some (contracts cand)" and
    k1: "entriesAt s1 k = Some (crates cand)" and
    t1: "entriesAt s1 tr = Some ts"
    unfolding ts_def by blast
  define cv where "cv = map (withGroup ''contracts'') (contracts cand)"
  define kv where "kv = map (withGroup ''crates'') (crates cand)"
  define tv where "tv = map (withGroup ''tests'') ts"
  define s2 where "s2 = s1 @ map EntryObject cv"
  define s3 where "s3 = s2 @ map EntryObject kv"
  define s4 where "s4 = s3 @ map EntryObject tv"
  define cc where "cc = [length s1..<length s1 + length (contracts cand)]"
  define kc where "kc = [length s2..<length s2 + length (crates cand)]"
  define tc where "tc = [length s3..<length s3 + length ts]"
  from allocateChoices_stage [OF c1, of "''contracts''"] obtain crefs where
    cr: "elements s1 c = Some crefs" "allocateChoices ''contracts'' crefs s1 = Some (cc, s2)"
      "map (entryAt s2) cc = map Some cv"
    unfolding s2_def cc_def cv_def by blast
  have k2: "entriesAt s2 k = Some (crates cand)" and t2: "entriesAt s2 tr = Some ts"
    unfolding s2_def using k1 t1 by (simp_all add: entriesAt_append)
  from allocateChoices_stage [OF k2, of "''crates''"] obtain krefs where
    kr: "elements s2 k = Some krefs" "allocateChoices ''crates'' krefs s2 = Some (kc, s3)"
      "map (entryAt s3) kc = map Some kv"
    unfolding s3_def kc_def kv_def by blast
  have t3: "entriesAt s3 tr = Some ts"
    unfolding s3_def using t2 by (simp add: entriesAt_append)
  from allocateChoices_stage [OF t3, of "''tests''"] obtain trefs where
    tr: "elements s3 tr = Some trefs" "allocateChoices ''tests'' trefs s3 = Some (tc, s4)"
      "map (entryAt s4) tc = map Some tv"
    unfolding s4_def tc_def tv_def by blast
  define n where "n = length s4"
  define s5 where "s5 = s4 @ [ArrayObject [], ArrayObject [], ArrayObject [],
      CandidatesObject n (n + 1) (Some (n + 2))]"
  have em: "emptyCandidates s4 = (n + 3, s5)"
    unfolding s5_def n_def by (rule emptyCandidates_refines)
  have c4: "map (entryAt s4) cc = map Some cv"
    unfolding s4_def s3_def using cr(3) by (simp add: map_entryAt_append)
  have k4: "map (entryAt s4) kc = map Some kv"
    unfolding s4_def using kr(3) by (simp add: map_entryAt_append)
  have "map (entryAt s4) (cc @ kc @ tc) = map Some (cv @ kv @ tv)"
    using c4 k4 tr(3) by simp
  then have all5: "map (entryAt s5) (cc @ kc @ tc) = map Some (confirmChoices cand)"
    unfolding s5_def confirmChoices_def cv_def kv_def tv_def ts_def
    by (rule map_entryAt_append)
  have chosen: "map (entryAt s5) (checkbox sel (cc @ kc @ tc)) =
      map Some (checkbox sel (confirmChoices cand))"
    using all5 by (simp add: checkbox_map [symmetric])
  have res5: "fetch s5 (n + 3) = Some (CandidatesObject n (n + 1) (Some (n + 2)))"
    unfolding s5_def n_def by (simp add: fetch_def nth_append numeral_3_eq_3)
  have e5: "entriesAt s5 n = Some []" "entriesAt s5 (n + 1) = Some []"
    "entriesAt s5 (n + 2) = Some []"
    unfolding s5_def n_def
    by (simp_all add: entriesAt_def elements_def fetch_def nth_append numeral_2_eq_2)
  have "n \<noteq> n + 1" "n \<noteq> n + 2" "n + 1 \<noteq> n + 2" by simp_all
  from pushAll_refines [OF res5 this e5 chosen] obtain s6 where
    s6: "pushAll (n + 3) (checkbox sel (cc @ kc @ tc)) s5 = Some s6"
      "candidatesAt s6 (n + 3) = Some (confirmCopyList sel cand)"
      "fetch s6 (n + 3) = Some (CandidatesObject n (n + 1) (Some (n + 2)))"
    unfolding confirmCopyList_def by blast
  have "length s \<le> length s1"
    using e by (auto elim!: ensureTests_cases)
  then have grown: "length s \<le> n"
    unfolding n_def s4_def s3_def s2_def by simp
  have "confirmCopyListS sel a s = Some (n + 3, s6)"
    using e a1 cr(1,2) kr(1,2) tr(1,2) em s6(1)
    by (simp add: confirmCopyListS_def)
  with s6(2,3) grown show ?thesis by blast
qed

lemma newSet_iff:
  "newSet s s' r \<longleftrightarrow>
   (\<exists>c k t. fetch s' r = Some (CandidatesObject c k (Some t)) \<and>
      length s \<le> r \<and> length s \<le> c \<and> length s \<le> k \<and> length s \<le> t)"
  by (auto simp: newSet_def split: option.splits object.splits)

lemma sampleStore_candidates:
  "candidatesAt sampleStore 4 =
     Some \<lparr>contracts = [sampleEntries ! 0], crates = [sampleEntries ! 1], tests = None\<rparr>"
  "candidatesAt sampleStoreWithTests 4 =
     Some \<lparr>contracts = [sampleEntries ! 0], crates = [sampleEntries ! 1], tests = Some []\<rparr>"
  by code_simp+

lemma sampleStore_resolved:
  "detectModuleNames ''/work'' (parseTOML sampleLibraries) sampleDisk
     \<lparr>contracts = [sampleEntries ! 0], crates = [sampleEntries ! 1], tests = None\<rparr> =
   Inr (\<lparr>contracts = [(sampleEntries ! 0)\<lparr>moduleName := Some (Str ''flipper_contract'')\<rparr>],
          crates = [(sampleEntries ! 1)\<lparr>moduleName := Some (Str ''util'')\<rparr>],
          tests = Some []\<rparr>, [])"
  by code_simp

lemma sampleStore_confirmed:
  "confirmCopyList (\<lambda>i. i \<noteq> 0)
     \<lparr>contracts = [sampleEntries ! 0], crates = [sampleEntries ! 1], tests = None\<rparr> =
   \<lparr>contracts = [], crates = [(sampleEntries ! 1)\<lparr>group := Some ''crates''\<rparr>], tests = Some []\<rparr>"
  "confirmCopyList (\<lambda>i. i \<noteq> 0)
     \<lparr>contracts = [sampleEntries ! 0], crates = [sampleEntries ! 1], tests = Some []\<rparr> =
   \<lparr>contracts = [], crates = [(sampleEntries ! 1)\<lparr>group := Some ''crates''\<rparr>], tests = Some []\<rparr>"
  by code_simp+

lemma sampleStore_gate_run:
  "map_option (\<lambda>(res, s'). fetch s' 4) (confirmCopyListS (\<lambda>i. True) 4 sampleStore) =
     Some (Some (CandidatesObject 2 3 (Some 5)))"
  "fetch sampleStore 4 = Some (CandidatesObject 2 3 None)"
  by code_simp+

text \<open>
  C8, as amended. On a store where the reference holds a candidate set, both stages
  return a new set: a new object with three new arrays, which stands for the value the
  stage computes. The resolver changes no object that was there before it ran,
  whether it returns or throws. The confirmation gate changes none but the set it was
  handed, and that one only when it has no tests group: its tests property then
  becomes a new empty array, while its contracts and crates arrays and every entry
  stay as they were.
\<close>

theorem stages_return_new_sets:
  assumes "candidatesAt s a = Some cand"
  shows "(\<forall>wd parse fs outcome s'.
            detectModuleNamesS wd parse fs a s = Some (outcome, s') \<longrightarrow> take (length s) s' = s) \<and>
         (\<forall>wd parse fs result msgs.
            detectModuleNames wd parse fs cand = Inr (result, msgs) \<longrightarrow>
            (\<exists>res s'. detectModuleNamesS wd parse fs a s = Some (Inr res, s') \<and>
               candidatesAt s' res = Some result \<and> newSet s s' res)) \<and>
         (\<forall>sel. \<exists>res s'.
            confirmCopyListS sel a s = Some (res, s') \<and>
            candidatesAt s' res = Some (confirmCopyList sel cand) \<and> newSet s s' res \<and>
            (\<forall>r<length s. r \<noteq> a \<longrightarrow> s' ! r = s ! r) \<and>
            (tests cand \<noteq> None \<longrightarrow> take (length s) s' = s) \<and>
            (tests cand = None \<longrightarrow>
               (\<exists>c k. fetch s a = Some (CandidatesObject c k None) \<and>
                  fetch s' a = Some (CandidatesObject c k (Some (length s))) \<and>
                  fetch s' (length s) = Some (ArrayObject []))))"
proof (intro conjI allI impI)
  fix wd parse fs outcome s'
  assume "detectModuleNamesS wd parse fs a s = Some (outcome, s')"
  then show "take (length s) s' = s"
    using detectModuleNamesS_frame by blast
next
  fix wd parse fs result msgs
  assume "detectModuleNames wd parse fs cand = Inr (result, msgs)"
  from detectModuleNamesS_refines [OF assms this] obtain s' where r:
    "detectModuleNamesS wd parse fs a s = Some (Inr (length s + 3), s')"
    "candidatesAt s' (length s + 3) = Some result"
    "fetch s' (length s + 3) =
       Some (CandidatesObject (length s) (length s + 1) (Some (length s + 2)))"
    by (elim exE conjE)
  from r(3) have new: "newSet s s' (length s + 3)"
    unfolding newSet_iff by simp
  show "\<exists>res s'. detectModuleNamesS wd parse fs a s = Some (Inr res, s') \<and>
      candidatesAt s' res = Some result \<and> newSet s s' res"
  proof (intro exI conjI)
    show "detectModuleNamesS wd parse fs a s = Some (Inr (length s + 3), s')" by (rule r(1))
    show "candidatesAt s' (length s + 3) = Some result" by (rule r(2))
    show "newSet s s' (length s + 3)" by (rule new)
  qed
next
  fix sel
  from confirmCopyListS_refines [OF assms, of sel] obtain res s' n where run:
    "confirmCopyListS sel a s = Some (res, s')"
    "candidatesAt s' res = Some (confirmCopyList sel cand)"
    "length s \<le> n" "res = n + 3"
    "fetch s' res = Some (CandidatesObject n (n + 1) (Some (n + 2)))"
    by (elim exE conjE)
  from run(3-5) have new: "newSet s s' res"
    unfolding newSet_iff by simp
  note frame = confirmCopyListS_frame [OF run(1)]
  note grown = frame [THEN conjunct1]
  note others = frame [THEN conjunct2, THEN conjunct2, THEN conjunct2, THEN conjunct1]
  note kept = frame [THEN conjunct2, THEN conjunct2, THEN conjunct2, THEN conjunct2,
      THEN conjunct1, rule_format]
  note assigned = frame [THEN conjunct2, THEN conjunct2, THEN conjunct2, THEN conjunct2,
      THEN conjunct2, rule_format]
  from assms obtain c k t where a: "fetch s a = Some (CandidatesObject c k t)" and
    t: "case t of None \<Rightarrow> tests cand = None
        | Some tr \<Rightarrow> (\<exists>ts. entriesAt s tr = Some ts \<and> tests cand = Some ts)"
    by (rule candidatesAt_cases)
  have present: "tests cand \<noteq> None \<longrightarrow> take (length s) s' = s"
  proof
    assume "tests cand \<noteq> None"
    with t obtain tr where "t = Some tr" by (cases t) auto
    with a have "fetch s a = Some (CandidatesObject c k (Some tr))" by simp
    then show "take (length s) s' = s" by (rule kept)
  qed
  have absent: "tests cand = None \<longrightarrow>
      (\<exists>c k. fetch s a = Some (CandidatesObject c k None) \<and>
         fetch s' a = Some (CandidatesObject c k (Some (length s))) \<and>
         fetch s' (length s) = Some (ArrayObject []))"
  proof
    assume "tests cand = None"
    with t have none: "t = None" by (cases t) auto
    with a have a': "fetch s a = Some (CandidatesObject c k None)" by simp
    from assigned [OF a'] grown have cells: "s' ! a = CandidatesObject c k (Some (length s))"
      "s' ! length s = ArrayObject []" "length s < length s'"
      by simp_all
    from a have "a < length s" by (simp add: fetch_def split: if_splits)
    with cells have "fetch s' a = Some (CandidatesObject c k (Some (length s)))"
      "fetch s' (length s) = Some (ArrayObject [])"
      by (simp_all add: fetch_def)
    with a' show "\<exists>c k. fetch s a = Some (CandidatesObject c k None) \<and>
         fetch s' a = Some (CandidatesObject c k (Some (length s))) \<and>
         fetch s' (length s) = Some (ArrayObject [])"
      by (intro exI [of _ c] exI [of _ k] conjI)
  qed
  show "\<exists>res s'.
            confirmCopyListS sel a s = Some (res, s') \<and>
            candidatesAt s' res = Some (confirmCopyList sel cand) \<and> newSet s s' res \<and>
            (\<forall>r<length s. r \<noteq> a \<longrightarrow> s' ! r = s ! r) \<and>
            (tests cand \<noteq> None \<longrightarrow> take (length s) s' = s) \<and>
            (tests cand = None \<longrightarrow>
               (\<exists>c k. fetch s a = Some (CandidatesObject c k None) \<and>
                  fetch s' a = Some (CandidatesObject c k (Some (length s))) \<and>
                  fetch s' (length s) = Some (ArrayObject [])))"
  proof (intro exI conjI)
    show "confirmCopyListS sel a s = Some (res, s')" by (rule run(1))
    show "candidatesAt s' res = Some (confirmCopyList sel cand)" by (rule run(2))
    show "newSet s s' res" by (rule new)
    show "\<forall>r<length s. r \<noteq> a \<longrightarrow> s' ! r = s ! r" by (rule others)
    show "tests cand \<noteq> None \<longrightarrow> take (length s) s' = s" by (rule present)
    show "tests cand = None \<longrightarrow>
      (\<exists>c k. fetch s a = Some (CandidatesObject c k None) \<and>
         fetch s' a = Some (CandidatesObject c k (Some (length s))) \<and>
         fetch s' (length s) = Some (ArrayObject []))" by (rule absent)
  qed
qed

theorem stages_return_new_sets_witness:
  "candidatesAt sampleStore 4 =
     Some \<lparr>contracts = [sampleEntries ! 0], crates = [sampleEntries ! 1], tests = None\<rparr> \<and>
   candidatesAt sampleStoreWithTests 4 =
     Some \<lparr>contracts = [sampleEntries ! 0], crates = [sampleEntries ! 1], tests = Some []\<rparr> \<and>
   (\<exists>res s'. detectModuleNamesS ''/work'' (parseTOML sampleLibraries) sampleDisk 4 sampleStore = Some (Inr res, s') \<and>
      candidatesAt s' res =
        Some \<lparr>contracts = [(sampleEntries ! 0)\<lparr>moduleName := Some (Str ''flipper_contract'')\<rparr>],
              crates = [(sampleEntries ! 1)\<lparr>moduleName := Some (Str ''util'')\<rparr>],
              tests = Some []\<rparr> \<and>
      newSet sampleStore s' res \<and> take (length sampleStore) s' = sampleStore) \<and>
   (\<exists>res s'. confirmCopyListS (\<lambda>i. i \<noteq> 0) 4 sampleStore = Some (res, s') \<and>
      candidatesAt s' res =
        Some \<lparr>contracts = [], crates = [(sampleEntries ! 1)\<lparr>group := Some ''crates''\<rparr>],
              tests = Some []\<rparr> \<and>
      newSet sampleStore s' res \<and>
      fetch s' 4 = Some (CandidatesObject 2 3 (Some 5)) \<and> fetch s' 5 = Some (ArrayObject [])) \<and>
   (\<exists>res s'. confirmCopyListS (\<lambda>i. i \<noteq> 0) 4 sampleStoreWithTests = Some (res, s') \<and>
      candidatesAt s' res =
        Some \<lparr>contracts = [], crates = [(sampleEntries ! 1)\<lparr>group := Some ''crates''\<rparr>],
              tests = Some []\<rparr> \<and>
      newSet sampleStoreWithTests s' res \<and>
      take (length sampleStoreWithTests) s' = sampleStoreWithTests)"
proof -
  note absent = stages_return_new_sets [OF sampleStore_candidates(1)]
  note present = stages_return_new_sets [OF sampleStore_candidates(2)]
  have len: "length sampleStore = 5"
    by (simp add: sampleStore_def sampleEntries_def)
  have a4: "fetch sampleStore 4 = Some (CandidatesObject 2 3 None)"
    by (simp add: sampleStore_def sampleEntries_def fetch_def)
  note resolver = absent [THEN conjunct2, THEN conjunct1, THEN spec, THEN spec, THEN spec, THEN spec, THEN spec,
      THEN mp, OF sampleStore_resolved]
  note gate = absent [THEN conjunct2, THEN conjunct2, THEN spec [of _ "\<lambda>i. i \<noteq> 0"]]
  note gate' = present [THEN conjunct2, THEN conjunct2, THEN spec [of _ "\<lambda>i. i \<noteq> 0"]]
  have first: "\<exists>res s'. detectModuleNamesS ''/work'' (parseTOML sampleLibraries) sampleDisk 4 sampleStore = Some (Inr res, s') \<and>
      candidatesAt s' res =
        Some \<lparr>contracts = [(sampleEntries ! 0)\<lparr>moduleName := Some (Str ''flipper_contract'')\<rparr>],
              crates = [(sampleEntries ! 1)\<lparr>moduleName := Some (Str ''util'')\<rparr>],
              tests = Some []\<rparr> \<and>
      newSet sampleStore s' res \<and> take (length sampleStore) s' = sampleStore"
  proof -
    from resolver obtain res s' where r:
      "detectModuleNamesS ''/work'' (parseTOML sampleLibraries) sampleDisk 4 sampleStore = Some (Inr res, s') \<and>
       candidatesAt s' res =
        Some \<lparr>contracts = [(sampleEntries ! 0)\<lparr>moduleName := Some (Str ''flipper_contract'')\<rparr>],
              crates = [(sampleEntries ! 1)\<lparr>moduleName := Some (Str ''util'')\<rparr>],
              tests = Some []\<rparr> \<and>
       newSet sampleStore s' res"
      by (elim exE)
    then have "detectModuleNamesS ''/work'' (parseTOML sampleLibraries) sampleDisk 4 sampleStore = Some (Inr res, s')"
      by (rule conjunct1)
    with absent [THEN conjunct1, THEN spec, THEN spec, THEN spec, THEN spec, THEN spec]
    have "take (length sampleStore) s' = sampleStore"
      by (rule mp)
    with r show ?thesis
      by (intro exI [of _ res] exI [of _ s']) simp
  qed
  have second: "\<exists>res s'. confirmCopyListS (\<lambda>i. i \<noteq> 0) 4 sampleStore = Some (res, s') \<and>
      candidatesAt s' res =
        Some \<lparr>contracts = [], crates = [(sampleEntries ! 1)\<lparr>group := Some ''crates''\<rparr>],
              tests = Some []\<rparr> \<and>
      newSet sampleStore s' res \<and>
      fetch s' 4 = Some (CandidatesObject 2 3 (Some 5)) \<and> fetch s' 5 = Some (ArrayObject [])"
  proof -
    from gate obtain res s' where
      run: "confirmCopyListS (\<lambda>i. i \<noteq> 0) 4 sampleStore = Some (res, s')" and
      result: "candidatesAt s' res = Some (confirmCopyList (\<lambda>i. i \<noteq> 0)
         \<lparr>contracts = [sampleEntries ! 0], crates = [sampleEntries ! 1], tests = None\<rparr>)" and
      new: "newSet sampleStore s' res" and
      absent_tests: "tests \<lparr>contracts = [sampleEntries ! 0], crates = [sampleEntries ! 1], tests = None\<rparr> = None \<longrightarrow>
         (\<exists>c k. fetch sampleStore 4 = Some (CandidatesObject c k None) \<and>
            fetch s' 4 = Some (CandidatesObject c k (Some (length sampleStore))) \<and>
            fetch s' (length sampleStore) = Some (ArrayObject []))"
      by (elim exE conjE)
    have "tests \<lparr>contracts = [sampleEntries ! 0], crates = [sampleEntries ! 1], tests = None\<rparr> = None"
      by simp
    with absent_tests obtain c k where cells: "fetch sampleStore 4 = Some (CandidatesObject c k None)"
      "fetch s' 4 = Some (CandidatesObject c k (Some (length sampleStore)))"
      "fetch s' (length sampleStore) = Some (ArrayObject [])"
      by (elim impE exE conjE)
    from cells(1) a4 have "c = 2" "k = 3" by simp_all
    with cells(2,3) have "fetch s' 4 = Some (CandidatesObject 2 3 (Some 5))"
      "fetch s' 5 = Some (ArrayObject [])"
      by (simp_all only: len)
    with run result new show ?thesis
      unfolding sampleStore_confirmed
      by (intro exI [of _ res] exI [of _ s'] conjI)
  qed
  have third: "\<exists>res s'. confirmCopyListS (\<lambda>i. i \<noteq> 0) 4 sampleStoreWithTests = Some (res, s') \<and>
      candidatesAt s' res =
        Some \<lparr>contracts = [], crates = [(sampleEntries ! 1)\<lparr>group := Some ''crates''\<rparr>],
              tests = Some []\<rparr> \<and>
      newSet sampleStoreWithTests s' res \<and>
      take (length sampleStoreWithTests) s' = sampleStoreWithTests"
  proof -
    from gate' obtain res s' where
      run: "confirmCopyListS (\<lambda>i. i \<noteq> 0) 4 sampleStoreWithTests = Some (res, s')" and
      result: "candidatesAt s' res = Some (confirmCopyList (\<lambda>i. i \<noteq> 0)
         \<lparr>contracts = [sampleEntries ! 0], crates = [sampleEntries ! 1], tests = Some []\<rparr>)" and
      new: "newSet sampleStoreWithTests s' res" and
      present_tests: "tests \<lparr>contracts = [sampleEntries ! 0], crates = [sampleEntries ! 1], tests = Some []\<rparr> \<noteq> None \<longrightarrow>
         take (length sampleStoreWithTests) s' = sampleStoreWithTests"
      by (elim exE conjE)
    have "tests \<lparr>contracts = [sampleEntries ! 0], crates = [sampleEntries ! 1], tests = Some []\<rparr> \<noteq> None"
      by simp
    with present_tests have "take (length sampleStoreWithTests) s' = sampleStoreWithTests"
      by (rule mp)
    with run result new show ?thesis
      unfolding sampleStore_confirmed
      by (intro exI [of _ res] exI [of _ s'] conjI)
  qed
  from sampleStore_candidates first second third show ?thesis
    by (intro conjI)
qed

text \<open>
  C8 as stated fails: handed a set with no tests group, \<^verbatim>\<open>confirmCopyList\<close> assigns an
  empty array to the tests property of that very object.
\<close>

theorem confirmCopyList_assigns_to_its_input:
  "\<not> (\<forall>sel a s res s'.
        confirmCopyListS sel a s = Some (res, s') \<longrightarrow> fetch s' a = fetch s a)"
proof
  assume claim: "\<forall>sel a s res s'.
        confirmCopyListS sel a s = Some (res, s') \<longrightarrow> fetch s' a = fetch s a"
  from sampleStore_gate_run(1) obtain res s' where
    run: "confirmCopyListS (\<lambda>i. True) 4 sampleStore = Some (res, s')" and
    after: "fetch s' 4 = Some (CandidatesObject 2 3 (Some 5))"
    by (cases "confirmCopyListS (\<lambda>i. True) 4 sampleStore") auto
  from claim [rule_format, OF run] have "fetch s' 4 = fetch sampleStore 4" .
  with after sampleStore_gate_run(2) show False
    by simp
qed

end
